(* ===== verification/Prelude.thy ===== *)
theory Prelude
  imports Main "HOL-Library.Sublist" "HOL-Library.Code_Target_Nat"
begin

text \<open>
  The shared prelude of the library: the type synonyms that every component uses, the
  collections of simplification rules, and the generic lemmas on lists, options and
  results. A Go \<open>string\<close> and a Go \<open>[]byte\<close> are both a HOL \<open>string\<close>: a list of
  bytes (\<open>char\<close>), never of Unicode code points. A function of the code with a result
  and an \<open>error\<close> returns a value of \<open>'e + 'a\<close>; a function that returns only an
  \<open>error\<close> returns an \<open>'e option\<close>, where \<open>None\<close> is Go's \<open>nil\<close>.
\<close>

type_synonym bytes = string

named_theorems byte_simps \<open>facts about single bytes and their numeric values\<close>
named_theorems header_simps \<open>lookups after updates of an HTTP header map\<close>
named_theorems guard_simps \<open>when a guard of the proxy accepts\<close>

section \<open>Bytes\<close>

abbreviation byte_val :: "char \<Rightarrow> nat" where
  "byte_val c \<equiv> (of_char c :: nat)"

lemma byte_val_less [byte_simps]: "byte_val c < 256"
  by simp

lemma byte_val_eq [byte_simps]: "byte_val c = byte_val d \<longleftrightarrow> c = d"
  by (simp add: of_char_eq_iff)

lemma byte_of_val [byte_simps]: "n < 256 \<Longrightarrow> byte_val (char_of n) = n"
  by simp

lemma val_of_byte [byte_simps]: "n = byte_val c \<Longrightarrow> char_of n = c"
  by simp

section \<open>Lists\<close>

text \<open>Go's \<open>strings.IndexByte\<close> and \<open>strings.LastIndexByte\<close>, \<open>None\<close> for -1.\<close>

fun index_byte :: "char \<Rightarrow> string \<Rightarrow> nat option" where
  "index_byte c [] = None"
| "index_byte c (x # xs) = (if x = c then Some 0 else map_option Suc (index_byte c xs))"

definition last_index_byte :: "char \<Rightarrow> string \<Rightarrow> nat option" where
  "last_index_byte c s = map_option (\<lambda>i. length s - Suc i) (index_byte c (rev s))"

lemma index_byte_None_iff [simp]: "index_byte c s = None \<longleftrightarrow> c \<notin> set s"
  by (induction s) auto

lemma index_byte_fresh: "c \<notin> set a \<Longrightarrow> index_byte c (a @ c # b) = Some (length a)"
  by (induction a) auto

lemma index_byte_SomeD:
  "index_byte c s = Some i \<Longrightarrow>
     i < length s \<and> s ! i = c \<and> c \<notin> set (take i s) \<and> s = take i s @ c # drop (Suc i) s"
  by (induction s arbitrary: i) (auto split: if_splits)

lemma last_index_byte_None_iff [simp]: "last_index_byte c s = None \<longleftrightarrow> c \<notin> set s"
  by (simp add: last_index_byte_def)

lemma last_index_byte_fresh: "c \<notin> set b \<Longrightarrow> last_index_byte c (a @ c # b) = Some (length a)"
proof -
  assume "c \<notin> set b"
  then have "index_byte c (rev b @ c # rev a) = Some (length (rev b))"
    by (intro index_byte_fresh) simp
  then show ?thesis by (simp add: last_index_byte_def)
qed

lemma last_index_byte_SomeD:
  assumes "last_index_byte c s = Some i"
  shows "i < length s \<and> s = take i s @ c # drop (Suc i) s \<and> c \<notin> set (drop (Suc i) s)"
proof -
  from assms obtain k where k: "index_byte c (rev s) = Some k" and i: "i = length s - Suc k"
    by (auto simp: last_index_byte_def)
  from index_byte_SomeD [OF k] have kl: "k < length s" and at: "rev s ! k = c"
    and fr: "c \<notin> set (take k (rev s))" by auto
  from kl i have il: "i < length s" and sk: "Suc i = length s - k" by auto
  from at kl i have "s ! i = c" by (simp add: rev_nth)
  moreover from fr kl sk have "c \<notin> set (drop (Suc i) s)"
    by (simp add: take_rev)
  ultimately show ?thesis using il by (metis id_take_nth_drop)
qed

text \<open>\<open>strings.Split\<close> with a one-byte separator: never empty, joined it is the input.\<close>

fun split_byte :: "char \<Rightarrow> string \<Rightarrow> string list" where
  "split_byte c [] = [[]]"
| "split_byte c (x # xs) =
     (if x = c then [] # split_byte c xs
      else (case split_byte c xs of [] \<Rightarrow> [[x]] | p # ps \<Rightarrow> (x # p) # ps))"

fun join_byte :: "char \<Rightarrow> string list \<Rightarrow> string" where
  "join_byte c [] = []"
| "join_byte c [p] = p"
| "join_byte c (p # q # ps) = p @ c # join_byte c (q # ps)"

lemma split_byte_not_Nil [simp]: "split_byte c s \<noteq> []"
  by (induction s) (auto split: list.splits)

lemma join_byte_Cons: "ps \<noteq> [] \<Longrightarrow> join_byte c (p # ps) = p @ c # join_byte c ps"
  by (cases ps) auto

lemma join_byte_push: "join_byte c ((x # p) # ps) = x # join_byte c (p # ps)"
  by (cases ps) auto

lemma join_split_byte: "join_byte c (split_byte c s) = s"
  by (induction s) (auto split: list.splits simp: join_byte_Cons join_byte_push)

lemma split_byte_append:
  "split_byte c (a @ c # b) = split_byte c a @ split_byte c b"
  by (induction a) (auto split: list.splits)

lemma split_byte_single: "c \<notin> set s \<Longrightarrow> split_byte c s = [s]"
  by (induction s) auto

lemma split_byte_parts: "p \<in> set (split_byte c s) \<Longrightarrow> c \<notin> set p"
proof (induction s arbitrary: p)
  case (Cons x xs)
  then show ?case
    by (cases "split_byte c xs") (auto split: if_splits)
qed simp

text \<open>\<open>strings.Cut\<close> and \<open>strings.SplitN(s, sep, 2)\<close>: at the first separator.\<close>

definition cut_byte :: "char \<Rightarrow> string \<Rightarrow> (string \<times> string) option" where
  "cut_byte c s = (case index_byte c s of None \<Rightarrow> None | Some i \<Rightarrow> Some (take i s, drop (Suc i) s))"

lemma cut_byte_None [simp]: "cut_byte c s = None \<longleftrightarrow> c \<notin> set s"
  by (auto simp: cut_byte_def split: option.splits) (metis index_byte_None_iff option.distinct(1))

lemma cut_byte_fresh: "c \<notin> set a \<Longrightarrow> cut_byte c (a @ c # b) = Some (a, b)"
  by (simp add: cut_byte_def index_byte_fresh)

lemma cut_byte_SomeD: "cut_byte c s = Some (a, b) \<Longrightarrow> s = a @ c # b \<and> c \<notin> set a"
  by (auto simp: cut_byte_def split: option.splits dest: index_byte_SomeD)

section \<open>First error of a sequence of checks\<close>

text \<open>A loop \<open>for _, x := range xs { if err := f(x); err != nil { return err } }\<close>.\<close>

fun first_error :: "('a \<Rightarrow> 'e option) \<Rightarrow> 'a list \<Rightarrow> 'e option" where
  "first_error f [] = None"
| "first_error f (x # xs) = (case f x of Some e \<Rightarrow> Some e | None \<Rightarrow> first_error f xs)"

lemma first_error_None [simp]: "first_error f xs = None \<longleftrightarrow> (\<forall>x \<in> set xs. f x = None)"
  by (induction xs) (auto split: option.splits)

lemma first_error_SomeD: "first_error f xs = Some e \<Longrightarrow> \<exists>x \<in> set xs. f x = Some e"
  by (induction xs) (auto split: option.splits)

text \<open>A sequence of guards, each \<open>None\<close> when it lets the request pass: the first refusal wins.\<close>

definition or_else :: "'e option \<Rightarrow> 'e option \<Rightarrow> 'e option" where
  "or_else a b = (case a of Some e \<Rightarrow> Some e | None \<Rightarrow> b)"

lemma or_else_None [simp]: "or_else a b = None \<longleftrightarrow> a = None \<and> b = None"
  by (auto simp: or_else_def split: option.splits)

lemma or_else_simps [simp]: "or_else None b = b" "or_else (Some e) b = Some e"
  by (simp_all add: or_else_def)

section \<open>Fallible steps\<close>

text \<open>\<open>x, err := f(); if err != nil { return err }\<close>.\<close>

definition and_then :: "'e + 'a \<Rightarrow> ('a \<Rightarrow> 'e + 'b) \<Rightarrow> 'e + 'b" where
  "and_then r f = (case r of Inl e \<Rightarrow> Inl e | Inr x \<Rightarrow> f x)"

lemma and_then_simps [simp]: "and_then (Inl e) f = Inl e" "and_then (Inr x) f = f x"
  by (simp_all add: and_then_def)

lemma and_then_Inr: "and_then r f = Inr y \<longleftrightarrow> (\<exists>x. r = Inr x \<and> f x = Inr y)"
  by (cases r) auto

lemma and_then_Inl: "and_then r f = Inl e \<longleftrightarrow> r = Inl e \<or> (\<exists>x. r = Inr x \<and> f x = Inl e)"
  by (cases r) auto

text \<open>The error of a step, wrapped.\<close>

definition map_error :: "('e \<Rightarrow> 'f) \<Rightarrow> 'e + 'a \<Rightarrow> 'f + 'a" where
  "map_error g r = (case r of Inl e \<Rightarrow> Inl (g e) | Inr x \<Rightarrow> Inr x)"

lemma map_error_Inr [simp]: "map_error g r = Inr x \<longleftrightarrow> r = Inr x"
  by (cases r) (auto simp: map_error_def)

lemma map_error_Inl: "map_error g r = Inl e \<longleftrightarrow> (\<exists>d. r = Inl d \<and> e = g d)"
  by (cases r) (auto simp: map_error_def)

lemma map_error_simps [simp]: "map_error g (Inl e) = Inl (g e)" "map_error g (Inr x) = Inr x"
  by (simp_all add: map_error_def)

section \<open>Refinement of step relations\<close>

text \<open>A step relation that keeps an invariant and whose every step is a step of a specification or none.\<close>

locale refinement =
  fixes start :: 's
    and next_state :: "'s \<Rightarrow> 's \<Rightarrow> bool"
    and good :: "'s \<Rightarrow> bool"
    and view :: "'s \<Rightarrow> 'a"
    and spec :: "'a \<Rightarrow> 'a \<Rightarrow> bool"
  assumes good_start: "good start"
    and good_next: "next_state s s' \<Longrightarrow> good s \<Longrightarrow> good s'"
    and simulates: "next_state s s' \<Longrightarrow> good s \<Longrightarrow> view s' = view s \<or> spec (view s) (view s')"
begin

lemma reach_good: "next_state\<^sup>*\<^sup>* start s \<Longrightarrow> good s"
  by (induction rule: rtranclp_induct) (auto intro: good_start good_next)

lemma reach_spec: "next_state\<^sup>*\<^sup>* start s \<Longrightarrow> spec\<^sup>*\<^sup>* (view start) (view s)"
proof (induction rule: rtranclp_induct)
  case (step s s')
  then show ?case using simulates [OF step.hyps(2) reach_good] by (metis rtranclp.rtrancl_into_rtrancl)
qed simp

end

text \<open>A rank that every step lowers from the moment there is something to react to.\<close>

locale bounded_refinement = refinement +
  fixes active :: "'s \<Rightarrow> bool"
    and rank :: "'s \<Rightarrow> nat"
  assumes stays_active: "next_state s s' \<Longrightarrow> active s \<Longrightarrow> active s'"
    and decreases: "next_state s s' \<Longrightarrow> good s \<Longrightarrow> active s \<Longrightarrow> rank s' < rank s"
begin

lemma bounded:
  assumes "good s" "active s" "(next_state ^^ n) s s'"
  shows "good s' \<and> active s' \<and> n + rank s' \<le> rank s"
  using assms(3)
proof (induction n arbitrary: s')
  case 0
  then show ?case using assms(1,2) by simp
next
  case (Suc n)
  then obtain t where t: "(next_state ^^ n) s t" "next_state t s'" by auto
  have "good t" "active t" "n + rank t \<le> rank s" using Suc.IH [OF t(1)] by simp_all
  then show ?case using good_next [OF t(2)] stays_active [OF t(2)] decreases [OF t(2)] by simp
qed

end

end
