(* ===== verification/Go_Strings.thy ===== *)
theory Go_Strings
  imports Prelude
begin

text \<open>
  The string functions of Go's standard library that the program calls: UTF-8 decoding as
  \<open>unicode/utf8\<close> does it, \<open>strings.TrimSpace\<close>, \<open>strings.ToLower\<close>, \<open>strings.Trim\<close>,
  \<open>strings.Contains\<close> and their kin. The Unicode lower-case table is not modelled: the
  functions that need it for a string with bytes above 127 take it as an argument
  \<open>uni\<close>; on ASCII strings, which take Go's fast path, \<open>to_lower\<close> is the whole code.
\<close>

section \<open>UTF-8\<close>

definition rune_error :: nat where
  "rune_error = 65533"

definition cont_in :: "nat \<Rightarrow> nat \<Rightarrow> char \<Rightarrow> bool" where
  "cont_in lo hi c \<longleftrightarrow> lo \<le> byte_val c \<and> byte_val c \<le> hi"

text \<open>
  \<open>utf8.DecodeRuneInString\<close>: the code point at the front and its width in bytes. An invalid
  sequence is the pair of \<open>RuneError\<close> and width 1, as in Go's acceptance table.
\<close>

definition decode2 :: "nat \<Rightarrow> string \<Rightarrow> nat \<times> nat" where
  "decode2 b0 t =
     (case t of
        c1 # _ \<Rightarrow> if cont_in 128 191 c1 then ((b0 - 192) * 64 + (byte_val c1 - 128), 2)
                   else (rune_error, 1)
      | [] \<Rightarrow> (rune_error, 1))"

definition decode3 :: "nat \<Rightarrow> string \<Rightarrow> nat \<times> nat" where
  "decode3 b0 t =
     (case t of
        c1 # c2 # _ \<Rightarrow>
          if cont_in (if b0 = 224 then 160 else 128) (if b0 = 237 then 159 else 191) c1
             \<and> cont_in 128 191 c2
          then ((b0 - 224) * 4096 + (byte_val c1 - 128) * 64 + (byte_val c2 - 128), 3)
          else (rune_error, 1)
      | _ \<Rightarrow> (rune_error, 1))"

definition decode4 :: "nat \<Rightarrow> string \<Rightarrow> nat \<times> nat" where
  "decode4 b0 t =
     (case t of
        c1 # c2 # c3 # _ \<Rightarrow>
          if cont_in (if b0 = 240 then 144 else 128) (if b0 = 244 then 143 else 191) c1
             \<and> cont_in 128 191 c2 \<and> cont_in 128 191 c3
          then ((b0 - 240) * 262144 + (byte_val c1 - 128) * 4096
                + (byte_val c2 - 128) * 64 + (byte_val c3 - 128), 4)
          else (rune_error, 1)
      | _ \<Rightarrow> (rune_error, 1))"

definition decode_rune :: "char \<Rightarrow> string \<Rightarrow> nat \<times> nat" where
  "decode_rune c t =
     (let b0 = byte_val c in
      if b0 < 128 then (b0, 1)
      else if b0 < 194 then (rune_error, 1)
      else if b0 < 224 then decode2 b0 t
      else if b0 < 240 then decode3 b0 t
      else if b0 < 245 then decode4 b0 t
      else (rune_error, 1))"

text \<open>
  \<open>for _, r := range s\<close>: the code points of a string in order, each with the bytes it was
  read from.
\<close>

fun runes :: "string \<Rightarrow> (nat \<times> string) list" where
  "runes [] = []"
| "runes (c # t) =
     (case decode_rune c t of (r, w) \<Rightarrow> (r, c # take (w - 1) t) # runes (drop (w - 1) t))"

declare runes.simps(2) [simp del]

definition rune_values :: "string \<Rightarrow> nat list" where
  "rune_values s = map fst (runes s)"

definition rune_bytes :: "(nat \<times> string) list \<Rightarrow> string" where
  "rune_bytes rs = concat (map snd rs)"

lemma rune_bytes_simps [simp]:
  "rune_bytes [] = []" "rune_bytes (p # ps) = snd p @ rune_bytes ps"
  "rune_bytes (ps @ qs) = rune_bytes ps @ rune_bytes qs"
  by (simp_all add: rune_bytes_def)

lemma rune_bytes_runes [simp]: "rune_bytes (runes s) = s"
  by (induction s rule: runes.induct) (auto simp: runes.simps(2) split: prod.splits)

definition ascii :: "string \<Rightarrow> bool" where
  "ascii s \<longleftrightarrow> (\<forall>c \<in> set s. byte_val c < 128)"

lemma ascii_simps [simp]:
  "ascii []" "ascii (c # s) \<longleftrightarrow> byte_val c < 128 \<and> ascii s"
  "ascii (s @ t) \<longleftrightarrow> ascii s \<and> ascii t"
  by (auto simp: ascii_def)

lemma ascii_subset: "ascii t \<Longrightarrow> set s \<subseteq> set t \<Longrightarrow> ascii s"
  by (auto simp: ascii_def)

lemma decode_rune_ascii [simp]: "byte_val c < 128 \<Longrightarrow> decode_rune c t = (byte_val c, 1)"
  by (simp add: decode_rune_def Let_def)

lemma runes_ascii: "ascii s \<Longrightarrow> runes s = map (\<lambda>c. (byte_val c, [c])) s"
  by (induction s) (auto simp: runes.simps(2))

text \<open>
  A code point below 128 comes from exactly one byte with that value, and the bytes of any
  other code point are all 128 or more: no ASCII byte hides inside a sequence.
\<close>

lemmas decode_simps = decode2_def decode3_def decode4_def cont_in_def rune_error_def

lemma decode_rune_small:
  assumes "decode_rune c t = (r, w)"
  shows "r < 128 \<Longrightarrow> w = 1 \<and> r = byte_val c"
    and "128 \<le> byte_val c \<Longrightarrow> 128 \<le> r \<and> (\<forall>d \<in> set (take (w - 1) t). 128 \<le> byte_val d)"
  using assms
  by (auto simp: decode_rune_def decode_simps Let_def split: if_splits list.splits)

lemma rune_in_range:
  assumes "n < 128"
  shows "n \<in> set (rune_values s) \<longleftrightarrow> (\<exists>c \<in> set s. byte_val c = n)"
proof (induction s rule: runes.induct)
  case (2 c t)
  obtain r w where d: "decode_rune c t = (r, w)" by (cases "decode_rune c t")
  have IH: "n \<in> set (rune_values (drop (w - 1) t)) \<longleftrightarrow> (\<exists>d \<in> set (drop (w - 1) t). byte_val d = n)"
    using 2 d by simp
  have t: "set t = set (take (w - 1) t) \<union> set (drop (w - 1) t)"
    by (metis append_take_drop_id set_append)
  show ?case
  proof (cases "byte_val c < 128")
    case True
    then have "r = byte_val c" "w = 1" using d by auto
    then show ?thesis using d IH
      by (auto simp: rune_values_def runes.simps(2))
  next
    case False
    then have big: "128 \<le> r" "\<forall>d \<in> set (take (w - 1) t). 128 \<le> byte_val d"
      using decode_rune_small(2) [OF d] by auto
    have "n \<in> set (rune_values (c # t)) \<longleftrightarrow> n \<in> set (rune_values (drop (w - 1) t))"
      using d big assms by (auto simp: rune_values_def runes.simps(2))
    also have "\<dots> \<longleftrightarrow> (\<exists>d \<in> set (c # t). byte_val d = n)"
      unfolding IH using t big False assms by fastforce
    finally show ?thesis .
  qed
qed (simp add: rune_values_def)

section \<open>Trimming\<close>

text \<open>\<open>unicode.IsSpace\<close>.\<close>

definition is_space :: "nat \<Rightarrow> bool" where
  "is_space r \<longleftrightarrow> r \<in> {9, 10, 11, 12, 13, 32, 133, 160, 5760, 8232, 8233, 8239, 8287, 12288}
                  \<or> (8192 \<le> r \<and> r \<le> 8202)"

text \<open>
  \<open>strings.TrimSpace\<close>. Go reads the code points at the end backwards; a white-space code
  point is a complete UTF-8 sequence whose first byte is never a continuation byte, so reading
  forwards splits the string at the same places.
\<close>

definition trim_space :: "string \<Rightarrow> string" where
  "trim_space s =
     (let sp = (\<lambda>p. is_space (fst p)) in
      rune_bytes (rev (dropWhile sp (rev (dropWhile sp (runes s))))))"

definition space_byte :: "char \<Rightarrow> bool" where
  "space_byte c \<longleftrightarrow> is_space (byte_val c)"

definition trim_both :: "('a \<Rightarrow> bool) \<Rightarrow> 'a list \<Rightarrow> 'a list" where
  "trim_both p s = rev (dropWhile p (rev (dropWhile p s)))"

lemma trim_both_map: "trim_both p (map f s) = map f (trim_both (p \<circ> f) s)"
  by (simp add: trim_both_def dropWhile_map rev_map)

lemma set_trim_both: "set (trim_both p s) \<subseteq> set s"
  by (auto simp: trim_both_def dest!: set_dropWhileD)

lemma trim_both_id:
  "(s = [] \<or> (\<not> p (hd s) \<and> \<not> p (last s))) \<Longrightarrow> trim_both p s = s"
proof (cases s rule: rev_cases)
  case (snoc ys y)
  assume "s = [] \<or> (\<not> p (hd s) \<and> \<not> p (last s))"
  with snoc have "\<not> p (hd s)" "\<not> p y" by auto
  then have "dropWhile p s = s" by (cases s) auto
  then show ?thesis using snoc \<open>\<not> p y\<close> by (simp add: trim_both_def)
qed (simp add: trim_both_def)

lemma trim_both_ends:
  assumes "trim_both p s \<noteq> []"
  shows "\<not> p (hd (trim_both p s))" "\<not> p (last (trim_both p s))"
proof -
  let ?d = "dropWhile p s" and ?r = "dropWhile p (rev (dropWhile p s))"
  have r: "?r \<noteq> []" using assms by (simp add: trim_both_def)
  then show "\<not> p (last (trim_both p s))"
    using hd_dropWhile [OF r] by (simp add: trim_both_def last_rev)
  have d: "?d \<noteq> []" using r by (metis dropWhile.simps(1) rev.simps(1))
  have "rev ?d = takeWhile p (rev ?d) @ ?r" by simp
  then have "?d = rev ?r @ rev (takeWhile p (rev ?d))"
    by (metis rev_append rev_rev_ident)
  then have "hd ?d = hd (rev ?r)" using r by (metis hd_append2 rev_is_Nil_conv)
  then show "\<not> p (hd (trim_both p s))"
    using hd_dropWhile [OF d] by (simp add: trim_both_def)
qed

lemma trim_both_idem [simp]: "trim_both p (trim_both p s) = trim_both p s"
  by (rule trim_both_id) (use trim_both_ends in blast)

lemma trim_space_ascii: "ascii s \<Longrightarrow> trim_space s = trim_both space_byte s"
proof -
  assume "ascii s"
  have b: "rune_bytes (map (\<lambda>c. (byte_val c, [c])) xs) = xs" for xs :: string
    by (induction xs) auto
  have "trim_space s = rune_bytes (trim_both (\<lambda>p. is_space (fst p)) (map (\<lambda>c. (byte_val c, [c])) s))"
    using \<open>ascii s\<close> by (simp add: trim_space_def trim_both_def Let_def runes_ascii)
  then show ?thesis
    by (simp add: trim_both_map b comp_def space_byte_def [abs_def])
qed

lemma trim_space_Nil [simp]: "trim_space [] = []"
  by (simp add: trim_space_def)

lemma trim_space_idem_ascii: "ascii s \<Longrightarrow> trim_space (trim_space s) = trim_space s"
  by (metis ascii_subset set_trim_both trim_both_idem trim_space_ascii)

lemma trim_space_ascii_id:
  "ascii s \<Longrightarrow> s = [] \<or> (\<not> space_byte (hd s) \<and> \<not> space_byte (last s)) \<Longrightarrow> trim_space s = s"
  by (simp add: trim_space_ascii trim_both_id)

text \<open>\<open>strings.Trim(s, cutset)\<close> for an ASCII cutset.\<close>

definition trim_set :: "string \<Rightarrow> string \<Rightarrow> string" where
  "trim_set cs s = trim_both (\<lambda>c. c \<in> set cs) s"

section \<open>Case\<close>

definition is_upper :: "char \<Rightarrow> bool" where
  "is_upper c \<longleftrightarrow> 65 \<le> byte_val c \<and> byte_val c \<le> 90"

definition is_lower :: "char \<Rightarrow> bool" where
  "is_lower c \<longleftrightarrow> 97 \<le> byte_val c \<and> byte_val c \<le> 122"

definition is_digit :: "char \<Rightarrow> bool" where
  "is_digit c \<longleftrightarrow> 48 \<le> byte_val c \<and> byte_val c \<le> 57"

definition lower_byte :: "char \<Rightarrow> char" where
  "lower_byte c = (if is_upper c then char_of (byte_val c + 32) else c)"

definition upper_byte :: "char \<Rightarrow> char" where
  "upper_byte c = (if is_lower c then char_of (byte_val c - 32) else c)"

text \<open>
  \<open>strings.ToLower\<close>: bytewise on ASCII strings, otherwise the Unicode table \<open>uni\<close> (Go's
  \<open>strings.Map(unicode.ToLower, s)\<close>).
\<close>

definition to_lower :: "(string \<Rightarrow> string) \<Rightarrow> string \<Rightarrow> string" where
  "to_lower uni s = (if ascii s then map lower_byte s else uni s)"

lemma byte_val_lower: "byte_val (lower_byte c) = (if is_upper c then byte_val c + 32 else byte_val c)"
  by (simp add: lower_byte_def is_upper_def)

lemma lower_byte_idem [simp]: "lower_byte (lower_byte c) = lower_byte c"
  using byte_val_lower [of c] by (auto simp: lower_byte_def is_upper_def)

lemma lower_byte_ascii: "byte_val (lower_byte c) < 128 \<longleftrightarrow> byte_val c < 128"
  by (auto simp: byte_val_lower is_upper_def)

lemma ascii_lower [simp]: "ascii (map lower_byte s) \<longleftrightarrow> ascii s"
  by (induction s) (auto simp: lower_byte_ascii)

lemma to_lower_ascii: "ascii s \<Longrightarrow> to_lower uni s = map lower_byte s"
  by (simp add: to_lower_def)

lemma to_lower_idem: "ascii s \<Longrightarrow> to_lower uni (to_lower uni s) = to_lower uni s"
  by (simp add: to_lower_def)

lemma lower_byte_not_upper: "\<not> is_upper c \<Longrightarrow> lower_byte c = c"
  by (simp add: lower_byte_def)

lemma map_lower_id: "(\<forall>c \<in> set s. \<not> is_upper c) \<Longrightarrow> map lower_byte s = s"
  by (induction s) (auto simp: lower_byte_not_upper)

lemma lower_byte_eq_iff_special:
  assumes "\<not> is_lower d" "\<not> is_upper d"
  shows "lower_byte c = d \<longleftrightarrow> c = d"
proof -
  have "is_lower (lower_byte c)" if "is_upper c"
    using that by (simp add: is_lower_def byte_val_lower) (simp add: is_upper_def)
  then show ?thesis using assms by (auto simp: lower_byte_def split: if_splits)
qed

lemma trim_space_surround:
  assumes "list_all space_byte a" "list_all space_byte b" "ascii (a @ m @ b)" "m \<noteq> []"
    and "\<not> space_byte (hd m)" "\<not> space_byte (last m)"
  shows "trim_space (a @ m @ b) = m"
proof -
  have drop: "dropWhile space_byte (ps @ xs) = xs" if "list_all space_byte ps" "xs \<noteq> [] \<and> \<not> space_byte (hd xs)" for ps xs
    using that by (cases xs) (auto simp: dropWhile_append list_all_iff)
  have "dropWhile space_byte (a @ m @ b) = m @ b"
    by (rule drop) (use assms in auto)
  moreover have "dropWhile space_byte (rev b @ rev m) = rev m"
    by (rule drop) (use assms in \<open>auto simp: list_all_iff hd_rev\<close>)
  ultimately show ?thesis by (simp add: trim_space_ascii [OF assms(3)] trim_both_def)
qed

text \<open>\<open>%d\<close> of a non-negative number.\<close>

fun decimal :: "nat \<Rightarrow> string" where
  "decimal n = (if n < 10 then [char_of (48 + n)] else decimal (n div 10) @ [char_of (48 + n mod 10)])"

declare decimal.simps [simp del]

end
