(* ===== verification/Encodings.thy ===== *)
theory Encodings
  imports Go_Strings
begin

text \<open>
  The byte encodings of Go's standard library that the program's formats rest on:
  \<open>encoding/hex\<close> (keys, the EUID) and \<open>encoding/base64.StdEncoding\<close> (sealed blobs, bearer
  digests, Basic credentials). Both are executable and both are instances of the interface
  \<open>codec\<close> below; the decoders keep Go's leniencies (upper-case hex digits, line breaks and
  non-zero trailing bits in base64).
\<close>

section \<open>The interface of an encoder and its decoder\<close>

locale codec =
  fixes enc :: "'a \<Rightarrow> string"
    and dec :: "string \<Rightarrow> 'a option"
    and valid :: "'a \<Rightarrow> bool"
  assumes dec_enc: "valid a \<Longrightarrow> dec (enc a) = Some a"
begin

lemma enc_inj: "valid a \<Longrightarrow> valid b \<Longrightarrow> enc a = enc b \<longleftrightarrow> a = b"
  using dec_enc by (metis option.inject)

lemma dec_fails_not_enc: "dec s = None \<Longrightarrow> valid a \<Longrightarrow> s \<noteq> enc a"
  using dec_enc by auto

end

text \<open>
  A reader that cleans up its input before it decodes, with a clean-up that leaves an encoder's
  output alone. Such a reader is again the decoder of a codec.
\<close>

locale clean_codec = codec +
  fixes clean :: "string \<Rightarrow> string"
    and read :: "string \<Rightarrow> 'a option"
  assumes clean_enc: "valid a \<Longrightarrow> clean (enc a) = enc a"
    and read_eq: "read s = dec (clean s)"
begin

lemma read_surround: "valid a \<Longrightarrow> clean s = enc a \<Longrightarrow> read s = Some a"
  by (simp add: read_eq dec_enc)

end

sublocale clean_codec \<subseteq> cleaned: codec enc read valid
  by unfold_locales (simp add: read_eq clean_enc dec_enc)

section \<open>Hexadecimal\<close>

definition hex_digit :: "nat \<Rightarrow> char" where
  "hex_digit n = char_of (if n < 10 then 48 + n else 87 + n)"

definition unhex_digit :: "char \<Rightarrow> nat option" where
  "unhex_digit c =
     (let b = byte_val c in
      if 48 \<le> b \<and> b \<le> 57 then Some (b - 48)
      else if 97 \<le> b \<and> b \<le> 102 then Some (b - 87)
      else if 65 \<le> b \<and> b \<le> 70 then Some (b - 55)
      else None)"

text \<open>\<open>hex.EncodeToString\<close>.\<close>

fun hex_encode :: "bytes \<Rightarrow> string" where
  "hex_encode [] = []"
| "hex_encode (c # s) = hex_digit (byte_val c div 16) # hex_digit (byte_val c mod 16) # hex_encode s"

datatype hex_error = InvalidByteError char | ErrLength

text \<open>\<open>hex.DecodeString\<close>: the first bad digit is reported before an odd length.\<close>

fun hex_decode :: "string \<Rightarrow> hex_error + bytes" where
  "hex_decode [] = Inr []"
| "hex_decode [p] = (case unhex_digit p of None \<Rightarrow> Inl (InvalidByteError p) | Some _ \<Rightarrow> Inl ErrLength)"
| "hex_decode (p # q # s) =
     (case unhex_digit p of
        None \<Rightarrow> Inl (InvalidByteError p)
      | Some a \<Rightarrow>
         (case unhex_digit q of
            None \<Rightarrow> Inl (InvalidByteError q)
          | Some b \<Rightarrow>
             (case hex_decode s of Inl e \<Rightarrow> Inl e | Inr r \<Rightarrow> Inr (char_of (a * 16 + b) # r))))"

lemma unhex_hex_digit [simp]: "n < 16 \<Longrightarrow> unhex_digit (hex_digit n) = Some n"
  by (auto simp: unhex_digit_def hex_digit_def Let_def)

lemma hex_digit_ascii: "n < 16 \<Longrightarrow> byte_val (hex_digit n) < 128 \<and> \<not> space_byte (hex_digit n)"
  by (auto simp: hex_digit_def space_byte_def is_space_def)

lemma unhex_digit_less: "unhex_digit c = Some n \<Longrightarrow> n < 16"
  by (auto simp: unhex_digit_def Let_def split: if_splits)

lemma hex_decode_encode [simp]: "hex_decode (hex_encode s) = Inr s"
proof (induction s)
  case (Cons c s)
  have "byte_val c div 16 < 16" using byte_val_less [of c] by (simp add: div_less_iff_less_mult)
  then show ?case using Cons by simp
qed simp

lemma length_hex_encode [simp]: "length (hex_encode s) = 2 * length s"
  by (induction s) auto

lemma hex_encode_chars:
  "c \<in> set (hex_encode s) \<Longrightarrow> byte_val c < 128 \<and> \<not> space_byte c"
proof (induction s)
  case (Cons d s)
  have "byte_val d div 16 < 16" "byte_val d mod 16 < 16"
    using byte_val_less [of d] by (auto simp: div_less_iff_less_mult)
  then show ?case using Cons hex_digit_ascii by auto
qed simp

lemma ascii_hex_encode [simp]: "ascii (hex_encode s)"
  using hex_encode_chars by (auto simp: ascii_def)

lemma trim_space_hex_encode [simp]: "trim_space (hex_encode s) = hex_encode s"
  by (rule trim_space_ascii_id)
    (use hex_encode_chars [of _ s] in \<open>auto intro: hd_in_set last_in_set\<close>)

lemma hex_encode_Nil_iff [simp]: "hex_encode s = [] \<longleftrightarrow> s = []"
  by (cases s) auto

lemma hex_decode_length: "hex_decode s = Inr r \<Longrightarrow> length s = 2 * length r"
  by (induction s arbitrary: r rule: hex_decode.induct) (auto split: option.splits sum.splits)

definition hex_decode_opt :: "string \<Rightarrow> bytes option" where
  "hex_decode_opt s = (case hex_decode s of Inl _ \<Rightarrow> None | Inr r \<Rightarrow> Some r)"

interpretation hex: codec hex_encode hex_decode_opt "\<lambda>_. True"
  by unfold_locales (simp add: hex_decode_opt_def)

section \<open>Base64\<close>

definition b64_char :: "nat \<Rightarrow> char" where
  "b64_char n =
     (if n < 26 then char_of (65 + n) else if n < 52 then char_of (71 + n)
      else if n < 62 then char_of (n - 4) else if n = 62 then CHR ''+'' else CHR ''/'')"

definition b64_val :: "char \<Rightarrow> nat option" where
  "b64_val c =
     (let b = byte_val c in
      if 65 \<le> b \<and> b \<le> 90 then Some (b - 65)
      else if 97 \<le> b \<and> b \<le> 122 then Some (b - 71)
      else if 48 \<le> b \<and> b \<le> 57 then Some (b + 4)
      else if c = CHR ''+'' then Some 62
      else if c = CHR ''/'' then Some 63
      else None)"

definition pad :: char where
  "pad = CHR ''=''"

fun b64_encode :: "bytes \<Rightarrow> string" where
  "b64_encode [] = []"
| "b64_encode [a] =
     [b64_char (byte_val a div 4), b64_char (byte_val a mod 4 * 16), pad, pad]"
| "b64_encode [a, b] =
     [b64_char (byte_val a div 4), b64_char (byte_val a mod 4 * 16 + byte_val b div 16),
      b64_char (byte_val b mod 16 * 4), pad]"
| "b64_encode (a # b # c # s) =
     b64_char (byte_val a div 4) # b64_char (byte_val a mod 4 * 16 + byte_val b div 16)
     # b64_char (byte_val b mod 16 * 4 + byte_val c div 64) # b64_char (byte_val c mod 64)
     # b64_encode s"

text \<open>
  \<open>StdEncoding.DecodeString\<close>: line breaks are dropped wherever they stand; a quantum is four
  digits, or ends in one or two pads with nothing after them. Trailing bits of a padded quantum
  are ignored (the encoding is not \<open>Strict\<close>).
\<close>

definition byte_of :: "nat \<Rightarrow> char" where
  "byte_of n = char_of n"

definition b64_quad :: "nat \<Rightarrow> nat \<Rightarrow> nat \<Rightarrow> nat \<Rightarrow> bytes" where
  "b64_quad w x y z = [byte_of (w * 4 + x div 16), byte_of (x mod 16 * 16 + y div 4), byte_of (y mod 4 * 64 + z)]"

fun b64_decode_raw :: "string \<Rightarrow> bytes option" where
  "b64_decode_raw [] = Some []"
| "b64_decode_raw (p # q # r # t # s) =
     (case (b64_val p, b64_val q) of
        (Some w, Some x) \<Rightarrow>
         (case b64_val r of
            Some y \<Rightarrow>
             (case b64_val t of
                Some z \<Rightarrow> map_option ((@) (b64_quad w x y z)) (b64_decode_raw s)
              | None \<Rightarrow> if t = pad \<and> s = [] then Some (take 2 (b64_quad w x y 0)) else None)
          | None \<Rightarrow> if r = pad \<and> t = pad \<and> s = [] then Some (take 1 (b64_quad w x 0 0)) else None)
      | _ \<Rightarrow> None)"
| "b64_decode_raw _ = None"

definition line_break :: "char \<Rightarrow> bool" where
  "line_break c \<longleftrightarrow> byte_val c = 10 \<or> byte_val c = 13"

definition b64_decode :: "string \<Rightarrow> bytes option" where
  "b64_decode s = b64_decode_raw (filter (\<lambda>c. \<not> line_break c) s)"

lemma b64_val_char [simp]: "n < 64 \<Longrightarrow> b64_val (b64_char n) = Some n"
proof -
  have plus: "byte_val (CHR ''+'') = 43" and slash: "byte_val (CHR ''/'') = 47" by simp_all
  assume "n < 64"
  then consider "n < 26" | "26 \<le> n" "n < 52" | "52 \<le> n" "n < 62" | "n = 62" | "n = 63" by linarith
  then show ?thesis
    by cases (auto simp: b64_val_def b64_char_def Let_def)
qed

lemma b64_val_pad [simp]: "b64_val pad = None"
  by (simp add: b64_val_def pad_def)

lemma b64_val_class: "b64_val c = Some n \<Longrightarrow> \<not> line_break c \<and> byte_val c < 128 \<and> \<not> space_byte c"
  by (auto simp: b64_val_def line_break_def space_byte_def is_space_def Let_def split: if_splits)

lemma sextets:
  fixes a b c :: nat
  assumes "a < 256" "b < 256" "c < 256"
  shows "a div 4 < 64" "a mod 4 * 16 < 64" "a mod 4 * 16 + b div 16 < 64" "b mod 16 * 4 < 64"
    "b mod 16 * 4 + c div 64 < 64" "c mod 64 < 64"
  using assms by auto

lemma b64_quad_sextets:
  assumes "b < 256" "c < 256"
  shows "b64_quad (a div 4) (a mod 4 * 16 + b div 16) (b mod 16 * 4 + c div 64) (c mod 64)
         = [byte_of a, byte_of b, byte_of c]"
proof -
  have "b div 16 < 16" "c div 64 < 4" using assms by (auto simp: div_less_iff_less_mult)
  then have "(a mod 4 * 16 + b div 16) div 16 = a mod 4"
    "(a mod 4 * 16 + b div 16) mod 16 = b div 16"
    "(b mod 16 * 4 + c div 64) div 4 = b mod 16"
    "(b mod 16 * 4 + c div 64) mod 4 = c div 64"
    by simp_all
  then show ?thesis by (simp add: b64_quad_def)
qed

lemma byte_of_byte_val [simp]: "byte_of (byte_val c) = c"
  by (simp add: byte_of_def)

lemma b64_decode_raw_encode: "b64_decode_raw (b64_encode s) = Some s"
proof (induction s rule: b64_encode.induct)
  case (2 a)
  show ?case using sextets [of "byte_val a" 0 0] b64_quad_sextets [of 0 0 "byte_val a"] by simp
next
  case (3 a b)
  show ?case using sextets [of "byte_val a" "byte_val b" 0] b64_quad_sextets [of "byte_val b" 0 "byte_val a"]
    by simp
next
  case (4 a b c s)
  then show ?case using sextets [of "byte_val a" "byte_val b" "byte_val c"] b64_quad_sextets [of "byte_val b" "byte_val c" "byte_val a"]
    by simp
qed simp

lemma b64_encode_set: "set (b64_encode s) \<subseteq> insert pad (b64_char ` {..<64})"
proof (induction s rule: b64_encode.induct)
  case (2 a)
  show ?case using sextets [of "byte_val a" 0 0] by (simp add: image_eqI [OF refl])
next
  case (3 a b)
  show ?case using sextets [of "byte_val a" "byte_val b" 0] by (simp add: image_eqI [OF refl])
next
  case (4 a b c s)
  then show ?case using sextets [of "byte_val a" "byte_val b" "byte_val c"]
    by (simp add: image_eqI [OF refl])
qed simp

lemma b64_encode_chars:
  "x \<in> set (b64_encode s) \<Longrightarrow> x = pad \<or> (\<exists>n < 64. x = b64_char n)"
  using b64_encode_set [of s] by auto

lemma b64_encode_class:
  assumes "x \<in> set (b64_encode s)"
  shows "\<not> line_break x \<and> byte_val x < 128 \<and> \<not> space_byte x"
proof -
  have "\<not> line_break pad \<and> byte_val pad < 128 \<and> \<not> space_byte pad"
    by (simp add: pad_def line_break_def space_byte_def is_space_def)
  then show ?thesis using b64_encode_chars [OF assms] b64_val_class b64_val_char by metis
qed

lemma b64_decode_encode [simp]: "b64_decode (b64_encode s) = Some s"
proof -
  have "filter (\<lambda>c. \<not> line_break c) (b64_encode s) = b64_encode s"
    using b64_encode_class by (simp add: filter_id_conv)
  then show ?thesis by (simp add: b64_decode_def b64_decode_raw_encode)
qed

lemma ascii_b64_encode [simp]: "ascii (b64_encode s)"
  using b64_encode_class by (auto simp: ascii_def)

lemma trim_space_b64_encode [simp]: "trim_space (b64_encode s) = b64_encode s"
  by (rule trim_space_ascii_id)
    (use b64_encode_class [of _ s] in \<open>auto intro: hd_in_set last_in_set\<close>)

lemma b64_encode_Nil_iff [simp]: "b64_encode s = [] \<longleftrightarrow> s = []"
  by (cases s rule: b64_encode.cases) auto

lemma semicolon_not_b64: "CHR '';'' \<notin> set (b64_encode s)"
proof
  assume "CHR '';'' \<in> set (b64_encode s)"
  then have "CHR '';'' = pad \<or> (\<exists>n < 64. CHR '';'' = b64_char n)" by (rule b64_encode_chars)
  then show False
  proof
    assume "\<exists>n < 64. CHR '';'' = b64_char n"
    then obtain n where "n < 64" "CHR '';'' = b64_char n" by blast
    then have "b64_val (CHR '';'') = Some n" by simp
    then show False by (simp add: b64_val_def)
  qed (simp add: pad_def)
qed

interpretation b64: codec b64_encode b64_decode "\<lambda>_. True"
  by unfold_locales simp

end
