(* ===== verification/Go_Net.thy ===== *)
theory Go_Net
  imports Encodings "HOL-Library.Word"
begin

unbundle bit_operations_syntax

text \<open>
  What the program uses of Go's \<open>net\<close> and \<open>net/netip\<close>: host and port splitting and
  joining, addresses, CIDR prefixes with their membership test, the parsers of both, and the
  predicates of \<open>net.IP\<close>. An address is a 32-bit or a 128-bit word, kept at its width; an
  IPv6 address carries its zone.
\<close>

section \<open>Host and port\<close>

datatype split_error =
  MissingPort | TooManyColons | MissingBracket | UnexpectedOpen | UnexpectedClose

definition split_checked :: "string \<Rightarrow> string \<Rightarrow> string \<Rightarrow> string \<Rightarrow> split_error + (string \<times> string)" where
  "split_checked host rest_j rest_k port =
     (if CHR ''['' \<in> set rest_j then Inl UnexpectedOpen
      else if CHR '']'' \<in> set rest_k then Inl UnexpectedClose
      else Inr (host, port))"

text \<open>\<open>net.SplitHostPort\<close>.\<close>

definition split_host_port :: "string \<Rightarrow> split_error + (string \<times> string)" where
  "split_host_port hp =
     (case last_index_byte (CHR '':'') hp of
        None \<Rightarrow> Inl MissingPort
      | Some i \<Rightarrow>
          if hd hp = CHR ''['' then
            (case index_byte (CHR '']'') hp of
               None \<Rightarrow> Inl MissingBracket
             | Some e \<Rightarrow>
                 if Suc e = length hp then Inl MissingPort
                 else if Suc e = i then
                   split_checked (take (e - 1) (drop 1 hp)) (drop 1 hp) (drop (Suc e) hp) (drop (Suc i) hp)
                 else if hp ! Suc e = CHR '':'' then Inl TooManyColons
                 else Inl MissingPort)
          else if CHR '':'' \<in> set (take i hp) then Inl TooManyColons
          else split_checked (take i hp) hp hp (drop (Suc i) hp))"

text \<open>\<open>net.JoinHostPort\<close>.\<close>

definition join_host_port :: "string \<Rightarrow> string \<Rightarrow> string" where
  "join_host_port h p =
     (if CHR '':'' \<in> set h then ''['' @ h @ '']:'' @ p else h @ '':'' @ p)"

definition bracket_free :: "string \<Rightarrow> bool" where
  "bracket_free s \<longleftrightarrow> CHR ''['' \<notin> set s \<and> CHR '']'' \<notin> set s"

lemma bracket_free_simps [simp]:
  "bracket_free []" "bracket_free (c # s) \<longleftrightarrow> c \<noteq> CHR ''['' \<and> c \<noteq> CHR '']'' \<and> bracket_free s"
  "bracket_free (s @ t) \<longleftrightarrow> bracket_free s \<and> bracket_free t"
  by (auto simp: bracket_free_def)

lemma split_host_port_no_colon: "CHR '':'' \<notin> set hp \<Longrightarrow> split_host_port hp = Inl MissingPort"
proof -
  assume "CHR '':'' \<notin> set hp"
  then have "last_index_byte (CHR '':'') hp = None" by simp
  then show ?thesis by (simp only: split_host_port_def option.case)
qed

lemma split_host_port_plain:
  assumes "CHR '':'' \<notin> set h" "CHR '':'' \<notin> set p" "bracket_free h" "bracket_free p"
  shows "split_host_port (h @ CHR '':'' # p) = Inr (h, p)"
proof -
  have "last_index_byte (CHR '':'') (h @ CHR '':'' # p) = Some (length h)"
    by (rule last_index_byte_fresh) (fact assms)
  moreover have "hd (h @ CHR '':'' # p) \<noteq> CHR ''[''"
    using assms(3) by (cases h) auto
  ultimately show ?thesis
    using assms by (simp add: split_host_port_def split_checked_def bracket_free_def)
qed

lemma split_host_port_bracketed:
  assumes "CHR '':'' \<notin> set p" "bracket_free h" "bracket_free p"
  shows "split_host_port (''['' @ h @ '']:'' @ p) = Inr (h, p)"
proof -
  let ?hp = "CHR ''['' # h @ CHR '']'' # CHR '':'' # p"
  have i: "last_index_byte (CHR '':'') ?hp = Some (length h + 2)"
    using last_index_byte_fresh [of "CHR '':''" p "CHR ''['' # h @ [CHR '']'']"] assms(1) by simp
  have e: "index_byte (CHR '']'') ?hp = Some (Suc (length h))"
    using index_byte_fresh [of "CHR '']''" "CHR ''['' # h" "CHR '':'' # p"] assms(2)
    by (simp add: bracket_free_def)
  show ?thesis
    using i e assms by (simp add: split_host_port_def split_checked_def bracket_free_def)
qed

lemma split_checked_Inr [simp]:
  "split_checked h j k p = Inr r \<longleftrightarrow> CHR ''['' \<notin> set j \<and> CHR '']'' \<notin> set k \<and> r = (h, p)"
  by (auto simp: split_checked_def)

text \<open>What a successful split says about its input.\<close>

lemma split_host_port_InrD:
  assumes "split_host_port hp = Inr (h, p)"
  shows "CHR '':'' \<notin> set p \<and> bracket_free p \<and> CHR ''['' \<notin> set h \<and>
     (hp = h @ CHR '':'' # p \<and> CHR '':'' \<notin> set h \<and> bracket_free h \<or> hp = ''['' @ h @ '']:'' @ p)"
proof -
  obtain i where i: "last_index_byte (CHR '':'') hp = Some i"
    using assms by (auto simp: split_host_port_def split: option.splits)
  have il: "i < length hp" and hp: "hp = take i hp @ CHR '':'' # drop (Suc i) hp"
    and fr: "CHR '':'' \<notin> set (drop (Suc i) hp)"
    using last_index_byte_SomeD [OF i] by auto
  show ?thesis
  proof (cases "hd hp = CHR ''[''")
    case False
    then have "h = take i hp" "p = drop (Suc i) hp" "CHR ''['' \<notin> set hp" "CHR '']'' \<notin> set hp"
      "CHR '':'' \<notin> set (take i hp)"
      using assms i by (auto simp: split_host_port_def split: if_splits)
    then show ?thesis using hp fr
      by (metis (no_types, lifting) bracket_free_def in_set_dropD in_set_takeD)
  next
    case True
    then obtain e where e: "index_byte (CHR '']'') hp = Some e" and ei: "Suc e = i"
      and h: "h = take (e - 1) (drop 1 hp)" and p: "p = drop (Suc i) hp"
      and no: "CHR ''['' \<notin> set (drop 1 hp)" "CHR '']'' \<notin> set (drop (Suc e) hp)"
      using assms i by (auto simp: split_host_port_def split: option.splits if_splits)
    have el: "hp ! e = CHR '']''" using index_byte_SomeD [OF e] by auto
    then have "e \<noteq> 0" using True il by (cases hp; cases e) auto
    have "take i hp = take e hp @ [CHR '']'']"
      using ei il el by (metis Suc_lessD take_Suc_conv_app_nth)
    moreover have "take e hp = CHR ''['' # h"
      using True h \<open>e \<noteq> 0\<close> il by (cases hp; cases e) auto
    ultimately have "hp = CHR ''['' # h @ CHR '']'' # CHR '':'' # p" using hp p by simp
    moreover have "set p \<subseteq> set (drop (Suc e) hp)" using p ei by (simp add: set_drop_subset_set_drop)
    moreover have "set (drop (Suc e) hp) \<subseteq> set (drop 1 hp)" by (simp add: set_drop_subset_set_drop)
    moreover have "set h \<subseteq> set (drop 1 hp)" using h by (simp add: set_take_subset)
    ultimately show ?thesis using fr no p by (auto simp: bracket_free_def)
  qed
qed

definition valid_host_port :: "string \<times> string \<Rightarrow> bool" where
  "valid_host_port hp \<longleftrightarrow> bracket_free (fst hp) \<and> bracket_free (snd hp) \<and> CHR '':'' \<notin> set (snd hp)"

definition split_host_port_opt :: "string \<Rightarrow> (string \<times> string) option" where
  "split_host_port_opt s = (case split_host_port s of Inl _ \<Rightarrow> None | Inr r \<Rightarrow> Some r)"

interpretation host_port: codec "\<lambda>(h, p). join_host_port h p" split_host_port_opt valid_host_port
proof
  fix hp assume "valid_host_port hp"
  then show "split_host_port_opt (case hp of (h, p) \<Rightarrow> join_host_port h p) = Some hp"
    using split_host_port_plain [of "fst hp" "snd hp"] split_host_port_bracketed [of "snd hp" "fst hp"]
    by (cases hp) (auto simp: valid_host_port_def join_host_port_def split_host_port_opt_def)
qed

section \<open>Addresses and prefixes\<close>

datatype addr = V4 "32 word" | V6 "128 word" string

fun is4 :: "addr \<Rightarrow> bool" where
  "is4 (V4 _) = True"
| "is4 (V6 _ _) = False"

fun is6 :: "addr \<Rightarrow> bool" where
  "is6 (V4 _) = False"
| "is6 (V6 _ _) = True"

fun is4in6 :: "addr \<Rightarrow> bool" where
  "is4in6 (V4 _) = False"
| "is4in6 (V6 w _) = (drop_bit 32 w = 65535)"

fun addr_zone :: "addr \<Rightarrow> string" where
  "addr_zone (V4 _) = []"
| "addr_zone (V6 _ z) = z"

fun unmap :: "addr \<Rightarrow> addr" where
  "unmap (V4 w) = V4 w"
| "unmap (V6 w z) = (if drop_bit 32 w = 65535 then V4 (ucast w) else V6 w z)"

fun without_zone :: "addr \<Rightarrow> addr" where
  "without_zone (V4 w) = V4 w"
| "without_zone (V6 w z) = V6 w []"

definition bit_len :: "addr \<Rightarrow> nat" where
  "bit_len a = (if is4 a then 32 else 128)"

lemma unmap_idem [simp]: "unmap (unmap a) = unmap a"
  by (cases a) auto

text \<open>A prefix: its address, and its length unless the prefix is invalid (Go's \<open>Prefix{}\<close>).\<close>

datatype prefix = Prefix (prefix_addr: addr) (prefix_bits: "nat option")

definition prefix_from :: "addr \<Rightarrow> nat \<Rightarrow> prefix" where
  "prefix_from a b = Prefix (without_zone a) (if b \<le> bit_len a then Some b else None)"

text \<open>\<open>mask6(n)\<close> and its 32-bit counterpart: the \<open>n\<close> high bits.\<close>

definition mask6 :: "nat \<Rightarrow> 128 word" where
  "mask6 n = NOT (mask (128 - n))"

definition mask4 :: "nat \<Rightarrow> 32 word" where
  "mask4 n = NOT (mask (32 - n))"

fun masked :: "prefix \<Rightarrow> prefix" where
  "masked (Prefix (V4 w) (Some b)) = Prefix (V4 (w AND mask4 b)) (Some b)"
| "masked (Prefix (V6 w z) (Some b)) = Prefix (V6 (w AND mask6 b) []) (Some b)"
| "masked (Prefix a None) = Prefix a None"

text \<open>\<open>Prefix.Contains\<close>.\<close>

fun prefix_contains :: "prefix \<Rightarrow> addr \<Rightarrow> bool" where
  "prefix_contains (Prefix p None) a = False"
| "prefix_contains (Prefix (V4 p) (Some b)) (V4 a) = (drop_bit (32 - b) (a XOR p) = 0)"
| "prefix_contains (Prefix (V6 p _) (Some b)) (V6 a z) = (z = [] \<and> (a XOR p) AND mask6 b = 0)"
| "prefix_contains (Prefix _ (Some b)) _ = False"

fun addr_num :: "addr \<Rightarrow> nat" where
  "addr_num (V4 w) = unat w"
| "addr_num (V6 w _) = unat w"

lemma drop_bit_xor_eq_0:
  fixes a p :: "'a::len word"
  shows "drop_bit k a XOR drop_bit k p = 0 \<longleftrightarrow> drop_bit k a = drop_bit k p"
  by (auto simp: bit_eq_iff bit_simps)

lemma and_not_mask_eq_0:
  fixes x :: "'a::len word"
  shows "x AND NOT (mask k) = 0 \<longleftrightarrow> drop_bit k x = 0"
proof -
  have "x AND NOT (mask k) = push_bit k (drop_bit k x)"
    by (rule bit_word_eqI) (auto simp: bit_simps not_le)
  moreover have "push_bit k (drop_bit k x) = 0 \<longleftrightarrow> drop_bit k x = 0"
  proof
    assume "push_bit k (drop_bit k x) = 0"
    then have "drop_bit k (push_bit k (drop_bit k x)) = 0" by simp
    moreover have "drop_bit k (push_bit k (drop_bit k x)) = drop_bit k x"
      by (rule bit_word_eqI) (auto simp: bit_simps dest: bit_imp_le_length)
    ultimately show "drop_bit k x = 0" by simp
  qed simp
  ultimately show ?thesis by simp
qed

lemma drop_bit_eq_interval:
  fixes a p :: "'a::len word"
  shows "drop_bit k a = drop_bit k p \<longleftrightarrow>
     unat p div 2 ^ k * 2 ^ k \<le> unat a \<and> unat a < unat p div 2 ^ k * 2 ^ k + 2 ^ k"
proof -
  have "drop_bit k a = drop_bit k p \<longleftrightarrow> unat a div 2 ^ k = unat p div 2 ^ k"
    by (metis drop_bit_eq_div unat_drop_bit_eq word_unat_eq_iff)
  also have "\<dots> \<longleftrightarrow> unat p div 2 ^ k * 2 ^ k \<le> unat a \<and> unat a < unat p div 2 ^ k * 2 ^ k + 2 ^ k"
  proof
    assume *: "unat a div 2 ^ k = unat p div 2 ^ k"
    have "unat a = unat a div 2 ^ k * 2 ^ k + unat a mod 2 ^ k" by (simp only: div_mult_mod_eq)
    moreover have "unat a mod 2 ^ k < 2 ^ k" by simp
    ultimately show "unat p div 2 ^ k * 2 ^ k \<le> unat a \<and> unat a < unat p div 2 ^ k * 2 ^ k + 2 ^ k"
      unfolding * by linarith
  next
    assume "unat p div 2 ^ k * 2 ^ k \<le> unat a \<and> unat a < unat p div 2 ^ k * 2 ^ k + 2 ^ k"
    then show "unat a div 2 ^ k = unat p div 2 ^ k"
      by (intro div_nat_eqI) (auto simp: algebra_simps)
  qed
  finally show ?thesis .
qed

lemma prefix_contains_v4:
  "prefix_contains (Prefix (V4 p) (Some b)) (V4 a) \<longleftrightarrow> drop_bit (32 - b) a = drop_bit (32 - b) p"
  by (simp add: drop_bit_xor_eq_0)

lemma prefix_contains_v6:
  "prefix_contains (Prefix (V6 p pz) (Some b)) (V6 a z) \<longleftrightarrow>
     z = [] \<and> drop_bit (128 - b) a = drop_bit (128 - b) p"
  by (simp add: mask6_def and_not_mask_eq_0 drop_bit_xor_eq_0)

lemma prefix_contains_family: "prefix_contains pf a \<Longrightarrow> is4 (prefix_addr pf) = is4 a"
  by (induction pf a rule: prefix_contains.induct) auto

lemma drop_bit_and_not_mask:
  fixes w :: "'a::len word"
  shows "drop_bit k (w AND NOT (mask k)) = drop_bit k w"
  by (rule bit_word_eqI) (auto simp: bit_simps dest: bit_imp_le_length)

lemma masked_contains [simp]: "prefix_contains (masked pf) a = prefix_contains pf a"
  by (cases pf rule: masked.cases; cases a)
    (simp_all add: prefix_contains_v4 prefix_contains_v6 mask4_def mask6_def drop_bit_and_not_mask
      del: prefix_contains.simps(2,3) drop_bit_and)

lemma masked_idem [simp]: "masked (masked pf) = masked pf"
  by (cases pf rule: masked.cases) (simp_all add: ac_simps)

end
