(* ===== verification/Go_Http.thy ===== *)
theory Go_Http
  imports Go_Net
begin

text \<open>
  What the program uses of \<open>net/http\<close> and \<open>net/url\<close> as data: canonical header keys, the
  header map with \<open>Get\<close>, \<open>Values\<close>, \<open>Set\<close> and \<open>Del\<close>, the parsed URL with \<open>Hostname\<close> and
  \<open>Port\<close>, the dial address the transport derives from it, and percent decoding. The header
  map is used through the interface \<open>header_store\<close>.
\<close>

section \<open>Header keys\<close>

text \<open>The bytes of an HTTP token; a key with any other byte is left as it is.\<close>

definition token_byte :: "char \<Rightarrow> bool" where
  "token_byte c \<longleftrightarrow> is_upper c \<or> is_lower c \<or> is_digit c \<or> c \<in> set ''!#$%&*+-.^_`|~'' \<or> byte_val c = 39"

fun canon :: "bool \<Rightarrow> string \<Rightarrow> string" where
  "canon up [] = []"
| "canon up (c # s) =
     (let d = (if up then upper_byte c else lower_byte c) in d # canon (d = CHR ''-'') s)"

text \<open>\<open>textproto.CanonicalMIMEHeaderKey\<close>.\<close>

definition canonical_key :: "string \<Rightarrow> string" where
  "canonical_key k = (if list_all token_byte k then canon True k else k)"

lemma byte_val_upper: "byte_val (upper_byte c) = (if is_lower c then byte_val c - 32 else byte_val c)"
proof -
  have "byte_val c - 32 < 256" using byte_val_less [of c] by linarith
  then show ?thesis by (simp add: upper_byte_def)
qed

lemma upper_byte_idem [simp]: "upper_byte (upper_byte c) = upper_byte c"
  using byte_val_upper [of c] by (auto simp: upper_byte_def is_lower_def)

lemma upper_byte_lower: "is_lower c \<Longrightarrow> is_upper (upper_byte c)"
  by (auto simp: is_upper_def byte_val_upper) (auto simp: is_lower_def)

lemma lower_byte_upper: "is_upper c \<Longrightarrow> is_lower (lower_byte c)"
  by (auto simp: is_lower_def byte_val_lower) (auto simp: is_upper_def)

lemma dash_not_letter: "\<not> is_upper (CHR ''-'')" "\<not> is_lower (CHR ''-'')"
  by (simp_all add: is_upper_def is_lower_def)

lemma dash_case: "upper_byte c = CHR ''-'' \<longleftrightarrow> c = CHR ''-''" "lower_byte c = CHR ''-'' \<longleftrightarrow> c = CHR ''-''"
  using upper_byte_lower [of c] lower_byte_upper [of c] dash_not_letter
  by (metis upper_byte_def, metis lower_byte_def)

lemma canon_idem: "canon up (canon up s) = canon up s"
proof (induction s arbitrary: up)
  case (Cons c s)
  then show ?case by (cases up) (simp_all add: Let_def dash_case)
qed simp

lemma token_byte_case: "token_byte c \<Longrightarrow> token_byte (upper_byte c)" "token_byte c \<Longrightarrow> token_byte (lower_byte c)"
  using upper_byte_lower [of c] lower_byte_upper [of c]
  by (auto simp: token_byte_def upper_byte_def lower_byte_def split: if_splits)

lemma canon_tokens: "list_all token_byte s \<Longrightarrow> list_all token_byte (canon up s)"
  by (induction up s rule: canon.induct) (auto simp: Let_def token_byte_case)

lemma canonical_key_idem [simp]: "canonical_key (canonical_key k) = canonical_key k"
  by (simp add: canonical_key_def canon_tokens canon_idem)

section \<open>The header map\<close>

type_synonym header = "string \<Rightarrow> string list option"

definition header_values :: "header \<Rightarrow> string \<Rightarrow> string list" where
  "header_values h k = (case h (canonical_key k) of Some vs \<Rightarrow> vs | None \<Rightarrow> [])"

definition header_get :: "header \<Rightarrow> string \<Rightarrow> string" where
  "header_get h k = (case header_values h k of v # _ \<Rightarrow> v | [] \<Rightarrow> [])"

definition header_set :: "header \<Rightarrow> string \<Rightarrow> string \<Rightarrow> header" where
  "header_set h k v = h(canonical_key k \<mapsto> [v])"

definition header_del :: "header \<Rightarrow> string \<Rightarrow> header" where
  "header_del h k = h(canonical_key k := None)"

definition header_lookup :: "header \<Rightarrow> string \<Rightarrow> string list option" where
  "header_lookup h k = h (canonical_key k)"

definition same_key :: "string \<Rightarrow> string \<Rightarrow> bool" where
  "same_key j k \<longleftrightarrow> canonical_key j = canonical_key k"

text \<open>
  The interface that the forwarding code uses: keys are compared up to an equivalence, setting
  a key gives it exactly one value, deleting it removes every value, other keys are untouched.
\<close>

locale header_store =
  fixes lookup :: "'h \<Rightarrow> 'k \<Rightarrow> 'v list option"
    and put :: "'h \<Rightarrow> 'k \<Rightarrow> 'v \<Rightarrow> 'h"
    and remove :: "'h \<Rightarrow> 'k \<Rightarrow> 'h"
    and same :: "'k \<Rightarrow> 'k \<Rightarrow> bool"
  assumes lookup_put: "lookup (put h k v) j = (if same j k then Some [v] else lookup h j)"
    and lookup_remove: "lookup (remove h k) j = (if same j k then None else lookup h j)"
    and lookup_same: "same j k \<Longrightarrow> lookup h j = lookup h k"
    and same_refl: "same k k"
    and same_trans: "same i j \<Longrightarrow> same j k \<Longrightarrow> same i k"
    and same_sym: "same j k \<Longrightarrow> same k j"
begin

lemma put_get: "lookup (put h k v) k = Some [v]"
  by (simp add: lookup_put same_refl)

lemma remove_gone: "lookup (remove h k) k = None"
  by (simp add: lookup_remove same_refl)

lemma lookup_remove_all:
  "lookup (foldl remove h ks) j = (if \<exists>k \<in> set ks. same j k then None else lookup h j)"
  by (induction ks arbitrary: h) (auto simp: lookup_remove)

lemma remove_all_gone: "k \<in> set ks \<Longrightarrow> same j k \<Longrightarrow> lookup (foldl remove h ks) j = None"
  by (auto simp: lookup_remove_all)

lemma remove_all_keeps: "\<forall>k \<in> set ks. \<not> same j k \<Longrightarrow> lookup (foldl remove h ks) j = lookup h j"
  by (auto simp: lookup_remove_all)

lemma put_other: "\<not> same j k \<Longrightarrow> lookup (put h k v) j = lookup h j"
  by (simp add: lookup_put)

end

interpretation hdr: header_store header_lookup header_set header_del same_key
  by unfold_locales (auto simp: header_lookup_def header_set_def header_del_def same_key_def)

lemma header_values_lookup: "header_values h k = (case header_lookup h k of Some vs \<Rightarrow> vs | None \<Rightarrow> [])"
  by (simp add: header_values_def header_lookup_def)

lemmas [header_simps] = hdr.lookup_put hdr.lookup_remove hdr.lookup_remove_all

lemma header_get_set [header_simps]: "header_get (header_set h k v) k = v"
  by (simp add: header_get_def header_values_def header_set_def)

lemma header_get_set_other [header_simps]:
  "\<not> same_key j k \<Longrightarrow> header_get (header_set h k v) j = header_get h j"
  by (simp add: header_get_def header_values_def header_set_def same_key_def)

lemma header_get_del [header_simps]: "same_key j k \<Longrightarrow> header_get (header_del h k) j = []"
  by (simp add: header_get_def header_values_def header_del_def same_key_def)

lemma header_values_set [header_simps]:
  "header_values (header_set h k v) j = (if same_key j k then [v] else header_values h j)"
  by (simp add: header_values_def header_set_def same_key_def)

lemma header_values_del [header_simps]:
  "header_values (header_del h k) j = (if same_key j k then [] else header_values h j)"
  by (simp add: header_values_def header_del_def same_key_def)

text \<open>
  \<open>httpguts.HeaderValuesContainsToken\<close>: some comma-separated element of some value is the
  token, up to ASCII case, after trimming spaces and tabs.
\<close>

definition ows :: "char \<Rightarrow> bool" where
  "ows c \<longleftrightarrow> byte_val c = 32 \<or> byte_val c = 9"

definition ascii_fold_eq :: "string \<Rightarrow> string \<Rightarrow> bool" where
  "ascii_fold_eq s t \<longleftrightarrow> map lower_byte s = map lower_byte t"

definition values_contain_token :: "string list \<Rightarrow> string \<Rightarrow> bool" where
  "values_contain_token vs tok \<longleftrightarrow>
     (\<exists>v \<in> set vs. \<exists>p \<in> set (split_byte (CHR '','') v). ascii_fold_eq (trim_both ows p) tok)"

section \<open>URLs\<close>

record url =
  url_scheme :: string
  url_opaque :: string
  url_user :: "(string \<times> string option) option"
  url_host :: string
  url_path :: string
  url_raw_path :: string
  url_raw_query :: string
  url_fragment :: string
  url_raw_fragment :: string
  url_force_query :: bool
  url_omit_host :: bool

text \<open>\<open>validOptionalPort\<close> and \<open>splitHostPort\<close> of \<open>net/url\<close>, behind \<open>Hostname\<close> and \<open>Port\<close>.\<close>

definition valid_optional_port :: "string \<Rightarrow> bool" where
  "valid_optional_port s \<longleftrightarrow> s = [] \<or> (hd s = CHR '':'' \<and> list_all is_digit (tl s))"

definition url_split_host_port :: "string \<Rightarrow> string \<times> string" where
  "url_split_host_port hp =
     (let (host, port) =
        (case last_index_byte (CHR '':'') hp of
           Some i \<Rightarrow> if valid_optional_port (drop i hp) then (take i hp, drop (Suc i) hp) else (hp, [])
         | None \<Rightarrow> (hp, []))
      in if prefix ''['' host \<and> suffix '']'' host then (butlast (tl host), port) else (host, port))"

definition url_hostname :: "url \<Rightarrow> string" where
  "url_hostname u = fst (url_split_host_port (url_host u))"

definition url_port :: "url \<Rightarrow> string" where
  "url_port u = snd (url_split_host_port (url_host u))"

text \<open>
  \<open>http.canonicalAddr\<close>: the address an https transport dials. The IDNA mapping is the identity
  on ASCII hosts and an argument here.
\<close>

definition canonical_addr :: "(string \<Rightarrow> string) \<Rightarrow> url \<Rightarrow> string" where
  "canonical_addr idna u =
     join_host_port (idna (url_hostname u)) (if url_port u = [] then ''443'' else url_port u)"

section \<open>Percent decoding\<close>

text \<open>\<open>url.PathUnescape\<close>; \<open>None\<close> is the error for a malformed escape.\<close>

fun path_unescape :: "string \<Rightarrow> string option" where
  "path_unescape [] = Some []"
| "path_unescape (c # s) =
     (if c = CHR ''%'' then
        (case s of
           p # q # r \<Rightarrow>
             (case (unhex_digit p, unhex_digit q) of
                (Some a, Some b) \<Rightarrow> map_option ((#) (byte_of (a * 16 + b))) (path_unescape r)
              | _ \<Rightarrow> None)
         | _ \<Rightarrow> None)
      else map_option ((#) c) (path_unescape s))"

lemma path_unescape_no_percent: "CHR ''%'' \<notin> set s \<Longrightarrow> path_unescape s = Some s"
  by (induction s) auto

lemma path_unescape_escape:
  "path_unescape (CHR ''%'' # s) = Some t \<Longrightarrow>
     \<exists>p q r a b u. s = p # q # r \<and> unhex_digit p = Some a \<and> unhex_digit q = Some b \<and>
       path_unescape r = Some u \<and> t = byte_of (a * 16 + b) # u"
  by (auto split: list.splits option.splits)

declare path_unescape.simps(2) [simp del]

lemma path_unescape_plain [simp]:
  "c \<noteq> CHR ''%'' \<Longrightarrow> path_unescape (c # s) = map_option ((#) c) (path_unescape s)"
  by (simp add: path_unescape.simps(2))

text \<open>Decoding never lengthens a path, and shortens it unless there was nothing to decode.\<close>

lemma path_unescape_shrinks:
  "path_unescape s = Some t \<Longrightarrow> length t < length s \<or> t = s \<and> CHR ''%'' \<notin> set s"
proof (induction "length s" arbitrary: s t rule: less_induct)
  case less
  show ?case
  proof (cases s)
    case (Cons c s')
    show ?thesis
    proof (cases "c = CHR ''%''")
      case True
      then obtain p q r u where "s' = p # q # r" "path_unescape r = Some u" "length t = Suc (length u)"
        using less.prems Cons path_unescape_escape by fastforce
      then show ?thesis using less.hyps [of r u] Cons by auto
    next
      case False
      then show ?thesis using less Cons by fastforce
    qed
  qed (use less.prems in simp)
qed

lemma path_unescape_fixpoint: "path_unescape s = Some s \<longleftrightarrow> CHR ''%'' \<notin> set s"
  using path_unescape_no_percent path_unescape_shrinks by blast

end
