(* ===== verification/Go_Regex.thy ===== *)
theory Go_Regex
  imports Go_Strings
begin

text \<open>
  The syntax trees of \<open>regexp/syntax\<close> and what \<open>regexp.MatchString\<close> decides on them. The
  parser (\<open>syntax.Parse\<close> with the Perl flags) is not modelled: it is an argument of the
  definitions that call it. The trees have Go's operators, so the anchor checks of the program
  are the program's own recursion, and the match relation gives them their meaning.
\<close>

datatype regex =
    OpNoMatch
  | OpEmptyMatch
  | OpLiteral "nat list" bool          \<comment> \<open>runes, and the FoldCase flag\<close>
  | OpCharClass "(nat \<times> nat) list"
  | OpAnyCharNotNL
  | OpAnyChar
  | OpBeginLine
  | OpEndLine
  | OpBeginText
  | OpEndText
  | OpWordBoundary
  | OpNoWordBoundary
  | OpCapture regex
  | OpStar regex
  | OpPlus regex
  | OpQuest regex
  | OpRepeat nat "nat option" regex
  | OpConcat "regex list"
  | OpAlternate "regex list"

definition word_rune :: "nat \<Rightarrow> bool" where
  "word_rune r \<longleftrightarrow> 48 \<le> r \<and> r \<le> 57 \<or> 65 \<le> r \<and> r \<le> 90 \<or> r = 95 \<or> 97 \<le> r \<and> r \<le> 122"

definition at_word_boundary :: "nat list \<Rightarrow> nat \<Rightarrow> bool" where
  "at_word_boundary s i \<longleftrightarrow>
     (0 < i \<and> i \<le> length s \<and> word_rune (s ! (i - 1))) \<noteq> (i < length s \<and> word_rune (s ! i))"

text \<open>
  \<open>ends feq s re i\<close> lists the positions at which a match of \<open>re\<close> that starts at position
  \<open>i\<close> of the runes \<open>s\<close> can end; \<open>feq\<close> is the case folding of the Unicode tables.
\<close>

fun seq_ends :: "(nat \<Rightarrow> nat list) list \<Rightarrow> nat \<Rightarrow> nat list" where
  "seq_ends [] i = [i]"
| "seq_ends (f # fs) i = concat (map (seq_ends fs) (f i))"

definition alt_ends :: "(nat \<Rightarrow> nat list) list \<Rightarrow> nat \<Rightarrow> nat list" where
  "alt_ends fs i = concat (map (\<lambda>f. f i) fs)"

text \<open>Iteration: an empty round adds nothing, so at most one round per remaining rune is needed.\<close>

fun iter_ends :: "nat \<Rightarrow> (nat \<Rightarrow> nat list) \<Rightarrow> nat \<Rightarrow> nat list" where
  "iter_ends 0 f i = [i]"
| "iter_ends (Suc n) f i = i # concat (map (iter_ends n f) (filter (\<lambda>j. i < j) (f i)))"

definition step_if :: "bool \<Rightarrow> nat \<Rightarrow> nat list" where
  "step_if b j = (if b then [j] else [])"

primrec ends :: "(nat \<Rightarrow> nat \<Rightarrow> bool) \<Rightarrow> nat list \<Rightarrow> regex \<Rightarrow> nat \<Rightarrow> nat list" where
  "ends feq s OpNoMatch = (\<lambda>i. [])"
| "ends feq s OpEmptyMatch = (\<lambda>i. [i])"
| "ends feq s (OpLiteral rs fc) =
     (\<lambda>i. step_if (i + length rs \<le> length s \<and>
             list_all2 (\<lambda>p r. p = r \<or> fc \<and> feq p r) rs (take (length rs) (drop i s)))
           (i + length rs))"
| "ends feq s (OpCharClass cs) =
     (\<lambda>i. step_if (i < length s \<and> list_ex (\<lambda>(lo, hi). lo \<le> s ! i \<and> s ! i \<le> hi) cs) (Suc i))"
| "ends feq s OpAnyCharNotNL = (\<lambda>i. step_if (i < length s \<and> s ! i \<noteq> 10) (Suc i))"
| "ends feq s OpAnyChar = (\<lambda>i. step_if (i < length s) (Suc i))"
| "ends feq s OpBeginLine = (\<lambda>i. step_if (i = 0 \<or> (i \<le> length s \<and> s ! (i - 1) = 10)) i)"
| "ends feq s OpEndLine = (\<lambda>i. step_if (i = length s \<or> (i < length s \<and> s ! i = 10)) i)"
| "ends feq s OpBeginText = (\<lambda>i. step_if (i = 0) i)"
| "ends feq s OpEndText = (\<lambda>i. step_if (i = length s) i)"
| "ends feq s OpWordBoundary = (\<lambda>i. step_if (at_word_boundary s i) i)"
| "ends feq s OpNoWordBoundary = (\<lambda>i. step_if (\<not> at_word_boundary s i) i)"
| "ends feq s (OpCapture r) = ends feq s r"
| "ends feq s (OpStar r) = (\<lambda>i. iter_ends (length s - i) (ends feq s r) i)"
| "ends feq s (OpPlus r) =
     (\<lambda>i. concat (map (\<lambda>j. iter_ends (length s - j) (ends feq s r) j) (ends feq s r i)))"
| "ends feq s (OpQuest r) = (\<lambda>i. i # ends feq s r i)"
| "ends feq s (OpRepeat m n r) =
     (\<lambda>i. concat (map
        (\<lambda>j. case n of
               None \<Rightarrow> iter_ends (length s - j) (ends feq s r) j
             | Some k \<Rightarrow> iter_ends (k - m) (ends feq s r) j)
        (seq_ends (replicate m (ends feq s r)) i)))"
| "ends feq s (OpConcat rs) = seq_ends (map (ends feq s) rs)"
| "ends feq s (OpAlternate rs) = alt_ends (map (ends feq s) rs)"

text \<open>\<open>regexp.MatchString\<close> on a parsed pattern: some substring matches.\<close>

definition re_search :: "(nat \<Rightarrow> nat \<Rightarrow> bool) \<Rightarrow> regex \<Rightarrow> string \<Rightarrow> bool" where
  "re_search feq re s =
     (let rs = rune_values s in list_ex (\<lambda>i. ends feq rs re i \<noteq> []) [0 ..< Suc (length rs)])"

text \<open>The whole string matches: the meaning an anchored pattern is meant to have.\<close>

definition re_full :: "(nat \<Rightarrow> nat \<Rightarrow> bool) \<Rightarrow> regex \<Rightarrow> string \<Rightarrow> bool" where
  "re_full feq re s = (let rs = rune_values s in length rs \<in> set (ends feq rs re 0))"

lemma re_full_search: "re_full feq re s \<Longrightarrow> re_search feq re s"
  by (auto simp: re_full_def re_search_def Let_def list_ex_iff intro!: bexI [of _ 0])

lemma set_seq_ends_append:
  "set (seq_ends (fs @ gs) i) = (\<Union>j \<in> set (seq_ends fs i). set (seq_ends gs j))"
  by (induction fs arbitrary: i) auto

lemma seq_ends_last:
  "j \<in> set (seq_ends (fs @ [f]) i) \<Longrightarrow> \<exists>k. j \<in> set (f k)"
  by (auto simp: set_seq_ends_append)

lemma seq_ends_first: "seq_ends (f # fs) i \<noteq> [] \<Longrightarrow> f i \<noteq> []"
  by auto

text \<open>A tree with no multi-line anchor: \<open>^\<close> and \<open>$\<close> mean the ends of the text.\<close>

primrec single_line :: "regex \<Rightarrow> bool" where
  "single_line OpNoMatch = True"
| "single_line OpEmptyMatch = True"
| "single_line (OpLiteral rs f) = True"
| "single_line (OpCharClass cs) = True"
| "single_line OpAnyCharNotNL = True"
| "single_line OpAnyChar = True"
| "single_line OpBeginLine = False"
| "single_line OpEndLine = False"
| "single_line OpBeginText = True"
| "single_line OpEndText = True"
| "single_line OpWordBoundary = True"
| "single_line OpNoWordBoundary = True"
| "single_line (OpCapture r) = single_line r"
| "single_line (OpStar r) = single_line r"
| "single_line (OpPlus r) = single_line r"
| "single_line (OpQuest r) = single_line r"
| "single_line (OpRepeat m n r) = single_line r"
| "single_line (OpConcat rs) = list_all id (map single_line rs)"
| "single_line (OpAlternate rs) = list_all id (map single_line rs)"

end
