(* ===== verification/Environment.thy ===== *)
theory Environment
  imports Go_Http Go_Regex
begin

text \<open>
  What the program calls and this library does not define: the third-party cryptography
  (\<open>curve25519\<close>, \<open>nacl/box\<close>), the large tables and parsers of the Go distribution (the
  Unicode case tables, the IDNA mapping, \<open>regexp/syntax.Parse\<close>, \<open>url.Parse\<close>), and the
  iteration order of Go's maps. They are the fields of one record, an argument of every
  definition that uses one of them. Random bytes, the network, the clock, the file system and
  the process environment are arguments of the operations that read them.
\<close>

record env =
  uni_lower :: "string \<Rightarrow> string"
    \<comment> \<open>\<open>strings.ToLower\<close> on a string with bytes above 127\<close>
  idna_ascii :: "string \<Rightarrow> string"
    \<comment> \<open>the host name as net/http dials it\<close>
  re_parse :: "string \<Rightarrow> regex option"
    \<comment> \<open>\<open>syntax.Parse(pat, syntax.Perl)\<close>\<close>
  rune_fold :: "nat \<Rightarrow> nat \<Rightarrow> bool"
    \<comment> \<open>equality of code points up to \<open>unicode.SimpleFold\<close>\<close>
  url_parse :: "string \<Rightarrow> url option"
    \<comment> \<open>\<open>url.Parse\<close>\<close>
  fmt_other :: "string \<Rightarrow> string \<Rightarrow> string"
    \<comment> \<open>\<open>fmt.Sprintf(format, s)\<close> for a format with flags, a width or a quoting verb\<close>
  scalar_base_mult :: "bytes \<Rightarrow> bytes"
    \<comment> \<open>\<open>curve25519.ScalarBaseMult\<close>\<close>
  seal_anonymous :: "bytes \<Rightarrow> bytes \<Rightarrow> bytes \<Rightarrow> bytes option"
    \<comment> \<open>\<open>box.SealAnonymous(nil, message, public key, random bytes)\<close>\<close>
  open_anonymous :: "bytes \<Rightarrow> bytes \<Rightarrow> bytes \<Rightarrow> bytes option"
    \<comment> \<open>\<open>box.OpenAnonymous(nil, box, public key, private key)\<close>\<close>
  map_seed :: nat
    \<comment> \<open>the iteration order the runtime picks for a map\<close>

text \<open>
  \<open>for k, v := range m\<close>: the entries in an order that Go does not specify. Any seed gives a
  permutation of the entries, and every permutation has a seed.
\<close>

fun range_order :: "nat \<Rightarrow> 'a list \<Rightarrow> 'a list" where
  "range_order n [] = []"
| "range_order n (x # xs) =
     (let i = n mod Suc (length xs) in
      (x # xs) ! i # range_order (n div Suc (length xs)) (if i = 0 then xs else take i (x # xs) @ drop i xs))"

lemma set_range_order [simp]: "set (range_order n xs) = set xs"
proof (induction n xs rule: range_order.induct)
  case (2 n x xs)
  let ?i = "n mod Suc (length xs)"
  have i: "?i < Suc (length xs)" by simp
  show ?case
  proof (cases "?i = 0")
    case True
    then show ?thesis using 2 [OF refl] by (simp add: Let_def)
  next
    case False
    then obtain j where j: "?i = Suc j" by (cases ?i) auto
    have "set (take ?i (x # xs) @ drop ?i xs) \<union> {(x # xs) ! ?i} = set (take ?i (x # xs) @ (x # xs) ! ?i # drop (Suc ?i) (x # xs))"
      by auto
    also have "\<dots> = set (x # xs)" using i id_take_nth_drop [of ?i "x # xs"] by simp
    finally show ?thesis using 2 [OF refl] False by (simp add: Let_def insert_commute Un_commute)
  qed
qed simp

text \<open>\<open>regexp.MatchString\<close>: \<open>None\<close> for a pattern that does not parse.\<close>

definition match_string :: "env \<Rightarrow> string \<Rightarrow> string \<Rightarrow> bool option" where
  "match_string E pat s = map_option (\<lambda>re. re_search (rune_fold E) re s) (re_parse E pat)"

end
