(* ===== verification/Wire.thy ===== *)
theory Wire
  imports Environment
begin

text \<open>
  The wire contract between \<open>pkg/client\<close> and \<open>internal/proxy\<close>: the header names and paths,
  the fixed header lists of the proxy, and the messages as data.
\<close>

section \<open>Names\<close>

definition HeaderUpstreamURL :: string where "HeaderUpstreamURL = ''X-Upstream-URL''"
definition HeaderSealedSecret :: string where "HeaderSealedSecret = ''X-Sealed-Secret''"
definition HeaderAuthBearer :: string where "HeaderAuthBearer = ''X-Auth-Bearer''"
definition ForwardPath :: string where "ForwardPath = ''/v1/forward''"
definition PublicKeyPath :: string where "PublicKeyPath = ''/public-key''"
definition HealthPath :: string where "HealthPath = ''/healthz''"
definition ReadyPath :: string where "ReadyPath = ''/readyz''"
definition UpstreamPort :: string where "UpstreamPort = ''443''"
definition CFConnectingIPHeader :: string where "CFConnectingIPHeader = ''CF-Connecting-IP''"

lemmas wire_names = HeaderUpstreamURL_def HeaderSealedSecret_def HeaderAuthBearer_def ForwardPath_def
  PublicKeyPath_def HealthPath_def ReadyPath_def

definition hop_by_hop_headers :: "string list" where
  "hop_by_hop_headers =
     [''Connection'', ''Proxy-Connection'', ''Keep-Alive'', ''Te'', ''Trailer'', ''Transfer-Encoding'',
      ''Upgrade'', HeaderUpstreamURL, HeaderSealedSecret, HeaderAuthBearer]"

definition CloudflareTrustHeaders :: "string list" where
  "CloudflareTrustHeaders =
     [CFConnectingIPHeader, ''CF-Ray'', ''CF-IPCountry'', ''CF-Visitor'', ''True-Client-IP'']"

section \<open>Messages\<close>

text \<open>How a body ends: at its end, or where \<open>http.MaxBytesReader\<close> cuts it off.\<close>

datatype body_end = BodyEOF | BodyTooLarge int

record request =
  req_method :: string
  req_url :: url
  req_host :: string
  req_header :: header
  req_remote :: string
  req_length :: int                  \<comment> \<open>\<open>ContentLength\<close>, -1 when it is not known\<close>
  req_body :: bytes
  req_body_end :: body_end

text \<open>
  The body of a response is the sequence of what its reads return, bytes and an error at a time;
  behind the last of them it is at its end.
\<close>

datatype read_err = ReadOk | ReadEOF | ReadErr string

record response =
  resp_status :: nat
  resp_header :: header
  resp_reads :: "(bytes \<times> read_err) list"

text \<open>\<open>http.MaxBytesReader\<close> around the body of a request.\<close>

definition max_bytes_reader :: "int \<Rightarrow> request \<Rightarrow> request" where
  "max_bytes_reader n r =
     (if int (length (req_body r)) \<le> n then r
      else r\<lparr>req_body := take (nat n) (req_body r), req_body_end := BodyTooLarge n\<rparr>)"

definition no_headers :: header where
  "no_headers = (\<lambda>_. None)"

section \<open>Allowlists\<close>

text \<open>
  The loops \<open>for _, e := range list { if allows(e, x) { return true } } return false\<close>, and the
  ones that compare up to a normal form of the value that is looked for.
\<close>

locale allowlist =
  fixes allows :: "'e \<Rightarrow> 'x \<Rightarrow> bool"
    and check :: "'e list \<Rightarrow> 'x \<Rightarrow> bool"
  assumes check_Nil: "\<not> check [] x"
    and check_Cons: "check (e # es) x \<longleftrightarrow> allows e x \<or> check es x"
begin

lemma check_iff: "check es x \<longleftrightarrow> (\<exists>e \<in> set es. allows e x)"
  by (induction es) (auto simp: check_Nil check_Cons)

lemma check_mono: "set es \<subseteq> set fs \<Longrightarrow> check es x \<Longrightarrow> check fs x"
  by (auto simp: check_iff)

lemma check_same_set: "set es = set fs \<Longrightarrow> check es x = check fs x"
  by (simp add: check_iff)

end

locale allowlist_normal = allowlist +
  fixes norm :: "'x \<Rightarrow> 'x"
  assumes allows_norm: "allows e (norm x) = allows e x"
begin

lemma check_norm: "check es (norm x) = check es x"
  by (simp add: check_iff allows_norm)

lemma check_eq_norm: "norm x = norm y \<Longrightarrow> check es x = check es y"
  by (metis check_norm)

end

end
