(* ===== verification/Response_Writer.thy ===== *)
theory Response_Writer
  imports Wire
begin

text \<open>
  The side of a request that faces the client: what \<open>http.ResponseWriter\<close> does with headers,
  status codes and bytes, \<open>http.Error\<close>, and the \<open>statusWriter\<close> of \<open>internal/proxy/proxy.go\<close>
  that records the status of the response for the log. The client may stop reading: the writer
  then accepts only so many bytes of the body.
\<close>

section \<open>The writer of net/http\<close>

record writer =
  w_header :: header                     \<comment> \<open>the map that \<open>Header()\<close> returns\<close>
  w_info :: "(nat \<times> header) list"        \<comment> \<open>the informational responses sent so far\<close>
  w_sent :: "(nat \<times> header) option"      \<comment> \<open>the final status line and headers, once sent\<close>
  w_body :: bytes
  w_accepts :: "nat option"              \<comment> \<open>the bytes the client still takes, \<open>None\<close> for any number\<close>

definition informational :: "nat \<Rightarrow> bool" where
  "informational code \<longleftrightarrow> 100 \<le> code \<and> code \<le> 199 \<and> code \<noteq> 101"

text \<open>\<open>WriteHeader\<close>: a superfluous call is ignored, a 1xx code is sent and is not final.\<close>

definition write_header :: "nat \<Rightarrow> writer \<Rightarrow> writer" where
  "write_header code w =
     (if w_sent w \<noteq> None then w
      else if informational code then w\<lparr>w_info := w_info w @ [(code, w_header w)]\<rparr>
      else w\<lparr>w_sent := Some (code, w_header w)\<rparr>)"

text \<open>\<open>Write\<close>: the flag is the error.\<close>

definition write_bytes :: "bytes \<Rightarrow> writer \<Rightarrow> bool \<times> writer" where
  "write_bytes b w0 =
     (let w = (if w_sent w0 = None then write_header 200 w0 else w0) in
      case w_accepts w of
        None \<Rightarrow> (False, w\<lparr>w_body := w_body w @ b\<rparr>)
      | Some n \<Rightarrow> (n < length b, w\<lparr>w_body := w_body w @ take n b, w_accepts := Some (n - length b)\<rparr>))"

definition set_header :: "string \<Rightarrow> string \<Rightarrow> writer \<Rightarrow> writer" where
  "set_header k v w = w\<lparr>w_header := header_set (w_header w) k v\<rparr>"

definition fresh_writer :: "nat option \<Rightarrow> writer" where
  "fresh_writer n = \<lparr>w_header = no_headers, w_info = [], w_sent = None, w_body = [], w_accepts = n\<rparr>"

section \<open>statusWriter\<close>

record status_writer =
  sw_inner :: writer
  sw_status :: nat
  sw_written :: bool

definition new_status_writer :: "writer \<Rightarrow> status_writer" where
  "new_status_writer w = \<lparr>sw_inner = w, sw_status = 200, sw_written = False\<rparr>"

definition sw_write_header :: "nat \<Rightarrow> status_writer \<Rightarrow> status_writer" where
  "sw_write_header code s =
     (let s' = (if \<not> sw_written s then s\<lparr>sw_status := code, sw_written := True\<rparr> else s) in
      s'\<lparr>sw_inner := write_header code (sw_inner s')\<rparr>)"

definition sw_write :: "bytes \<Rightarrow> status_writer \<Rightarrow> bool \<times> status_writer" where
  "sw_write b s =
     (let s' = (if \<not> sw_written s then s\<lparr>sw_status := 200, sw_written := True\<rparr> else s);
          (err, w) = write_bytes b (sw_inner s')
      in (err, s'\<lparr>sw_inner := w\<rparr>))"

definition sw_update_header :: "(header \<Rightarrow> header) \<Rightarrow> status_writer \<Rightarrow> status_writer" where
  "sw_update_header f s = s\<lparr>sw_inner := (sw_inner s)\<lparr>w_header := f (w_header (sw_inner s))\<rparr>\<rparr>"

section \<open>http.Error\<close>

definition error_headers :: "header \<Rightarrow> header" where
  "error_headers h =
     header_set (header_set (header_del h ''Content-Length'') ''Content-Type'' ''text/plain; charset=utf-8'')
       ''X-Content-Type-Options'' ''nosniff''"

definition newline :: string where
  "newline = [char_of (10::nat)]"

definition http_error :: "string \<Rightarrow> nat \<Rightarrow> writer \<Rightarrow> writer" where
  "http_error msg code w =
     snd (write_bytes (msg @ newline) (write_header code (w\<lparr>w_header := error_headers (w_header w)\<rparr>)))"

definition sw_error :: "string \<Rightarrow> nat \<Rightarrow> status_writer \<Rightarrow> status_writer" where
  "sw_error msg code s = snd (sw_write (msg @ newline) (sw_write_header code (sw_update_header error_headers s)))"

section \<open>Lemmas\<close>

lemma write_header_sent: "w_sent w = Some x \<Longrightarrow> write_header code w = w"
  by (simp add: write_header_def)

lemma write_bytes_sent: "w_sent w = Some x \<Longrightarrow> w_sent (snd (write_bytes b w)) = Some x"
  by (simp add: write_bytes_def Let_def split: option.splits)

lemma sw_write_header_first: "sw_written s \<Longrightarrow> sw_status (sw_write_header code s) = sw_status s"
  by (simp add: sw_write_header_def)

lemma sw_write_first: "sw_written s \<Longrightarrow> sw_status (snd (sw_write b s)) = sw_status s"
  by (simp add: sw_write_def Let_def split: prod.splits)

lemma sw_written_mono [simp]:
  "sw_written (sw_write_header code s)" "sw_written (snd (sw_write b s))"
  by (auto simp: sw_write_header_def sw_write_def Let_def split: prod.splits)

text \<open>
  The recorded status is the one that was sent, as long as no informational response was: this
  is the relation between the wrapper and the writer it wraps.
\<close>

definition sw_agrees :: "status_writer \<Rightarrow> bool" where
  "sw_agrees s \<longleftrightarrow>
     (case w_sent (sw_inner s) of
        None \<Rightarrow> \<not> sw_written s \<and> sw_status s = 200
      | Some (code, h) \<Rightarrow> sw_written s \<and> sw_status s = code)"

lemma sw_agrees_new: "w_sent w = None \<Longrightarrow> sw_agrees (new_status_writer w)"
  by (simp add: sw_agrees_def new_status_writer_def)

lemma sw_agrees_write_header:
  assumes "sw_agrees s" "\<not> informational code"
  shows "sw_agrees (sw_write_header code s)"
  using assms by (cases "w_sent (sw_inner s)") (auto simp: sw_agrees_def sw_write_header_def write_header_def)

lemma write_bytes_final:
  "w_sent (snd (write_bytes b w)) = (if w_sent w = None then Some (200, w_header w) else w_sent w)"
  by (auto simp: write_bytes_def Let_def write_header_def informational_def split: option.splits)

lemma sw_agrees_write: "sw_agrees s \<Longrightarrow> sw_agrees (snd (sw_write b s))"
  using write_bytes_final [of b "sw_inner s"]
  by (cases "w_sent (sw_inner s)") (auto simp: sw_agrees_def sw_write_def Let_def split: prod.splits)

lemma sw_agrees_update_header [simp]: "sw_agrees (sw_update_header f s) = sw_agrees s"
  by (cases s; cases "w_sent (sw_inner s)") (auto simp: sw_agrees_def sw_update_header_def)

lemma sw_agrees_error: "sw_agrees s \<Longrightarrow> \<not> informational code \<Longrightarrow> sw_agrees (sw_error msg code s)"
  by (simp add: sw_error_def sw_agrees_write sw_agrees_write_header)

lemma http_error_fresh:
  assumes "w_sent w = None" "\<not> informational code"
  shows "w_sent (http_error msg code w) = Some (code, error_headers (w_header w))"
  using assms by (simp add: http_error_def write_bytes_final write_header_def)

end
