(* ===== verification/Logging.thy ===== *)
theory Logging
  imports Go_Net
begin

text \<open>
  Log lines as data, in place of \<open>log/slog\<close>: a level, a message and its fields, in the order
  the code gives them. An \<open>error\<close> that is logged is kept as the error value itself (the type
  parameter), not as its text. Levels are linearly ordered, as slog orders them.
\<close>

datatype level = Debug | Info | Warn | Error

primrec level_num :: "level \<Rightarrow> int" where
  "level_num Debug = -4"
| "level_num Info = 0"
| "level_num Warn = 4"
| "level_num Error = 8"

lemma level_num_inject [simp]: "level_num a = level_num b \<longleftrightarrow> a = b"
  by (cases a; cases b) auto

instantiation level :: linorder
begin

definition less_eq_level :: "level \<Rightarrow> level \<Rightarrow> bool" where
  "a \<le> b \<longleftrightarrow> level_num a \<le> level_num b"

definition less_level :: "level \<Rightarrow> level \<Rightarrow> bool" where
  "a < b \<longleftrightarrow> level_num a < level_num b"

instance
  by standard (auto simp: less_eq_level_def less_level_def)

end

datatype 'e log_value =
    LString string
  | LInt int
  | LBool bool
  | LStrings "string list"
  | LAddr addr
  | LError 'e

type_synonym 'e log_fields = "(string \<times> 'e log_value) list"

datatype 'e log_line = LogLine (log_level: level) (log_msg: string) (log_fields: "'e log_fields")

text \<open>The handler drops what is below its level.\<close>

definition emitted :: "level \<Rightarrow> 'e log_line list \<Rightarrow> 'e log_line list" where
  "emitted lo ls = filter (\<lambda>l. lo \<le> log_level l) ls"

lemma emitted_mono: "a \<le> b \<Longrightarrow> set (emitted b ls) \<subseteq> set (emitted a ls)"
  by (auto simp: emitted_def)

end
