(* ===== verification/Sha256.thy ===== *)
theory Sha256
  imports Go_Net
begin

text \<open>
  \<open>crypto/sha256.Sum256\<close> (FIPS 180-4) on 32-bit words, for the bearer digests, and the
  comparison of \<open>crypto/subtle\<close>. Nothing here is assumed about collisions: the properties
  that use the digest say exactly which digests are equal.
\<close>

type_synonym w32 = "32 word"

definition rotr :: "nat \<Rightarrow> w32 \<Rightarrow> w32" where
  "rotr n w = drop_bit n w OR push_bit (32 - n) w"

text \<open>
  The words of FIPS 180-4, in decimal: the fractional parts of the cube roots of the first 64
  primes and of the square roots of the first 8, times 2 to the 32.
\<close>

definition K256 :: "w32 list" where
  "K256 =
    [1116352408, 1899447441, 3049323471, 3921009573, 961987163, 1508970993, 2453635748, 2870763221,
     3624381080, 310598401, 607225278, 1426881987, 1925078388, 2162078206, 2614888103, 3248222580,
     3835390401, 4022224774, 264347078, 604807628, 770255983, 1249150122, 1555081692, 1996064986,
     2554220882, 2821834349, 2952996808, 3210313671, 3336571891, 3584528711, 113926993, 338241895,
     666307205, 773529912, 1294757372, 1396182291, 1695183700, 1986661051, 2177026350, 2456956037,
     2730485921, 2820302411, 3259730800, 3345764771, 3516065817, 3600352804, 4094571909, 275423344,
     430227734, 506948616, 659060556, 883997877, 958139571, 1322822218, 1537002063, 1747873779,
     1955562222, 2024104815, 2227730452, 2361852424, 2428436474, 2756734187, 3204031479, 3329325298]"

definition H256 :: "w32 list" where
  "H256 =
    [1779033703, 3144134277, 1013904242, 2773480762, 1359893119, 2600822924, 528734635, 1541459225]"

text \<open>The message padded to a multiple of 64 bytes, with its length in bits at the end.\<close>

definition be_bytes :: "nat \<Rightarrow> nat \<Rightarrow> bytes" where
  "be_bytes k n = map (\<lambda>i. byte_of (n div 256 ^ (k - Suc i) mod 256)) [0..<k]"

definition sha_pad :: "bytes \<Rightarrow> bytes" where
  "sha_pad m = m @ [byte_of 128] @ replicate ((119 - length m mod 64) mod 64) (byte_of 0)
                 @ be_bytes 8 (8 * length m)"

definition be_word :: "bytes \<Rightarrow> w32" where
  "be_word bs = foldl (\<lambda>a c. a * 256 + of_char c) 0 bs"

fun words_of :: "bytes \<Rightarrow> w32 list" where
  "words_of (a # b # c # d # s) = be_word [a, b, c, d] # words_of s"
| "words_of _ = []"

text \<open>The message schedule, built backwards: the newest word is the head.\<close>

fun schedule :: "nat \<Rightarrow> w32 list \<Rightarrow> w32 list" where
  "schedule 0 ws = rev ws"
| "schedule (Suc n) ws =
     (let w2 = ws ! 1; w7 = ws ! 6; w15 = ws ! 14; w16 = ws ! 15;
          s0 = rotr 7 w15 XOR rotr 18 w15 XOR drop_bit 3 w15;
          s1 = rotr 17 w2 XOR rotr 19 w2 XOR drop_bit 10 w2
      in schedule n ((w16 + s0 + w7 + s1) # ws))"

fun rounds :: "w32 list \<Rightarrow> w32 list \<Rightarrow> w32 list \<Rightarrow> w32 list" where
  "rounds (k # ks) (w # ws) [a, b, c, d, e, f, g, h] =
     (let t1 = h + (rotr 6 e XOR rotr 11 e XOR rotr 25 e) + ((e AND f) XOR (NOT e AND g)) + k + w;
          t2 = (rotr 2 a XOR rotr 13 a XOR rotr 22 a) + ((a AND b) XOR (a AND c) XOR (b AND c))
      in rounds ks ws [t1 + t2, a, b, c, d + t1, e, f, g])"
| "rounds _ _ st = st"

definition sha_block :: "w32 list \<Rightarrow> bytes \<Rightarrow> w32 list" where
  "sha_block st blk = map2 (+) st (rounds K256 (schedule 48 (rev (words_of blk))) st)"

function sha_blocks :: "w32 list \<Rightarrow> bytes \<Rightarrow> w32 list" where
  "sha_blocks st s = (if length s < 64 then st else sha_blocks (sha_block st (take 64 s)) (drop 64 s))"
  by pat_completeness auto
termination by (relation "measure (\<lambda>(st, s). length s)") auto

declare sha_blocks.simps [simp del]

definition word_bytes :: "w32 \<Rightarrow> bytes" where
  "word_bytes w = be_bytes 4 (unat w)"

definition sha256 :: "bytes \<Rightarrow> bytes" where
  "sha256 m = concat (map word_bytes (sha_blocks H256 (sha_pad m)))"

text \<open>A digest always has 32 bytes.\<close>

lemma rounds_length: "length st = 8 \<Longrightarrow> length (rounds ks ws st) = 8"
  by (induction ks ws st rule: rounds.induct) (auto simp: Let_def)

lemma sha_blocks_length: "length st = 8 \<Longrightarrow> length (sha_blocks st s) = 8"
proof (induction st s rule: sha_blocks.induct)
  case (1 st s)
  then show ?case
    by (cases "length s < 64")
      (simp_all add: sha_blocks.simps [of st s] sha_block_def rounds_length)
qed

lemma sha256_length [simp]: "length (sha256 m) = 32"
proof -
  have "length (concat (map word_bytes ws)) = 4 * length ws" for ws
    by (induction ws) (auto simp: word_bytes_def be_bytes_def)
  then show ?thesis by (simp add: sha256_def sha_blocks_length H256_def)
qed

lemma sha256_not_Nil [simp]: "sha256 m \<noteq> []"
  using sha256_length [of m] by (metis list.size(3) zero_neq_numeral)

text \<open>
  \<open>subtle.ConstantTimeCompare\<close>: 0 for different lengths, otherwise 1 when the OR of the XORs
  of all byte pairs is 0; every byte is read whatever the first ones are.
\<close>

fun xor_fold :: "nat \<Rightarrow> bytes \<Rightarrow> bytes \<Rightarrow> nat" where
  "xor_fold acc (a # x) (b # y) = xor_fold (acc OR (byte_val a XOR byte_val b)) x y"
| "xor_fold acc _ _ = acc"

definition constant_time_compare :: "bytes \<Rightarrow> bytes \<Rightarrow> int" where
  "constant_time_compare x y =
     (if length x \<noteq> length y then 0 else if xor_fold 0 x y = 0 then 1 else 0)"

lemma xor_fold_0: "length x = length y \<Longrightarrow> xor_fold acc x y = 0 \<longleftrightarrow> acc = 0 \<and> x = y"
proof (induction acc x y rule: xor_fold.induct)
  case (1 acc a x b y)
  have "byte_val a XOR byte_val b = 0 \<longleftrightarrow> byte_val a = byte_val b"
    by (metis xor_self_eq xor.assoc xor.right_neutral xor.left_neutral)
  then show ?case using 1 by (auto simp: or_eq_0_iff of_char_eq_iff)
qed auto

lemma constant_time_compare_eq: "constant_time_compare x y = 1 \<longleftrightarrow> x = y"
  by (auto simp: constant_time_compare_def xor_fold_0)

end
