(* ===== verification/Go_Json.thy ===== *)
theory Go_Json
  imports Encodings
begin

text \<open>
  \<open>encoding/json\<close> as the program uses it: the text of a value (string escapes with Go's HTML
  escaping, replacement of invalid UTF-8), the parser of the first value of a stream, and the
  rules by which \<open>Decoder.Decode\<close> fills a struct: field names match exactly or up to case
  folding, \<open>null\<close> leaves a field alone, a second occurrence of a field is decoded over the
  first, and with \<open>DisallowUnknownFields\<close> any other name is an error. The depth limit of
  10000 nested values is not modelled.
\<close>

section \<open>Values and their text\<close>

datatype json =
    JNull
  | JBool bool
  | JNum string
  | JStr string
  | JArr "json list"
  | JObj "(string \<times> json) list"

definition quote :: char where "quote = CHR 0x22"
definition backslash :: char where "backslash = CHR 0x5C"

text \<open>\<open>utf8.EncodeRune\<close>.\<close>

definition encode_rune :: "nat \<Rightarrow> bytes" where
  "encode_rune r =
     (if r < 128 then [byte_of r]
      else if r < 2048 then [byte_of (192 + r div 64), byte_of (128 + r mod 64)]
      else if (55296 \<le> r \<and> r \<le> 57343) \<or> 1114111 < r then map byte_of [239, 191, 189]
      else if r < 65536 then
        map byte_of [224 + r div 4096, 128 + r div 64 mod 64, 128 + r mod 64]
      else map byte_of [240 + r div 262144, 128 + r div 4096 mod 64, 128 + r div 64 mod 64, 128 + r mod 64])"

abbreviation replacement :: bytes where
  "replacement \<equiv> map byte_of [239, 191, 189]"

text \<open>\<open>appendString\<close> with HTML escaping: the text of one code point and of a string.\<close>

definition u_escape :: "nat \<Rightarrow> string" where
  "u_escape n = [backslash, CHR ''u'', hex_digit (n div 4096 mod 16), hex_digit (n div 256 mod 16),
                 hex_digit (n div 16 mod 16), hex_digit (n mod 16)]"

definition esc_ascii :: "char \<Rightarrow> string" where
  "esc_ascii c =
     (let b = byte_val c in
      if c = quote \<or> c = backslash then [backslash, c]
      else if b = 8 then [backslash, CHR ''b'']
      else if b = 12 then [backslash, CHR ''f'']
      else if b = 10 then [backslash, CHR ''n'']
      else if b = 13 then [backslash, CHR ''r'']
      else if b = 9 then [backslash, CHR ''t'']
      else if b < 32 \<or> c = CHR ''<'' \<or> c = CHR ''>'' \<or> c = CHR ''&'' then u_escape b
      else [c])"

definition esc_rune :: "nat \<times> string \<Rightarrow> string" where
  "esc_rune p =
     (case p of (r, bs) \<Rightarrow>
        if r < 128 then esc_ascii (hd bs)
        else if r = rune_error \<and> length bs = 1 then u_escape 65533
        else if r = 8232 \<or> r = 8233 then u_escape r
        else bs)"

definition print_string :: "string \<Rightarrow> string" where
  "print_string s = quote # concat (map esc_rune (runes s)) @ [quote]"

fun sep_by :: "string \<Rightarrow> string list \<Rightarrow> string" where
  "sep_by sep [] = []"
| "sep_by sep [x] = x"
| "sep_by sep (x # y # xs) = x @ sep @ sep_by sep (y # xs)"

fun print_json :: "json \<Rightarrow> string" where
  "print_json JNull = ''null''"
| "print_json (JBool b) = (if b then ''true'' else ''false'')"
| "print_json (JNum n) = n"
| "print_json (JStr s) = print_string s"
| "print_json (JArr vs) = ''['' @ sep_by '','' (map print_json vs) @ '']''"
| "print_json (JObj ms) =
     ''{'' @ sep_by '','' (map (\<lambda>m. print_string (fst m) @ '':'' @ print_json (snd m)) ms) @ ''}''"

section \<open>Reading a string\<close>

fun hex4 :: "string \<Rightarrow> nat option" where
  "hex4 (a # b # c # d # _) =
     (case (unhex_digit a, unhex_digit b, unhex_digit c, unhex_digit d) of
        (Some w, Some x, Some y, Some z) \<Rightarrow> Some (w * 4096 + x * 256 + y * 16 + z)
      | _ \<Rightarrow> None)"
| "hex4 _ = None"

definition surrogate :: "nat \<Rightarrow> bool" where
  "surrogate r \<longleftrightarrow> 55296 \<le> r \<and> r < 57344"

text \<open>
  A \<open>\u\<close> escape with what follows its four digits: the bytes it stands for and how many more
  bytes of the input it consumes. A valid surrogate pair consumes the second escape too; a
  lone surrogate is the replacement character.
\<close>

definition u_decode :: "nat \<Rightarrow> string \<Rightarrow> bytes \<times> nat" where
  "u_decode r t =
     (if surrogate r then
        (case (take 2 t = [backslash, CHR ''u''], hex4 (drop 2 t)) of
           (True, Some r2) \<Rightarrow>
             if r < 56320 \<and> 56320 \<le> r2 \<and> r2 < 57344
             then (encode_rune ((r - 55296) * 1024 + (r2 - 56320) + 65536), 6)
             else (replacement, 0)
         | _ \<Rightarrow> (replacement, 0))
      else (encode_rune r, 0))"

definition simple_escape :: "char \<Rightarrow> char option" where
  "simple_escape e =
     (if e = quote \<or> e = backslash \<or> e = CHR ''/'' then Some e
      else if e = CHR ''b'' then Some (byte_of 8)
      else if e = CHR ''f'' then Some (byte_of 12)
      else if e = CHR ''n'' then Some (byte_of 10)
      else if e = CHR ''r'' then Some (byte_of 13)
      else if e = CHR ''t'' then Some (byte_of 9)
      else None)"

definition push :: "bytes \<Rightarrow> (bytes \<times> string) option \<Rightarrow> (bytes \<times> string) option" where
  "push b r = map_option (\<lambda>(x, rest). (b @ x, rest)) r"

text \<open>The rest of a string behind its opening quote, and the input behind its closing quote.\<close>

fun json_str :: "string \<Rightarrow> (bytes \<times> string) option" where
  "json_str [] = None"
| "json_str (c # s) =
     (if c = quote then Some ([], s)
      else if c = backslash then
        (case s of
           [] \<Rightarrow> None
         | e # t \<Rightarrow>
             if e = CHR ''u'' then
               (case hex4 t of
                  None \<Rightarrow> None
                | Some r \<Rightarrow> push (fst (u_decode r (drop 4 t)))
                              (json_str (drop (4 + snd (u_decode r (drop 4 t))) t)))
             else (case simple_escape e of None \<Rightarrow> None | Some b \<Rightarrow> push [b] (json_str t)))
      else if byte_val c < 32 then None
      else if byte_val c < 128 then push [c] (json_str s)
      else (case decode_rune c s of
              (r, w) \<Rightarrow> push (if w = 1 then replacement else c # take (w - 1) s)
                         (json_str (drop (w - 1) s))))"

declare json_str.simps(2) [simp del]

lemma json_str_quote: "json_str (quote # s) = Some ([], s)"
  by (simp add: json_str.simps(2))

lemma push_Some: "push b r = Some (x, rest) \<longleftrightarrow> (\<exists>y. r = Some (y, rest) \<and> x = b @ y)"
  by (auto simp: push_def)

lemma push_simps [simp]: "push b None = None" "push b (Some (x, rest)) = Some (b @ x, rest)"
  "push a (push b r) = push (a @ b) r"
  by (auto simp: push_def option.map_comp comp_def case_prod_unfold)

lemma json_str_shorter: "json_str s = Some (x, rest) \<Longrightarrow> length rest < length s"
proof (induction s arbitrary: x rest rule: json_str.induct)
  case (2 c s)
  consider "c = quote" | "c = backslash" "c \<noteq> quote" | "byte_val c < 128" "c \<noteq> backslash" "c \<noteq> quote"
    | "128 \<le> byte_val c" "c \<noteq> backslash" "c \<noteq> quote" by linarith
  then show ?case
  proof cases
    case 1
    then show ?thesis using "2.prems" by (simp add: json_str_quote)
  next
    case 2
    then obtain e t where s: "s = e # t" using "2.prems" by (cases s) (auto simp: json_str.simps(2))
    show ?thesis
    proof (cases "e = CHR ''u''")
      case True
      then obtain r where "hex4 t = Some r"
        using "2.prems" 2 s by (auto simp: json_str.simps(2) split: option.splits)
      then show ?thesis using "2.IH"(1) "2.prems" 2 s True
        by (fastforce simp: json_str.simps(2) push_Some)
    next
      case False
      then show ?thesis using "2.IH"(2) "2.prems" 2 s
        by (fastforce simp: json_str.simps(2) push_Some split: option.splits)
    qed
  next
    case 3
    then show ?thesis using "2.IH"(3) "2.prems"
      by (fastforce simp: json_str.simps(2) push_Some split: if_splits)
  next
    case 4
    then show ?thesis using "2.IH"(4) "2.prems"
      by (fastforce simp: json_str.simps(2) push_Some split: if_splits prod.splits)
  qed
qed simp

section \<open>Reading a string back\<close>

text \<open>What a printed string reads back as: itself, with invalid bytes replaced.\<close>

definition sanitize :: "string \<Rightarrow> string" where
  "sanitize s = concat (map (\<lambda>(r, bs). if r = rune_error \<and> length bs = 1 then replacement else bs) (runes s))"

definition valid_utf8 :: "string \<Rightarrow> bool" where
  "valid_utf8 s \<longleftrightarrow> (\<forall>p \<in> set (runes s). \<not> (fst p = rune_error \<and> length (snd p) = 1))"

lemma sanitize_valid: "valid_utf8 s \<Longrightarrow> sanitize s = s"
proof -
  assume v: "valid_utf8 s"
  have "map (\<lambda>(r, bs). if r = rune_error \<and> length bs = 1 then replacement else bs) (runes s) = map snd (runes s)"
    using v by (auto simp: valid_utf8_def split: prod.splits)
  moreover have "concat (map snd (runes s)) = s"
    using rune_bytes_runes [of s] by (simp only: rune_bytes_def)
  ultimately show ?thesis by (simp only: sanitize_def)
qed

lemma ascii_valid_utf8: "ascii s \<Longrightarrow> valid_utf8 s"
  by (auto simp: valid_utf8_def runes_ascii ascii_def rune_error_def)

lemma hex_digit_val: "n < 16 \<Longrightarrow> unhex_digit (hex_digit n) = Some n"
  by simp

lemma hex4_u_escape:
  assumes "n < 65536"
  shows "hex4 (drop 2 (u_escape n) @ X) = Some n"
proof -
  have lt: "n div 4096 mod 16 < 16" "n div 256 mod 16 < 16" "n div 16 mod 16 < 16" "n mod 16 < 16"
    by simp_all
  have "n div 4096 mod 16 = n div 4096" using assms by (simp add: div_less_iff_less_mult)
  moreover have "n = n div 4096 * 4096 + n div 256 mod 16 * 256 + n div 16 mod 16 * 16 + n mod 16"
  proof -
    have "n div 16 div 16 = n div 256" "n div 256 div 16 = n div 4096"
      by (simp_all flip: div_mult2_eq)
    then show ?thesis
      using div_mult_mod_eq [of n 16] div_mult_mod_eq [of "n div 16" 16] div_mult_mod_eq [of "n div 256" 16]
      by linarith
  qed
  ultimately show ?thesis using lt by (simp add: u_escape_def)
qed

lemma json_str_u_escape:
  assumes "n < 65536" "\<not> surrogate n"
  shows "json_str (u_escape n @ X) = push (encode_rune n) (json_str X)"
proof -
  have u: "u_escape n = backslash # CHR ''u'' # drop 2 (u_escape n)" and l: "length (drop 2 (u_escape n)) = 4"
    by (simp_all add: u_escape_def)
  have "json_str (backslash # CHR ''u'' # (drop 2 (u_escape n) @ X)) = push (encode_rune n) (json_str X)"
    using hex4_u_escape [OF assms(1), of X] assms(2) l
    by (simp add: json_str.simps(2) u_decode_def quote_def backslash_def)
  then show ?thesis using u by (metis append_Cons)
qed

lemma json_str_simple:
  "simple_escape e = Some b \<Longrightarrow> json_str (backslash # e # X) = push [b] (json_str X)"
  by (auto simp: json_str.simps(2) simple_escape_def quote_def backslash_def split: if_splits)

lemma json_str_esc_ascii:
  assumes "byte_val c < 128"
  shows "json_str (esc_ascii c @ X) = push [c] (json_str X)"
proof -
  have b: "byte_val c = n \<Longrightarrow> c = byte_of n" for n by auto
  consider "c = quote \<or> c = backslash"
    | "c \<noteq> quote" "c \<noteq> backslash" "byte_val c \<in> {8, 12, 10, 13, 9}"
    | "c \<noteq> quote" "c \<noteq> backslash" "byte_val c \<notin> {8, 12, 10, 13, 9}"
      "byte_val c < 32 \<or> c = CHR ''<'' \<or> c = CHR ''>'' \<or> c = CHR ''&''"
    | "c \<noteq> quote" "c \<noteq> backslash" "byte_val c \<notin> {8, 12, 10, 13, 9}"
      "\<not> (byte_val c < 32 \<or> c = CHR ''<'' \<or> c = CHR ''>'' \<or> c = CHR ''&'')"
    by blast
  then show ?thesis
  proof cases
    case 1
    then have "esc_ascii c = [backslash, c]" by (auto simp: esc_ascii_def Let_def)
    then show ?thesis using json_str_simple [of c c X] 1 by (auto simp: simple_escape_def)
  next
    case 2
    have sh: "simple_escape (CHR ''b'') = Some (byte_of 8)" "simple_escape (CHR ''f'') = Some (byte_of 12)"
      "simple_escape (CHR ''n'') = Some (byte_of 10)" "simple_escape (CHR ''r'') = Some (byte_of 13)"
      "simple_escape (CHR ''t'') = Some (byte_of 9)"
      by (simp_all add: simple_escape_def quote_def backslash_def)
    from 2 consider "byte_val c = 8" | "byte_val c = 12" | "byte_val c = 10" | "byte_val c = 13" | "byte_val c = 9"
      by blast
    then show ?thesis
    proof cases
      case 1
      then have "esc_ascii c = [backslash, CHR ''b'']" using 2 by (simp add: esc_ascii_def)
      then show ?thesis using json_str_simple [OF sh(1), of X] b [OF 1] by simp
    next
      case 2
      then have "esc_ascii c = [backslash, CHR ''f'']" using \<open>c \<noteq> quote\<close> \<open>c \<noteq> backslash\<close> by (simp add: esc_ascii_def)
      then show ?thesis using json_str_simple [OF sh(2), of X] b [OF 2] by simp
    next
      case 3
      then have "esc_ascii c = [backslash, CHR ''n'']" using \<open>c \<noteq> quote\<close> \<open>c \<noteq> backslash\<close> by (simp add: esc_ascii_def)
      then show ?thesis using json_str_simple [OF sh(3), of X] b [OF 3] by simp
    next
      case 4
      then have "esc_ascii c = [backslash, CHR ''r'']" using \<open>c \<noteq> quote\<close> \<open>c \<noteq> backslash\<close> by (simp add: esc_ascii_def)
      then show ?thesis using json_str_simple [OF sh(4), of X] b [OF 4] by simp
    next
      case 5
      then have "esc_ascii c = [backslash, CHR ''t'']" using \<open>c \<noteq> quote\<close> \<open>c \<noteq> backslash\<close> by (simp add: esc_ascii_def)
      then show ?thesis using json_str_simple [OF sh(5), of X] b [OF 5] by simp
    qed
  next
    case 3
    then have "esc_ascii c = u_escape (byte_val c)" by (auto simp: esc_ascii_def Let_def)
    moreover have "\<not> surrogate (byte_val c)" "encode_rune (byte_val c) = [c]"
      using assms by (auto simp: surrogate_def encode_rune_def)
    ultimately show ?thesis using json_str_u_escape [of "byte_val c" X] assms by simp
  next
    case 4
    then have "esc_ascii c = [c]" by (simp add: esc_ascii_def Let_def)
    then show ?thesis using assms 4 by (simp add: json_str.simps(2))
  qed
qed

end
