(* ===== verification/Go_Json_Roundtrip.thy ===== *)
theory Go_Json_Roundtrip
  imports Go_Json_Parse
begin

text \<open>
  The fuel of \<open>json_first\<close> is enough for every input, a value that was printed is read back,
  and the frame that decodes an object into a struct.
\<close>

section \<open>Fuel\<close>

lemma skip_ws_length: "length (skip_ws s) \<le> length s"
  by (rule length_dropWhile_le)

lemma skip_ws_Cons: "skip_ws s = c # t \<Longrightarrow> length t < length s"
  using skip_ws_length [of s] by simp

lemma literal_length: "literal w v s = Some (x, r) \<Longrightarrow> w \<noteq> [] \<Longrightarrow> s \<noteq> [] \<Longrightarrow> length r < length s"
  by (auto simp: literal_def split: if_splits)

lemma take_digits_length: "take_digits s = (d, r) \<Longrightarrow> length r \<le> length s"
  by (auto simp: take_digits_def length_dropWhile_le)

lemma num_int_length: "num_int s = Some (i, r) \<Longrightarrow> length r < length s"
  by (cases s) (auto simp: num_int_def take_digits_def less_Suc_eq_le length_dropWhile_le split: if_splits)

lemma num_frac_length: "num_frac s = Some (i, r) \<Longrightarrow> length r \<le> length s"
  by (cases s) (auto simp: num_frac_def take_digits_def le_SucI length_dropWhile_le split: if_splits)

lemma num_exp_length: "num_exp s = Some (i, r) \<Longrightarrow> length r \<le> length s"
  by (auto simp: num_exp_def take_digits_def Let_def split: list.splits if_splits)
    (meson le_SucI length_dropWhile_le)+

lemma json_num_length:
  assumes "json_num s = Some (x, r)"
  shows "length r < length s"
proof -
  obtain sg s0 where s0: "(case s of c # t \<Rightarrow> if c = CHR ''-'' then ([c], t) else ([], s) | [] \<Rightarrow> ([], [])) = (sg, s0)"
    by fastforce
  then have "length s0 \<le> length s" by (auto split: list.splits if_splits)
  moreover obtain i s1 f s2 y where "num_int s0 = Some (i, s1)" "num_frac s1 = Some (f, s2)" "num_exp s2 = Some (y, r)"
    using assms s0 by (auto simp: json_num_def split: option.splits)
  ultimately show ?thesis
    using num_int_length num_frac_length num_exp_length by fastforce
qed

lemma parse_shorter:
  "(\<forall>s v r. parse_value n s = Some (v, r) \<longrightarrow> length r < length s) \<and>
   (\<forall>s v r. parse_elems n s = Some (v, r) \<longrightarrow> length r < length s) \<and>
   (\<forall>s v r. parse_members n s = Some (v, r) \<longrightarrow> length r < length s)"
proof (induction n)
  case (Suc n)
  have sk: "skip_ws s = c # t \<Longrightarrow> length t < length s" "skip_ws s = c # t \<Longrightarrow> length (c # t) \<le> length s" for s c t
    using skip_ws_length [of s] by auto
  have V: "length r < length s" if v: "parse_value (Suc n) s = Some (v, r)" for s v r
  proof -
    from v obtain c t where ct: "skip_ws s = c # t" by (auto split: list.splits)
    have tl: "skip_ws t \<noteq> [] \<Longrightarrow> length (tl (skip_ws t)) < length t"
      using skip_ws_length [of t] by (cases "skip_ws t") auto
    have "length r < length (c # t)"
      using v ct Suc tl
      by (auto split: if_splits dest!: json_str_shorter json_num_length literal_length intro: less_SucI)
    then show ?thesis using sk(2) [OF ct] by linarith
  qed
  have E: "length r < length s" if e: "parse_elems (Suc n) s = Some (vs, r)" for s vs r
  proof -
    from e obtain v r1 c t where 1: "parse_value n s = Some (v, r1)" and 2: "skip_ws r1 = c # t"
      by (auto split: option.splits list.splits)
    have "length r1 < length s" "length t < length r1" using Suc 1 sk(1) [OF 2] by auto
    moreover have "length r \<le> length t"
      using e 1 2 Suc by (auto split: if_splits) (meson order_less_imp_le)
    ultimately show ?thesis by linarith
  qed
  have M: "length r < length s" if m: "parse_members (Suc n) s = Some (vs, r)" for s vs r
  proof -
    from m obtain t k r0 r1 v r2 d r3 where 1: "skip_ws s = quote # t" "json_str t = Some (k, r0)"
      "skip_ws r0 = CHR '':'' # r1" "parse_value n r1 = Some (v, r2)" "skip_ws r2 = d # r3"
      by (auto split: option.splits list.splits if_splits)
    have "length t < length s" "length r0 < length t" "length r1 < length r0" "length r3 < length r2"
      using sk(1) 1 json_str_shorter by blast+
    moreover have "length r2 < length r1" using Suc 1 by blast
    moreover have "length r \<le> length r3"
      using m 1 Suc by (auto split: if_splits) (meson order_less_imp_le)
    ultimately show ?thesis by linarith
  qed
  from V E M show ?case by blast
qed simp

lemmas parse_value_shorter = parse_shorter [THEN conjunct1, rule_format]

text \<open>A member list starts with a quoted key and a colon, or is refused with any fuel.\<close>

lemma members_head_cases:
  assumes no: "(\<And>n. parse_members (Suc n) s = None) \<Longrightarrow> P"
    and yes: "\<And>t k r0 r1. skip_ws s = quote # t \<Longrightarrow> json_str t = Some (k, r0) \<Longrightarrow>
                skip_ws r0 = CHR '':'' # r1 \<Longrightarrow> P"
  shows P
proof (cases "skip_ws s")
  case Nil
  then show ?thesis by (intro no) (simp only: parse_members.simps list.case)
next
  case (Cons q t)
  note s = Cons
  show ?thesis
  proof (cases "q = quote")
    case False
    then show ?thesis by (intro no) (simp only: parse_members.simps s list.case if_not_P if_P simp_thms if_True)
  next
    case True
    show ?thesis
    proof (cases "json_str t")
      case None
      then show ?thesis
        by (intro no) (simp only: parse_members.simps s list.case True simp_thms if_False option.case)
    next
      case (Some p)
      obtain k r0 where p: "p = (k, r0)" by fastforce
      show ?thesis
      proof (cases "skip_ws r0")
        case Nil
        then show ?thesis
          by (intro no) (simp only: parse_members.simps s list.case True simp_thms if_False option.case Some p prod.case)
      next
        case (Cons c r1)
        then show ?thesis
          by (cases "c = CHR '':''")
            (use yes s True Some p in blast,
             intro no, simp only: parse_members.simps s list.case True simp_thms if_False if_True option.case Some p prod.case)
      qed
    qed
  qed
qed

lemma parse_fuel_step:
  "(\<forall>s. 2 * length s + 2 \<le> n \<longrightarrow> parse_value (Suc n) s = parse_value n s) \<and>
   (\<forall>s. 2 * length s + 3 \<le> n \<longrightarrow> parse_elems (Suc n) s = parse_elems n s) \<and>
   (\<forall>s. 2 * length s + 3 \<le> n \<longrightarrow> parse_members (Suc n) s = parse_members n s)"
proof (induction n)
  case (Suc n)
  have V: "parse_value (Suc (Suc n)) s = parse_value (Suc n) s" if "2 * length s + 2 \<le> Suc n" for s
  proof (cases "skip_ws s")
    case (Cons c t)
    then have "2 * length t + 3 \<le> n" using skip_ws_Cons [OF Cons] that by linarith
    then have "parse_elems (Suc n) t = parse_elems n t" "parse_members (Suc n) t = parse_members n t"
      using Suc by blast+
    then show ?thesis using Cons by (simp only: parse_value.simps list.case)
  qed (simp only: parse_value.simps list.case)
  have E: "parse_elems (Suc (Suc n)) s = parse_elems (Suc n) s" if "2 * length s + 3 \<le> Suc n" for s
  proof -
    have v: "parse_value (Suc n) s = parse_value n s" using Suc that by simp
    show ?thesis
    proof (cases "parse_value n s")
      case None
      then show ?thesis using v by (simp only: parse_elems.simps option.case)
    next
      case (Some p)
      obtain x r where p: "p = (x, r)" by fastforce
      have r: "length r < length s" using parse_value_shorter Some p by blast
      show ?thesis
      proof (cases "skip_ws r")
        case Nil
        then show ?thesis using v Some p by (simp only: parse_elems.simps option.case prod.case list.case)
      next
        case (Cons c t)
        then have "parse_elems (Suc n) t = parse_elems n t"
          using skip_ws_Cons [OF Cons] r that Suc by simp
        then show ?thesis using v Some p Cons
          by (simp only: parse_elems.simps option.case prod.case list.case)
      qed
    qed
  qed
  have M: "parse_members (Suc (Suc n)) s = parse_members (Suc n) s" if len: "2 * length s + 3 \<le> Suc n" for s
  proof (rule members_head_cases [of s])
    assume no: "\<And>n. parse_members (Suc n) s = None"
    show ?thesis by (simp only: no)
  next
    fix t k r0 r1
    assume 1: "skip_ws s = quote # t" "json_str t = Some (k, r0)" "skip_ws r0 = CHR '':'' # r1"
    have l1: "length r1 < length s"
      using skip_ws_Cons [OF 1(1)] json_str_shorter [OF 1(2)] skip_ws_Cons [OF 1(3)] by linarith
    then have v: "parse_value (Suc n) r1 = parse_value n r1" using Suc len by simp
    show ?thesis
    proof (cases "parse_value n r1")
      case None
      then show ?thesis using 1 v
        by (simp only: parse_members.simps option.case prod.case list.case)
    next
      case (Some p)
      obtain x r2 where p: "p = (x, r2)" by fastforce
      show ?thesis
      proof (cases "skip_ws r2")
        case Nil
        then show ?thesis using 1 v Some p
          by (simp only: parse_members.simps option.case prod.case list.case)
      next
        case (Cons d r3)
        then have "parse_members (Suc n) r3 = parse_members n r3"
          using parse_value_shorter [of n r1 x r2] skip_ws_Cons [OF Cons] l1 len Suc Some p by simp
        then show ?thesis using 1 v Some p Cons
          by (simp only: parse_members.simps option.case prod.case list.case)
      qed
    qed
  qed
  from V E M show ?case by blast
qed simp

text \<open>More fuel than \<open>json_first\<close> takes never changes its answer.\<close>

theorem json_first_fuel: "2 * length s + 2 \<le> n \<Longrightarrow> json_first s = map_option fst (parse_value n s)"
proof (induction n rule: dec_induct)
  case (step n)
  then show ?case using parse_fuel_step [of n] by simp
qed (simp add: json_first_def)

section \<open>Printed values read back\<close>

text \<open>The values the program prints: no bare numbers, and strings of valid UTF-8.\<close>

fun printable :: "json \<Rightarrow> bool" where
  "printable JNull = True"
| "printable (JBool b) = True"
| "printable (JNum n) = False"
| "printable (JStr s) = valid_utf8 s"
| "printable (JArr vs) = (\<forall>v \<in> set vs. printable v)"
| "printable (JObj ms) = (\<forall>m \<in> set ms. valid_utf8 (fst m) \<and> printable (snd m))"

definition reads_back :: "json \<Rightarrow> bool" where
  "reads_back v \<longleftrightarrow> (\<exists>n0. \<forall>n \<ge> n0. \<forall>X. parse_value n (print_json v @ X) = Some (v, X))"

lemma print_string_quote: "print_string s = quote # tl (print_string s)"
  by (simp add: print_string_def)

lemma ws_facts: "\<not> ws quote" "\<not> ws (CHR ''['')" "\<not> ws (CHR ''{'')" "\<not> ws (CHR '','')" "\<not> ws (CHR '']'')"
  "\<not> ws (CHR ''}'')" "\<not> ws (CHR '':'')" "\<not> ws (CHR ''n'')" "\<not> ws (CHR ''t'')" "\<not> ws (CHR ''f'')"
  by (simp_all add: ws_def quote_def)

lemma print_json_start:
  "printable v \<Longrightarrow> \<exists>c t. print_json v = c # t \<and> \<not> ws c \<and> c \<noteq> CHR '']'' \<and> c \<noteq> CHR ''}''"
proof (cases v)
  case (JStr s)
  then have "print_json v = quote # tl (print_string s)" by (simp add: print_string_def)
  then show ?thesis using ws_facts(1) by (simp add: quote_def)
qed (use ws_facts in \<open>auto simp: quote_def\<close>)

lemma json_str_printed: "valid_utf8 s \<Longrightarrow> json_str (tl (print_string s) @ X) = Some (s, X)"
  using json_str_print_string [of s X] by (simp add: sanitize_valid)

lemma parse_value_Suc: "n \<noteq> 0 \<Longrightarrow> \<exists>m. n = Suc m"
  by (cases n) auto

lemma sep_by_start: "\<exists>u. sep_by sep (x # xs) = x @ u"
  by (cases xs) auto

lemma reads_back_elems:
  assumes "\<forall>v \<in> set vs. reads_back v" "vs \<noteq> []"
  shows "\<exists>n0. \<forall>n \<ge> n0. \<forall>X. parse_elems n (sep_by '','' (map print_json vs) @ CHR '']'' # X) = Some (vs, X)"
  using assms
proof (induction vs)
  case (Cons v vs)
  from Cons.prems have "reads_back v" by simp
  then obtain n0 where n0: "\<And>n X. n \<ge> n0 \<Longrightarrow> parse_value n (print_json v @ X) = Some (v, X)"
    unfolding reads_back_def by blast
  show ?case
  proof (cases vs)
    case Nil
    have "parse_elems n (print_json v @ CHR '']'' # X) = Some ([v], X)" if "Suc n0 \<le> n" for n X
      using that n0 ws_facts by (cases n) simp_all
    then show ?thesis using Nil by auto
  next
    case (Cons w ws')
    then obtain n1 where n1: "\<And>n X. n \<ge> n1 \<Longrightarrow> parse_elems n (sep_by '','' (map print_json vs) @ CHR '']'' # X) = Some (vs, X)"
      using Cons.IH Cons.prems by fastforce
    have sep: "sep_by '','' (map print_json (v # vs)) = print_json v @ CHR '','' # sep_by '','' (map print_json vs)"
      using Cons by simp
    have "parse_elems n (sep_by '','' (map print_json (v # vs)) @ CHR '']'' # X) = Some (v # vs, X)"
      if "Suc (max n0 n1) \<le> n" for n X
    proof -
      from that obtain m where m: "n = Suc m" "n0 \<le> m" "n1 \<le> m" by (cases n) auto
      show ?thesis using n0 [OF m(2)] n1 [OF m(3)] ws_facts by (simp only: sep m(1)) simp
    qed
    then show ?thesis by blast
  qed
qed simp

lemma reads_back_members:
  assumes "\<forall>m \<in> set ms. valid_utf8 (fst m) \<and> reads_back (snd m)" "ms \<noteq> []"
  shows "\<exists>n0. \<forall>n \<ge> n0. \<forall>X. parse_members n
    (sep_by '','' (map (\<lambda>m. print_string (fst m) @ '':'' @ print_json (snd m)) ms) @ CHR ''}'' # X) = Some (ms, X)"
  using assms
proof (induction ms)
  case (Cons m ms)
  let ?pr = "\<lambda>m. print_string (fst m) @ '':'' @ print_json (snd m)"
  from Cons.prems have "reads_back (snd m)" by simp
  then obtain n0 where n0: "\<And>n X. n \<ge> n0 \<Longrightarrow> parse_value n (print_json (snd m) @ X) = Some (snd m, X)"
    unfolding reads_back_def by blast
  have u: "valid_utf8 (fst m)" using Cons.prems by simp
  have sk: "skip_ws (?pr m @ X) = quote # tl (print_string (fst m)) @ CHR '':'' # print_json (snd m) @ X" for X
    using ws_facts(1) by (subst print_string_quote) simp
  show ?case
  proof (cases ms)
    case Nil
    have "parse_members n (?pr m @ CHR ''}'' # X) = Some ([m], X)" if "Suc n0 \<le> n" for n X
      using that n0 ws_facts sk [of "CHR ''}'' # X"] json_str_printed [OF u] by (cases n) simp_all
    then show ?thesis using Nil by auto
  next
    case (Cons w ms')
    then obtain n1 where n1: "\<And>n X. n \<ge> n1 \<Longrightarrow> parse_members n (sep_by '','' (map ?pr ms) @ CHR ''}'' # X) = Some (ms, X)"
      using Cons.IH Cons.prems by fastforce
    have sep: "sep_by '','' (map ?pr (m # ms)) = ?pr m @ CHR '','' # sep_by '','' (map ?pr ms)"
      using Cons by simp
    have "parse_members n (sep_by '','' (map ?pr (m # ms)) @ CHR ''}'' # X) = Some (m # ms, X)"
      if "Suc (max n0 n1) \<le> n" for n X
    proof -
      from that obtain k where k: "n = Suc k" "n0 \<le> k" "n1 \<le> k" by (cases n) auto
      have "skip_ws (sep_by '','' (map ?pr (m # ms)) @ CHR ''}'' # X)
          = quote # tl (print_string (fst m)) @ CHR '':'' # print_json (snd m) @ CHR '','' # sep_by '','' (map ?pr ms) @ CHR ''}'' # X"
        unfolding sep using sk by simp
      then show ?thesis using n0 [OF k(2)] n1 [OF k(3)] ws_facts json_str_printed [OF u]
        by (simp only: k(1) parse_members.simps list.case option.case prod.case) simp
    qed
    then show ?thesis by blast
  qed
qed simp

lemma reads_back_all: "printable v \<Longrightarrow> reads_back v"
proof (induction v)
  case (JStr s)
  have "parse_value n (print_json (JStr s) @ X) = Some (JStr s, X)" if "1 \<le> n" for n X
  proof -
    have e: "print_json (JStr s) @ X = quote # tl (print_string s) @ X" by (simp add: print_string_def)
    from that obtain m where "n = Suc m" by (cases n) auto
    then show ?thesis unfolding e using JStr ws_facts(1) json_str_printed [of s X] by simp
  qed
  then show ?case unfolding reads_back_def by blast
next
  case (JArr vs)
  show ?case
  proof (cases "vs = []")
    case True
    have "parse_value n (print_json (JArr []) @ X) = Some (JArr [], X)" if "1 \<le> n" for n X
      using that ws_facts by (cases n) (simp_all add: quote_def)
    then show ?thesis unfolding True reads_back_def by blast
  next
    case False
    have "\<forall>v \<in> set vs. reads_back v" using JArr by simp
    from reads_back_elems [OF this False]
    obtain n0 where n0: "\<And>n X. n \<ge> n0 \<Longrightarrow> parse_elems n (sep_by '','' (map print_json vs) @ CHR '']'' # X) = Some (vs, X)"
      by blast
    obtain c t where c: "sep_by '','' (map print_json vs) = c # t" "\<not> ws c" "c \<noteq> CHR '']''"
    proof -
      obtain v vs' where vs: "vs = v # vs'" using False by (cases vs) auto
      then obtain c t where "print_json v = c # t" "\<not> ws c" "c \<noteq> CHR '']''"
        using print_json_start [of v] JArr.prems by auto
      moreover obtain u where "sep_by '','' (map print_json vs) = print_json v @ u"
        using sep_by_start [of "'',''" "print_json v" "map print_json vs'"] vs by auto
      ultimately show ?thesis using that by simp
    qed
    have "parse_value n (print_json (JArr vs) @ X) = Some (JArr vs, X)" if "Suc n0 \<le> n" for n X
    proof -
      from that obtain m where m: "n = Suc m" "n0 \<le> m" by (cases n) auto
      show ?thesis using n0 [OF m(2)] ws_facts c by (simp add: m(1) quote_def)
    qed
    then show ?thesis unfolding reads_back_def by blast
  qed
next
  case (JObj ms)
  let ?pr = "\<lambda>m. print_string (fst m) @ '':'' @ print_json (snd m)"
  have rb: "\<forall>m \<in> set ms. valid_utf8 (fst m) \<and> reads_back (snd m)"
    using JObj by (metis eq_snd_iff printable.simps(6) snds.intros)
  show ?case
  proof (cases "ms = []")
    case True
    have "parse_value n (print_json (JObj []) @ X) = Some (JObj [], X)" if "1 \<le> n" for n X
      using that ws_facts by (cases n) (simp_all add: quote_def)
    then show ?thesis unfolding True reads_back_def by blast
  next
    case False
    from reads_back_members [OF rb False]
    obtain n0 where n0: "\<And>n X. n \<ge> n0 \<Longrightarrow> parse_members n (sep_by '','' (map ?pr ms) @ CHR ''}'' # X) = Some (ms, X)"
      by blast
    obtain t where c: "sep_by '','' (map ?pr ms) = quote # t"
    proof -
      obtain m ms' where ms: "ms = m # ms'" using False by (cases ms) auto
      obtain u where "sep_by '','' (map ?pr ms) = ?pr m @ u"
        using sep_by_start [of "'',''" "?pr m" "map ?pr ms'"] ms by auto
      moreover have "?pr m @ u = quote # (tl (print_string (fst m)) @ '':'' @ print_json (snd m) @ u)"
        by (subst print_string_quote) simp
      ultimately show ?thesis using that [OF trans] by blast
    qed
    have "parse_value n (print_json (JObj ms) @ X) = Some (JObj ms, X)" if "Suc n0 \<le> n" for n X
    proof -
      from that obtain m where m: "n = Suc m" "n0 \<le> m" by (cases n) auto
      show ?thesis using n0 [OF m(2)] ws_facts c by (simp add: m(1) quote_def)
    qed
    then show ?thesis unfolding reads_back_def by blast
  qed
next
  case JNull
  have "parse_value n (print_json JNull @ X) = Some (JNull, X)" if "1 \<le> n" for n X
    using that ws_facts by (cases n) (simp_all add: literal_def quote_def)
  then show ?case unfolding reads_back_def by blast
next
  case (JBool b)
  have "parse_value n (print_json (JBool b) @ X) = Some (JBool b, X)" if "1 \<le> n" for n X
    using that ws_facts by (cases n; cases b) (simp_all add: literal_def quote_def)
  then show ?case unfolding reads_back_def by blast
qed simp

theorem json_first_print:
  assumes "printable v"
  shows "json_first (print_json v @ X) = Some v"
proof -
  obtain n0 where n0: "\<And>n. n \<ge> n0 \<Longrightarrow> parse_value n (print_json v @ X) = Some (v, X)"
    using reads_back_all [OF assms] unfolding reads_back_def by blast
  have "json_first (print_json v @ X)
      = map_option fst (parse_value (max n0 (2 * length (print_json v @ X) + 2)) (print_json v @ X))"
    by (rule json_first_fuel) simp
  then show ?thesis using n0 by simp
qed

section \<open>Filling a struct\<close>

datatype json_error = JsonSyntax | UnknownField string | TypeMismatch

text \<open>
  \<open>foldName\<close>: names are compared in upper case; besides the ASCII letters only U+017F and
  U+212A fold to ASCII (to S and K).
\<close>

definition fold_name :: "string \<Rightarrow> string" where
  "fold_name k =
     concat (map (\<lambda>p. if fst p = 383 then ''S'' else if fst p = 8490 then ''K'' else map upper_byte (snd p)) (runes k))"

definition field_is :: "string \<Rightarrow> string \<Rightarrow> bool" where
  "field_is name k \<longleftrightarrow> k = name \<or> fold_name k = map upper_byte name"

text \<open>The loop over the members of an object: each updates the struct, the first error wins.\<close>

fun decode_members :: "('a \<Rightarrow> string \<Rightarrow> json \<Rightarrow> json_error + 'a) \<Rightarrow> 'a \<Rightarrow> (string \<times> json) list \<Rightarrow> json_error + 'a" where
  "decode_members f x [] = Inr x"
| "decode_members f x ((k, v) # ms) =
     (case f x k v of Inl e \<Rightarrow> Inl e | Inr y \<Rightarrow> decode_members f y ms)"

definition decode_string :: "json \<Rightarrow> string \<Rightarrow> json_error + string" where
  "decode_string v old = (case v of JNull \<Rightarrow> Inr old | JStr s \<Rightarrow> Inr s | _ \<Rightarrow> Inl TypeMismatch)"

text \<open>Elements of a \<open>[]string\<close>: a \<open>null\<close> element keeps what the slice held at its index.\<close>

fun decode_elems :: "json list \<Rightarrow> string list \<Rightarrow> json_error + string list" where
  "decode_elems [] old = Inr []"
| "decode_elems (v # vs) old =
     (case decode_string v (case old of s # _ \<Rightarrow> s | [] \<Rightarrow> []) of
        Inl e \<Rightarrow> Inl e
      | Inr s \<Rightarrow> (case decode_elems vs (drop 1 old) of Inl e \<Rightarrow> Inl e | Inr r \<Rightarrow> Inr (s # r)))"

definition decode_strings :: "json \<Rightarrow> string list \<Rightarrow> json_error + string list" where
  "decode_strings v old = (case v of JNull \<Rightarrow> Inr [] | JArr vs \<Rightarrow> decode_elems vs old | _ \<Rightarrow> Inl TypeMismatch)"

text \<open>A pointer to a struct: \<open>null\<close> clears it, an object is decoded over what it points to.\<close>

definition decode_pointer ::
  "('a \<Rightarrow> string \<Rightarrow> json \<Rightarrow> json_error + 'a) \<Rightarrow> 'a \<Rightarrow> json \<Rightarrow> 'a option \<Rightarrow> json_error + 'a option" where
  "decode_pointer f zero v old =
     (case v of
        JNull \<Rightarrow> Inr None
      | JObj ms \<Rightarrow> (case decode_members f (case old of Some x \<Rightarrow> x | None \<Rightarrow> zero) ms of
                     Inl e \<Rightarrow> Inl e | Inr y \<Rightarrow> Inr (Some y))
      | _ \<Rightarrow> Inl TypeMismatch)"

text \<open>The struct handed to \<open>Decode\<close> itself: \<open>null\<close> changes nothing.\<close>

definition decode_struct ::
  "('a \<Rightarrow> string \<Rightarrow> json \<Rightarrow> json_error + 'a) \<Rightarrow> 'a \<Rightarrow> string \<Rightarrow> json_error + 'a" where
  "decode_struct f zero s =
     (case json_first s of
        None \<Rightarrow> Inl JsonSyntax
      | Some JNull \<Rightarrow> Inr zero
      | Some (JObj ms) \<Rightarrow> decode_members f zero ms
      | Some _ \<Rightarrow> Inl TypeMismatch)"

definition set_field :: "('b \<Rightarrow> 'a) \<Rightarrow> json_error + 'b \<Rightarrow> json_error + 'a" where
  "set_field upd r = (case r of Inl e \<Rightarrow> Inl e | Inr v \<Rightarrow> Inr (upd v))"

lemma set_field_simps [simp]: "set_field u (Inl e) = Inl e" "set_field u (Inr v) = Inr (u v)"
  by (simp_all add: set_field_def)

lemma decode_elems_strings [simp]: "decode_elems (map JStr xs) old = Inr xs"
  by (induction xs arbitrary: old) (auto simp: decode_string_def)

lemma decode_members_append:
  "decode_members f x (as @ bs) =
     (case decode_members f x as of Inl e \<Rightarrow> Inl e | Inr y \<Rightarrow> decode_members f y bs)"
  by (induction f x as rule: decode_members.induct) (auto split: sum.splits)

text \<open>A member that its decoder refuses makes the whole decode fail.\<close>

lemma decode_members_refuses:
  assumes "(k, v) \<in> set ms" "\<And>x. \<exists>e. f x k v = Inl e"
  shows "\<exists>e. decode_members f x ms = Inl e"
  using assms(1)
proof (induction ms arbitrary: x)
  case (Cons m ms)
  then show ?case using assms(2) [of x] by (cases m; cases "f x (fst m) (snd m)") auto
qed simp

end
