(* ===== verification/Seal.thy ===== *)
theory Seal
  imports Environment Logging Sha256 Go_Json_Roundtrip
begin

text \<open>
  \<open>internal/seal/seal.go\<close>: keys and their hex form, the sealed \<open>Secret\<close> with its validation
  rules, the anchor check of the patterns, the control-character check, and the bearer digest.
  A Go pointer field is an option; a 32-byte array is a byte string of length 32.
\<close>

section \<open>Errors\<close>

datatype seal_error =
    InvalidHexKey hex_error
  | BadKeyLength nat
  | ReadFileFailed
  | AuthTagCount nat
  | ProcessorTagCount nat
  | HostFieldsExclusive
  | HostAllowlistRequired
  | InvalidRegex string
  | MustStartAnchored string
  | MustEndAnchored string
  | PathFieldsExclusive
  | DigestRequired
  | TokenRequired
  | ControlChar string nat
  | RandomFailed
  | BoxFailed
  | BadBase64
  | DecryptionFailed
  | UnmarshalFailed json_error

section \<open>Keys\<close>

definition KeyLen :: nat where
  "KeyLen = 32"

type_synonym private_key = bytes
type_synonym public_key = bytes

text \<open>\<open>PrivateKey.Hex\<close> and \<open>PublicKey.Hex\<close>.\<close>

definition key_hex :: "bytes \<Rightarrow> string" where
  "key_hex k = hex_encode k"

definition public_of :: "env \<Rightarrow> private_key \<Rightarrow> public_key" where
  "public_of E priv = scalar_base_mult E priv"

definition parse_private_key :: "string \<Rightarrow> seal_error + private_key" where
  "parse_private_key s =
     (case hex_decode (trim_space s) of
        Inl e \<Rightarrow> Inl (InvalidHexKey e)
      | Inr raw \<Rightarrow> if length raw \<noteq> KeyLen then Inl (BadKeyLength (length raw)) else Inr raw)"

definition parse_public_key :: "string \<Rightarrow> seal_error + public_key" where
  "parse_public_key s =
     (case hex_decode (trim_space s) of
        Inl e \<Rightarrow> Inl (InvalidHexKey e)
      | Inr raw \<Rightarrow> if length raw \<noteq> KeyLen then Inl (BadKeyLength (length raw)) else Inr raw)"

text \<open>\<open>ReadPrivateKeyFile\<close>: the file system is a map from paths to contents.\<close>

definition read_private_key_file :: "(string \<Rightarrow> string option) \<Rightarrow> string \<Rightarrow> seal_error + private_key" where
  "read_private_key_file fs path =
     (case fs path of None \<Rightarrow> Inl ReadFileFailed | Some txt \<Rightarrow> parse_private_key txt)"

text \<open>\<open>GenerateKeypair\<close>: the private key is the random input, the public key derived from it.\<close>

definition generate_keypair :: "env \<Rightarrow> bytes option \<Rightarrow> seal_error + (public_key \<times> private_key)" where
  "generate_keypair E rnd =
     (case rnd of None \<Rightarrow> Inl RandomFailed | Some r \<Rightarrow> Inr (scalar_base_mult E r, r))"

definition parse_key_opt :: "string \<Rightarrow> bytes option" where
  "parse_key_opt s = (case parse_private_key s of Inl _ \<Rightarrow> None | Inr k \<Rightarrow> Some k)"

definition key_of_hex :: "string \<Rightarrow> bytes option" where
  "key_of_hex s =
     (case hex_decode s of Inl _ \<Rightarrow> None | Inr raw \<Rightarrow> if length raw = KeyLen then Some raw else None)"

definition key_ok :: "bytes \<Rightarrow> bool" where
  "key_ok k \<longleftrightarrow> length k = KeyLen"

interpretation key: clean_codec key_hex key_of_hex key_ok trim_space parse_key_opt
  by unfold_locales
    (auto simp: key_hex_def key_of_hex_def parse_key_opt_def parse_private_key_def key_ok_def split: sum.splits)

lemma parse_public_key_eq: "parse_public_key = parse_private_key"
  by (rule ext) (simp add: parse_public_key_def parse_private_key_def)

lemma parse_private_key_Inr: "parse_private_key s = Inr k \<longleftrightarrow> parse_key_opt s = Some k"
  by (auto simp: parse_key_opt_def split: sum.splits)

lemma parse_private_key_length: "parse_private_key s = Inr k \<Longrightarrow> length k = KeyLen"
  by (auto simp: parse_private_key_def split: sum.splits if_splits)

section \<open>The sealed secret\<close>

record bearerAuth =
  digest :: string

record injectHeader =
  token :: string
  format :: string
  header_name :: string
  allowed_formats :: "string list"
  allowed_header_names :: "string list"

record secret =
  bearer_auth :: "bearerAuth option"
  no_auth :: "unit option"
  inject_header :: "injectHeader option"
  allowed_hosts :: "string list"
  allowed_host_pattern :: string
  allowed_path_prefixes :: "string list"
  allowed_path_pattern :: string
  allowed_methods :: "string list"
  name :: string
  euid :: string

definition auth_kind :: "secret \<Rightarrow> string" where
  "auth_kind s = (if bearer_auth s \<noteq> None then ''bearer_auth''
                  else if no_auth s \<noteq> None then ''no_auth'' else ''none'')"

definition processor_kind :: "secret \<Rightarrow> string" where
  "processor_kind s = (if inject_header s \<noteq> None then ''inject_header'' else ''none'')"

text \<open>\<open>Secret.LogValue\<close>: the only view of a secret that is meant for log lines.\<close>

definition secret_log_value :: "secret \<Rightarrow> 'e log_fields" where
  "secret_log_value s =
     [(''auth'', LString (auth_kind s)), (''processor'', LString (processor_kind s)),
      (''euid'', LString (euid s)), (''name'', LString (name s)),
      (''allowed_hosts'', LStrings (allowed_hosts s))]"

section \<open>Anchored patterns\<close>

fun begins_with_anchor :: "regex \<Rightarrow> bool" where
  "begins_with_anchor OpBeginText = True"
| "begins_with_anchor OpBeginLine = True"
| "begins_with_anchor (OpConcat []) = False"
| "begins_with_anchor (OpConcat (r # rs)) = begins_with_anchor r"
| "begins_with_anchor (OpCapture r) = begins_with_anchor r"
| "begins_with_anchor _ = False"

lemma size_last: "rs \<noteq> [] \<Longrightarrow> size (last rs) < Suc (size_list size rs)"
  by (induction rs) auto

function (sequential) ends_with_anchor :: "regex \<Rightarrow> bool" where
  "ends_with_anchor OpEndText = True"
| "ends_with_anchor OpEndLine = True"
| "ends_with_anchor (OpConcat rs) = (if rs = [] then False else ends_with_anchor (last rs))"
| "ends_with_anchor (OpCapture r) = ends_with_anchor r"
| "ends_with_anchor _ = False"
  by pat_completeness auto

termination ends_with_anchor
  by (relation "measure size") (auto simp: size_last)

definition require_anchored_pattern :: "env \<Rightarrow> string \<Rightarrow> string \<Rightarrow> seal_error option" where
  "require_anchored_pattern E label pat =
     (if pat = [] then None
      else (case re_parse E pat of
              None \<Rightarrow> Some (InvalidRegex label)
            | Some re \<Rightarrow>
                if \<not> begins_with_anchor re then Some (MustStartAnchored label)
                else if \<not> ends_with_anchor re then Some (MustEndAnchored label)
                else None))"

section \<open>Control characters\<close>

text \<open>\<open>refuseHeaderControlChars\<close>: the first code point below 0x20 other than a tab, or DEL.\<close>

fun refuse_control_runes :: "string \<Rightarrow> nat list \<Rightarrow> seal_error option" where
  "refuse_control_runes label [] = None"
| "refuse_control_runes label (r # rs) =
     (if r = 9 then refuse_control_runes label rs
      else if r < 32 \<or> r = 127 then Some (ControlChar label r)
      else refuse_control_runes label rs)"

definition refuse_header_control_chars :: "string \<Rightarrow> string \<Rightarrow> seal_error option" where
  "refuse_header_control_chars label v = refuse_control_runes label (rune_values v)"

section \<open>Validation\<close>

definition count_some :: "'a option \<Rightarrow> nat" where
  "count_some x = (if x \<noteq> None then 1 else 0)"

text \<open>The block of \<open>Validate\<close> about the injected header.\<close>

fun check_indexed :: "nat \<Rightarrow> string \<Rightarrow> string list \<Rightarrow> seal_error option" where
  "check_indexed i label [] = None"
| "check_indexed i label (v # vs) =
     or_else (refuse_header_control_chars (label @ ''['' @ decimal i @ '']'') v)
             (check_indexed (Suc i) label vs)"

declare range_order.simps [simp del]

definition validate_inject :: "env \<Rightarrow> injectHeader \<Rightarrow> seal_error option" where
  "validate_inject E ih =
     (if token ih = [] then Some TokenRequired
      else or_else
        (first_error (\<lambda>(label, v). refuse_header_control_chars label v)
           (range_order (map_seed E)
              [(''inject_header.token'', token ih), (''inject_header.format'', format ih),
               (''inject_header.header_name'', header_name ih)]))
        (or_else (check_indexed 0 ''inject_header.allowed_formats'' (allowed_formats ih))
                 (check_indexed 0 ''inject_header.allowed_header_names'' (allowed_header_names ih))))"

definition validate :: "env \<Rightarrow> secret \<Rightarrow> seal_error option" where
  "validate E s =
     (let auths = count_some (bearer_auth s) + count_some (no_auth s);
          procs = count_some (inject_header s) in
      if auths \<noteq> 1 then Some (AuthTagCount auths)
      else if procs \<noteq> 1 then Some (ProcessorTagCount procs)
      else if allowed_host_pattern s \<noteq> [] \<and> allowed_hosts s \<noteq> [] then Some HostFieldsExclusive
      else if allowed_host_pattern s = [] \<and> allowed_hosts s = [] then Some HostAllowlistRequired
      else or_else (require_anchored_pattern E ''allowed_host_pattern'' (allowed_host_pattern s))
        (if allowed_path_pattern s \<noteq> [] \<and> allowed_path_prefixes s \<noteq> [] then Some PathFieldsExclusive
         else or_else (require_anchored_pattern E ''allowed_path_pattern'' (allowed_path_pattern s))
           (case bearer_auth s of
              Some b \<Rightarrow> if digest b = [] then Some DigestRequired
                        else (case inject_header s of Some ih \<Rightarrow> validate_inject E ih | None \<Rightarrow> None)
            | None \<Rightarrow> (case inject_header s of Some ih \<Rightarrow> validate_inject E ih | None \<Rightarrow> None))))"

section \<open>Bearer digests\<close>

definition verify_bearer :: "bearerAuth \<Rightarrow> string \<Rightarrow> bool" where
  "verify_bearer b presented =
     (let got = sha256 presented in
      case b64_decode (digest b) of
        None \<Rightarrow> False
      | Some want \<Rightarrow> if length want \<noteq> 32 then False else constant_time_compare got want = 1)"

definition hash_bearer :: "string \<Rightarrow> string" where
  "hash_bearer tok = b64_encode (sha256 tok)"

section \<open>What the checks decide\<close>

text \<open>The byte rule that \<open>refuseHeaderControlChars\<close> is meant to enforce.\<close>

definition header_byte :: "char \<Rightarrow> bool" where
  "header_byte c \<longleftrightarrow> byte_val c = 9 \<or> (32 \<le> byte_val c \<and> byte_val c \<noteq> 127)"

definition header_clean :: "string \<Rightarrow> bool" where
  "header_clean v \<longleftrightarrow> list_all header_byte v"

lemma refuse_control_runes_None:
  "refuse_control_runes label rs = None \<longleftrightarrow> (\<forall>r \<in> set rs. r = 9 \<or> (32 \<le> r \<and> r \<noteq> 127))"
  by (induction label rs rule: refuse_control_runes.induct) auto

lemma refuse_clean [guard_simps]: "refuse_header_control_chars label v = None \<longleftrightarrow> header_clean v"
proof -
  define bad :: "nat \<Rightarrow> bool" where "bad r \<longleftrightarrow> r \<noteq> 9 \<and> (r < 32 \<or> r = 127)" for r
  have rune: "r \<in> set (rune_values v) \<longleftrightarrow> r \<in> byte_val ` set v" if "bad r" for r
  proof -
    have "r < 128" using that by (auto simp: bad_def)
    then show ?thesis using rune_in_range [of r v] by (auto simp: image_iff)
  qed
  have "(\<exists>r \<in> set (rune_values v). bad r) \<longleftrightarrow> (\<exists>r \<in> byte_val ` set v. bad r)"
    using rune by (metis (lifting))
  then have "(\<exists>r \<in> set (rune_values v). bad r) \<longleftrightarrow> (\<exists>c \<in> set v. bad (byte_val c))" by simp
  moreover have "refuse_header_control_chars label v = None \<longleftrightarrow> \<not> (\<exists>r \<in> set (rune_values v). bad r)"
    unfolding refuse_header_control_chars_def refuse_control_runes_None bad_def by (auto simp: not_less)
  moreover have "header_byte c \<longleftrightarrow> \<not> bad (byte_val c)" for c
    unfolding header_byte_def bad_def by (simp add: not_less)
  ultimately show ?thesis by (simp add: header_clean_def list_all_iff)
qed

lemma check_indexed_None [guard_simps]:
  "check_indexed i label vs = None \<longleftrightarrow> list_all header_clean vs"
  by (induction i label vs rule: check_indexed.induct) (auto simp: refuse_clean)

definition inject_clean :: "injectHeader \<Rightarrow> bool" where
  "inject_clean ih \<longleftrightarrow>
     token ih \<noteq> [] \<and> header_clean (token ih) \<and> header_clean (format ih) \<and> header_clean (header_name ih) \<and>
     list_all header_clean (allowed_formats ih) \<and> list_all header_clean (allowed_header_names ih)"

lemma validate_inject_None [guard_simps]: "validate_inject E ih = None \<longleftrightarrow> inject_clean ih"
  by (simp add: validate_inject_def inject_clean_def guard_simps)

definition anchored :: "env \<Rightarrow> string \<Rightarrow> bool" where
  "anchored E pat \<longleftrightarrow> pat = [] \<or>
     (case re_parse E pat of None \<Rightarrow> False | Some re \<Rightarrow> begins_with_anchor re \<and> ends_with_anchor re)"

lemma require_anchored_None [guard_simps]: "require_anchored_pattern E label pat = None \<longleftrightarrow> anchored E pat"
  by (simp add: require_anchored_pattern_def anchored_def split: option.splits)

text \<open>
  The contract of a sealed secret (sections 2.2 to 2.6 of the design document): one way to
  authenticate, one processor, one host rule, at most one path rule, anchored patterns, a digest
  that is not empty and header material without control characters.
\<close>

definition well_sealed :: "env \<Rightarrow> secret \<Rightarrow> bool" where
  "well_sealed E s \<longleftrightarrow>
     (bearer_auth s = None) \<noteq> (no_auth s = None) \<and>
     (\<exists>ih. inject_header s = Some ih \<and> inject_clean ih) \<and>
     (allowed_host_pattern s = []) \<noteq> (allowed_hosts s = []) \<and>
     (allowed_path_pattern s = [] \<or> allowed_path_prefixes s = []) \<and>
     anchored E (allowed_host_pattern s) \<and> anchored E (allowed_path_pattern s) \<and>
     (\<forall>b. bearer_auth s = Some b \<longrightarrow> digest b \<noteq> [])"

lemma validate_None [guard_simps]: "validate E s = None \<longleftrightarrow> well_sealed E s"
proof (cases "bearer_auth s"; cases "no_auth s"; cases "inject_header s")
qed (auto simp: validate_def well_sealed_def count_some_def guard_simps)

lemma begins_with_anchor_start:
  "begins_with_anchor re \<Longrightarrow> single_line re \<Longrightarrow> ends feq s re i \<noteq> [] \<Longrightarrow> i = 0"
proof (induction re rule: begins_with_anchor.induct)
  case (4 r rs)
  then show ?case using seq_ends_first [of "ends feq s r" "map (ends feq s) rs" i] by simp
qed (auto simp: step_if_def split: if_splits)

lemma ends_with_anchor_end:
  "ends_with_anchor re \<Longrightarrow> single_line re \<Longrightarrow> j \<in> set (ends feq s re i) \<Longrightarrow> j = length s"
proof (induction re arbitrary: i rule: ends_with_anchor.induct)
  case (3 rs)
  then have ne: "rs \<noteq> []" by auto
  have "map (ends feq s) rs = map (ends feq s) (butlast rs) @ [ends feq s (last rs)]"
    using ne by (metis append_butlast_last_id list.simps(8,9) map_append)
  then obtain k where "j \<in> set (ends feq s (last rs) k)"
    using "3.prems"(3) seq_ends_last [of j "map (ends feq s) (butlast rs)" "ends feq s (last rs)" i] by auto
  moreover have "single_line (last rs)" using "3.prems"(2) ne by (simp add: list_all_iff)
  ultimately show ?case using "3.IH" [OF ne] "3.prems"(1) ne by simp
qed (auto simp: step_if_def split: if_splits)

lemma anchored_search_full:
  assumes "begins_with_anchor re" "ends_with_anchor re" "single_line re"
  shows "re_search feq re s \<longleftrightarrow> re_full feq re s"
proof
  assume "re_search feq re s"
  then obtain i where i: "ends feq (rune_values s) re i \<noteq> []"
    by (auto simp: re_search_def Let_def list_ex_iff)
  then have "i = 0" using begins_with_anchor_start assms by blast
  moreover obtain j where "j \<in> set (ends feq (rune_values s) re i)" using i by (metis last_in_set)
  ultimately show "re_full feq re s"
    using ends_with_anchor_end [OF assms(2,3)] by (auto simp: re_full_def Let_def)
qed (rule re_full_search)

lemma verify_bearer_iff:
  "verify_bearer b p \<longleftrightarrow> (\<exists>d. b64_decode (digest b) = Some d \<and> d = sha256 p)"
  by (auto simp: verify_bearer_def Let_def constant_time_compare_eq sha256_length split: option.splits)

end
