(* ===== verification/Seal_Envelope.thy ===== *)
theory Seal_Envelope
  imports Seal
begin

text \<open>
  \<open>internal/seal/seal.go\<close>, second part: the JSON text of a \<open>Secret\<close> as its struct tags
  prescribe it, \<open>Seal\<close>, \<open>NewEUID\<close>, \<open>Open\<close> and \<open>tryOpen\<close>. \<open>Seal\<close> returns its result
  together with the caller's struct, which Go updates through the pointer.
\<close>

section \<open>The JSON schema of a secret\<close>

text \<open>Members with \<open>omitempty\<close> are left out when the field holds its zero value.\<close>

definition omit_string :: "string \<Rightarrow> string \<Rightarrow> (string \<times> json) list" where
  "omit_string k v = (if v = [] then [] else [(k, JStr v)])"

definition omit_strings :: "string \<Rightarrow> string list \<Rightarrow> (string \<times> json) list" where
  "omit_strings k vs = (if vs = [] then [] else [(k, JArr (map JStr vs))])"

definition omit_pointer :: "string \<Rightarrow> ('a \<Rightarrow> (string \<times> json) list) \<Rightarrow> 'a option \<Rightarrow> (string \<times> json) list" where
  "omit_pointer k f p = (case p of None \<Rightarrow> [] | Some x \<Rightarrow> [(k, JObj (f x))])"

definition bearer_members :: "bearerAuth \<Rightarrow> (string \<times> json) list" where
  "bearer_members b = [(''digest'', JStr (digest b))]"

definition inject_members :: "injectHeader \<Rightarrow> (string \<times> json) list" where
  "inject_members ih =
     [(''token'', JStr (token ih))] @ omit_string ''format'' (format ih) @
     omit_string ''header_name'' (header_name ih) @
     omit_strings ''allowed_formats'' (allowed_formats ih) @
     omit_strings ''allowed_header_names'' (allowed_header_names ih)"

definition secret_members :: "secret \<Rightarrow> (string \<times> json) list" where
  "secret_members s =
     omit_pointer ''bearer_auth'' bearer_members (bearer_auth s) @
     omit_pointer ''no_auth'' (\<lambda>_. []) (no_auth s) @
     omit_pointer ''inject_header'' inject_members (inject_header s) @
     omit_strings ''allowed_hosts'' (allowed_hosts s) @
     omit_string ''allowed_host_pattern'' (allowed_host_pattern s) @
     omit_strings ''allowed_path_prefixes'' (allowed_path_prefixes s) @
     omit_string ''allowed_path_pattern'' (allowed_path_pattern s) @
     omit_strings ''allowed_methods'' (allowed_methods s) @
     omit_string ''name'' (name s) @
     omit_string ''euid'' (euid s)"

definition marshal_secret :: "secret \<Rightarrow> string" where
  "marshal_secret s = print_json (JObj (secret_members s))"

definition bearer_member :: "bearerAuth \<Rightarrow> string \<Rightarrow> json \<Rightarrow> json_error + bearerAuth" where
  "bearer_member b k v =
     (if field_is ''digest'' k then set_field (\<lambda>x. b\<lparr>digest := x\<rparr>) (decode_string v (digest b))
      else Inl (UnknownField k))"

definition no_member :: "unit \<Rightarrow> string \<Rightarrow> json \<Rightarrow> json_error + unit" where
  "no_member u k v = Inl (UnknownField k)"

definition inject_member :: "injectHeader \<Rightarrow> string \<Rightarrow> json \<Rightarrow> json_error + injectHeader" where
  "inject_member ih k v =
     (if field_is ''token'' k then set_field (\<lambda>x. ih\<lparr>token := x\<rparr>) (decode_string v (token ih))
      else if field_is ''format'' k then set_field (\<lambda>x. ih\<lparr>format := x\<rparr>) (decode_string v (format ih))
      else if field_is ''header_name'' k then
        set_field (\<lambda>x. ih\<lparr>header_name := x\<rparr>) (decode_string v (header_name ih))
      else if field_is ''allowed_formats'' k then
        set_field (\<lambda>x. ih\<lparr>allowed_formats := x\<rparr>) (decode_strings v (allowed_formats ih))
      else if field_is ''allowed_header_names'' k then
        set_field (\<lambda>x. ih\<lparr>allowed_header_names := x\<rparr>) (decode_strings v (allowed_header_names ih))
      else Inl (UnknownField k))"

definition no_bearer :: bearerAuth where
  "no_bearer = \<lparr>digest = []\<rparr>"

definition no_inject :: injectHeader where
  "no_inject = \<lparr>token = [], format = [], header_name = [], allowed_formats = [], allowed_header_names = []\<rparr>"

definition zero_secret :: secret where
  "zero_secret =
     \<lparr>bearer_auth = None, no_auth = None, inject_header = None, allowed_hosts = [],
      allowed_host_pattern = [], allowed_path_prefixes = [], allowed_path_pattern = [],
      allowed_methods = [], name = [], euid = []\<rparr>"

definition secret_member :: "secret \<Rightarrow> string \<Rightarrow> json \<Rightarrow> json_error + secret" where
  "secret_member s k v =
     (if field_is ''bearer_auth'' k then
        set_field (\<lambda>x. s\<lparr>bearer_auth := x\<rparr>) (decode_pointer bearer_member no_bearer v (bearer_auth s))
      else if field_is ''no_auth'' k then
        set_field (\<lambda>x. s\<lparr>no_auth := x\<rparr>) (decode_pointer no_member () v (no_auth s))
      else if field_is ''inject_header'' k then
        set_field (\<lambda>x. s\<lparr>inject_header := x\<rparr>) (decode_pointer inject_member no_inject v (inject_header s))
      else if field_is ''allowed_hosts'' k then
        set_field (\<lambda>x. s\<lparr>allowed_hosts := x\<rparr>) (decode_strings v (allowed_hosts s))
      else if field_is ''allowed_host_pattern'' k then
        set_field (\<lambda>x. s\<lparr>allowed_host_pattern := x\<rparr>) (decode_string v (allowed_host_pattern s))
      else if field_is ''allowed_path_prefixes'' k then
        set_field (\<lambda>x. s\<lparr>allowed_path_prefixes := x\<rparr>) (decode_strings v (allowed_path_prefixes s))
      else if field_is ''allowed_path_pattern'' k then
        set_field (\<lambda>x. s\<lparr>allowed_path_pattern := x\<rparr>) (decode_string v (allowed_path_pattern s))
      else if field_is ''allowed_methods'' k then
        set_field (\<lambda>x. s\<lparr>allowed_methods := x\<rparr>) (decode_strings v (allowed_methods s))
      else if field_is ''name'' k then set_field (\<lambda>x. s\<lparr>name := x\<rparr>) (decode_string v (name s))
      else if field_is ''euid'' k then set_field (\<lambda>x. s\<lparr>euid := x\<rparr>) (decode_string v (euid s))
      else Inl (UnknownField k))"

definition unmarshal_secret :: "string \<Rightarrow> json_error + secret" where
  "unmarshal_secret txt = decode_struct secret_member zero_secret txt"

section \<open>Reading a printed secret back\<close>

definition text_clean :: "secret \<Rightarrow> bool" where
  "text_clean s \<longleftrightarrow>
     (case bearer_auth s of None \<Rightarrow> True | Some b \<Rightarrow> valid_utf8 (digest b)) \<and>
     (case inject_header s of None \<Rightarrow> True | Some ih \<Rightarrow>
        valid_utf8 (token ih) \<and> valid_utf8 (format ih) \<and> valid_utf8 (header_name ih) \<and>
        list_all valid_utf8 (allowed_formats ih) \<and> list_all valid_utf8 (allowed_header_names ih)) \<and>
     list_all valid_utf8 (allowed_hosts s) \<and> valid_utf8 (allowed_host_pattern s) \<and>
     list_all valid_utf8 (allowed_path_prefixes s) \<and> valid_utf8 (allowed_path_pattern s) \<and>
     list_all valid_utf8 (allowed_methods s) \<and> valid_utf8 (name s) \<and> valid_utf8 (euid s)"

text \<open>Lower-case field names: folding does not confuse two of them.\<close>

definition plain_name :: "string \<Rightarrow> bool" where
  "plain_name k \<longleftrightarrow> list_all (\<lambda>c. is_lower c \<or> c = CHR ''_'') k"

lemma upper_byte_inj:
  assumes "is_lower c \<or> c = CHR ''_''" "is_lower d \<or> d = CHR ''_''" "upper_byte c = upper_byte d"
  shows "c = d"
proof -
  have val: "byte_val (upper_byte x) = (if is_lower x then byte_val x - 32 else byte_val x)" for x
    by (auto simp: upper_byte_def is_lower_def)
  have low: "97 \<le> byte_val x \<and> byte_val x \<le> 122" if "is_lower x" for x
    using that by (simp add: is_lower_def)
  have us: "byte_val x = 95" if "\<not> is_lower x" "is_lower x \<or> x = CHR ''_''" for x
    using that by auto
  have eq: "(if is_lower c then byte_val c - 32 else byte_val c) = (if is_lower d then byte_val d - 32 else byte_val d)"
    using arg_cong [OF assms(3), of byte_val] by (simp only: val)
  consider "is_lower c" "is_lower d" | "is_lower c" "\<not> is_lower d" | "\<not> is_lower c" "is_lower d"
    | "\<not> is_lower c" "\<not> is_lower d" by blast
  then have "byte_val c = byte_val d"
  proof cases
    case 1
    then have "byte_val c - 32 = byte_val d - 32" using eq by simp
    then show ?thesis using low [OF 1(1)] low [OF 1(2)] by linarith
  next
    case 2
    then have "byte_val c - 32 = byte_val d" using eq by simp
    then show ?thesis using low [OF 2(1)] us [OF 2(2) assms(2)] by linarith
  next
    case 3
    then have "byte_val c = byte_val d - 32" using eq by simp
    then show ?thesis using low [OF 3(2)] us [OF 3(1) assms(1)] by linarith
  next
    case 4
    then show ?thesis using us [OF 4(1) assms(1)] us [OF 4(2) assms(2)] by simp
  qed
  then show ?thesis by (simp only: byte_simps)
qed

lemma plain_name_upper: "plain_name k \<Longrightarrow> plain_name n \<Longrightarrow> map upper_byte k = map upper_byte n \<Longrightarrow> k = n"
proof (induction k arbitrary: n)
  case (Cons c k)
  then obtain d m where n: "n = d # m" by (cases n) auto
  have "c = d" by (rule upper_byte_inj) (use Cons.prems n in \<open>simp_all add: plain_name_def\<close>)
  moreover have "k = m" by (rule Cons.IH) (use Cons.prems n in \<open>simp_all add: plain_name_def\<close>)
  ultimately show ?case using n by simp
qed simp

lemma plain_name_ascii: "plain_name k \<Longrightarrow> ascii k"
  by (induction k) (auto simp: plain_name_def is_lower_def)

lemma fold_name_ascii:
  assumes "ascii k"
  shows "fold_name k = map upper_byte k"
  unfolding fold_name_def runes_ascii [OF assms]
  using assms by (induction k) auto

lemma field_is_plain: "plain_name n \<Longrightarrow> plain_name k \<Longrightarrow> field_is n k \<longleftrightarrow> k = n"
  using plain_name_upper [of k n] by (auto simp: field_is_def fold_name_ascii plain_name_ascii)

lemma plain_names [simp]:
  "plain_name ''digest''" "plain_name ''token''" "plain_name ''format''" "plain_name ''header_name''"
  "plain_name ''allowed_formats''" "plain_name ''allowed_header_names''" "plain_name ''bearer_auth''"
  "plain_name ''no_auth''" "plain_name ''inject_header''" "plain_name ''allowed_hosts''"
  "plain_name ''allowed_host_pattern''" "plain_name ''allowed_path_prefixes''"
  "plain_name ''allowed_path_pattern''" "plain_name ''allowed_methods''" "plain_name ''name''"
  "plain_name ''euid''"
  by (simp_all add: plain_name_def is_lower_def)

lemma omit_string_decodes:
  assumes "\<And>v. f x k (JStr v) = Inr (upd v x)" "upd [] x = x"
  shows "decode_members f x (omit_string k v) = Inr (upd v x)"
  using assms by (simp add: omit_string_def)

lemma omit_strings_decodes:
  assumes "\<And>vs. f x k (JArr (map JStr vs)) = Inr (upd vs x)" "upd [] x = x"
  shows "decode_members f x (omit_strings k vs) = Inr (upd vs x)"
  using assms by (simp add: omit_strings_def)

lemma omit_pointer_decodes:
  assumes "\<And>y. f x k (JObj (g y)) = Inr (upd (Some y) x)" "upd None x = x"
  shows "decode_members f x (omit_pointer k g p) = Inr (upd p x)"
  using assms by (cases p) (simp_all add: omit_pointer_def)

lemma decode_string_JStr [simp]: "decode_string (JStr v) old = Inr v"
  by (simp add: decode_string_def)

lemma decode_strings_JArr [simp]: "decode_strings (JArr (map JStr vs)) old = Inr vs"
  by (simp add: decode_strings_def)

lemma decode_pointer_JObj:
  "decode_members f zero ms = Inr y \<Longrightarrow> decode_pointer f zero (JObj ms) None = Inr (Some y)"
  by (simp add: decode_pointer_def)

lemma bearer_round: "decode_members bearer_member no_bearer (bearer_members b) = Inr b"
  by (cases b) (simp add: bearer_members_def bearer_member_def no_bearer_def field_is_plain)

lemma inject_round: "decode_members inject_member no_inject (inject_members ih) = Inr ih"
proof -
  note d = inject_member_def field_is_plain
  note s = omit_string_decodes [where f = inject_member] and ss = omit_strings_decodes [where f = inject_member]
  show ?thesis
    by (cases ih)
      (simp add: inject_members_def no_inject_def decode_members_append d
        s [where upd = "\<lambda>v. format_update (\<lambda>_. v)"] s [where upd = "\<lambda>v. header_name_update (\<lambda>_. v)"]
        ss [where upd = "\<lambda>v. allowed_formats_update (\<lambda>_. v)"]
        ss [where upd = "\<lambda>v. allowed_header_names_update (\<lambda>_. v)"])
qed

lemma secret_round: "decode_members secret_member zero_secret (secret_members s) = Inr s"
proof -
  note d = secret_member_def field_is_plain decode_pointer_JObj
  note s = omit_string_decodes [where f = secret_member] and ss = omit_strings_decodes [where f = secret_member]
    and sp = omit_pointer_decodes [where f = secret_member]
  show ?thesis
    by (cases s)
      (simp add: secret_members_def zero_secret_def decode_members_append d bearer_round inject_round
        sp [where upd = "\<lambda>v. bearer_auth_update (\<lambda>_. v)"] sp [where upd = "\<lambda>v. no_auth_update (\<lambda>_. v)"]
        sp [where upd = "\<lambda>v. inject_header_update (\<lambda>_. v)"]
        s [where upd = "\<lambda>v. allowed_host_pattern_update (\<lambda>_. v)"]
        s [where upd = "\<lambda>v. allowed_path_pattern_update (\<lambda>_. v)"]
        s [where upd = "\<lambda>v. name_update (\<lambda>_. v)"] s [where upd = "\<lambda>v. euid_update (\<lambda>_. v)"]
        ss [where upd = "\<lambda>v. allowed_hosts_update (\<lambda>_. v)"]
        ss [where upd = "\<lambda>v. allowed_path_prefixes_update (\<lambda>_. v)"]
        ss [where upd = "\<lambda>v. allowed_methods_update (\<lambda>_. v)"])
qed

lemma plain_name_valid: "plain_name k \<Longrightarrow> valid_utf8 k"
  by (simp add: plain_name_ascii ascii_valid_utf8)

definition members_ok :: "(string \<times> json) list \<Rightarrow> bool" where
  "members_ok ms \<longleftrightarrow> (\<forall>m \<in> set ms. valid_utf8 (fst m) \<and> printable (snd m))"

lemma members_ok_simps [simp]:
  "members_ok []" "members_ok (m # ms) \<longleftrightarrow> valid_utf8 (fst m) \<and> printable (snd m) \<and> members_ok ms"
  "members_ok (as @ bs) \<longleftrightarrow> members_ok as \<and> members_ok bs"
  by (auto simp: members_ok_def)

lemma printable_JObj: "printable (JObj ms) \<longleftrightarrow> members_ok ms"
  by (simp add: members_ok_def)

lemma omit_ok [simp]:
  "plain_name k \<Longrightarrow> valid_utf8 v \<Longrightarrow> members_ok (omit_string k v)"
  "plain_name k \<Longrightarrow> list_all valid_utf8 vs \<Longrightarrow> members_ok (omit_strings k vs)"
  "plain_name k \<Longrightarrow> (\<forall>x. p = Some x \<longrightarrow> members_ok (g x)) \<Longrightarrow> members_ok (omit_pointer k g p)"
  by (auto simp: omit_string_def omit_strings_def omit_pointer_def plain_name_valid printable_JObj list_all_iff
      simp del: printable.simps(6) split: option.splits)

lemma secret_printable: "text_clean s \<Longrightarrow> printable (JObj (secret_members s))"
  unfolding printable_JObj text_clean_def secret_members_def
  by (cases "bearer_auth s"; cases "inject_header s") (simp_all add: bearer_members_def inject_members_def plain_name_valid)

lemma unmarshal_marshal: "text_clean s \<Longrightarrow> unmarshal_secret (marshal_secret s @ X) = Inr s"
  using json_first_print [OF secret_printable, of s X]
  by (simp add: unmarshal_secret_def marshal_secret_def decode_struct_def secret_round
      del: print_json.simps printable.simps)

section \<open>The random identifier of a seal\<close>

unbundle bit_operations_syntax

text \<open>\<open>NewEUID\<close>: sixteen random bytes with the version and variant bits of a UUIDv4.\<close>

definition stamp_bits :: "nat \<Rightarrow> nat \<Rightarrow> char \<Rightarrow> char" where
  "stamp_bits keep bits c = byte_of ((byte_val c AND keep) OR bits)"

definition euid_text :: "bytes \<Rightarrow> string" where
  "euid_text b =
     hex_encode (take 4 b) @ ''-'' @ hex_encode (take 2 (drop 4 b)) @ ''-'' @
     hex_encode (take 2 (drop 6 b)) @ ''-'' @ hex_encode (take 2 (drop 8 b)) @ ''-'' @ hex_encode (drop 10 b)"

definition new_euid :: "bytes option \<Rightarrow> seal_error + string" where
  "new_euid rnd =
     (case rnd of
        None \<Rightarrow> Inl RandomFailed
      | Some b \<Rightarrow>
          (let b1 = b[6 := stamp_bits 15 64 (b ! 6)];
               b2 = b1[8 := stamp_bits 63 128 (b1 ! 8)]
           in Inr (euid_text b2)))"

section \<open>Seal and Open\<close>

text \<open>
  \<open>Seal\<close>: the blob or an error, and the caller's struct afterwards. \<open>rnd\<close> is what \<open>rand.Read\<close>
  yields for the EUID, \<open>boxrnd\<close> what the box draws. \<open>json.Marshal\<close> cannot fail on this struct, whose
  fields are strings, string lists and pointers to such structs: its error branch has no value here.
\<close>

definition seal_op ::
  "env \<Rightarrow> secret \<Rightarrow> public_key \<Rightarrow> bytes option \<Rightarrow> bytes \<Rightarrow> (seal_error + string) \<times> secret" where
  "seal_op E s pub rnd boxrnd =
     (case validate E s of
        Some e \<Rightarrow> (Inl e, s)
      | None \<Rightarrow>
          (case (if euid s = [] then new_euid rnd else Inr (euid s)) of
             Inl e \<Rightarrow> (Inl e, s)
           | Inr i \<Rightarrow>
               (case seal_anonymous E (marshal_secret (s\<lparr>euid := i\<rparr>)) pub boxrnd of
                  None \<Rightarrow> (Inl BoxFailed, s)
                | Some sealed \<Rightarrow> (Inr (b64_encode sealed), s\<lparr>euid := i\<rparr>))))"

definition try_open :: "env \<Rightarrow> bytes \<Rightarrow> private_key \<Rightarrow> bytes option" where
  "try_open E raw priv = open_anonymous E raw (public_of E priv) priv"

text \<open>The loop over the fallback keys: the first that opens.\<close>

fun open_first :: "env \<Rightarrow> bytes \<Rightarrow> private_key list \<Rightarrow> bytes option" where
  "open_first E raw [] = None"
| "open_first E raw (k # ks) =
     (case try_open E raw k of Some p \<Rightarrow> Some p | None \<Rightarrow> open_first E raw ks)"

definition decrypt :: "env \<Rightarrow> bytes \<Rightarrow> private_key \<Rightarrow> private_key list \<Rightarrow> (bytes \<times> bool) option" where
  "decrypt E raw priv fallback =
     (case try_open E raw priv of
        Some p \<Rightarrow> Some (p, False)
      | None \<Rightarrow> map_option (\<lambda>p. (p, True)) (open_first E raw fallback))"

definition open_op ::
  "env \<Rightarrow> string \<Rightarrow> private_key \<Rightarrow> private_key list \<Rightarrow> seal_error + (secret \<times> bool)" where
  "open_op E blob priv fallback =
     (case b64_decode blob of
        None \<Rightarrow> Inl BadBase64
      | Some raw \<Rightarrow>
          (case decrypt E raw priv fallback of
             None \<Rightarrow> Inl DecryptionFailed
           | Some (plain, used) \<Rightarrow>
               (case unmarshal_secret plain of
                  Inl e \<Rightarrow> Inl (UnmarshalFailed e)
                | Inr s \<Rightarrow> (case validate E s of Some e \<Rightarrow> Inl e | None \<Rightarrow> Inr (s, used)))))"

section \<open>Lemmas on sealing and opening\<close>

lemma euid_text_ascii [simp]: "ascii (euid_text b)"
  by (simp add: euid_text_def)

lemma new_euid_ascii: "new_euid rnd = Inr i \<Longrightarrow> ascii i"
  by (auto simp: new_euid_def Let_def split: option.splits)

lemma validate_euid [simp]: "validate E (s\<lparr>euid := i\<rparr>) = validate E s"
  by (cases s) (simp only: validate_def secret.simps)

lemma text_clean_euid: "text_clean s \<Longrightarrow> valid_utf8 i \<Longrightarrow> text_clean (s\<lparr>euid := i\<rparr>)"
  by (simp add: text_clean_def)

lemma seal_op_InrE:
  assumes "seal_op E s pub rnd boxrnd = (Inr blob, s')"
  obtains i sealed where "s' = s\<lparr>euid := i\<rparr>" "validate E s = None" "blob = b64_encode sealed"
    "(if euid s = [] then new_euid rnd = Inr i else i = euid s)"
    "seal_anonymous E (marshal_secret s') pub boxrnd = Some sealed"
  using assms unfolding seal_op_def
  by (cases "validate E s"; cases "if euid s = [] then new_euid rnd else Inr (euid s)")
     (auto split: option.splits if_splits)

lemma seal_op_clean:
  assumes "seal_op E s pub rnd boxrnd = (Inr blob, s')" "text_clean s"
  shows "text_clean s'"
proof -
  obtain i where s': "s' = s\<lparr>euid := i\<rparr>" and i: "if euid s = [] then new_euid rnd = Inr i else i = euid s"
    using seal_op_InrE [OF assms(1)] by metis
  have "valid_utf8 i"
    using i assms(2) new_euid_ascii ascii_valid_utf8 by (cases "euid s = []") (auto simp: text_clean_def)
  then show ?thesis using s' assms(2) text_clean_euid by simp
qed

lemma seal_op_InlD: "seal_op E s pub rnd boxrnd = (Inl e, s') \<Longrightarrow> s' = s"
  by (auto simp: seal_op_def split: option.splits sum.splits)

lemma open_op_plain:
  assumes "decrypt E sealed priv fallback = Some (marshal_secret s @ X, used)" "text_clean s" "validate E s = None"
  shows "open_op E (b64_encode sealed) priv fallback = Inr (s, used)"
  using assms unmarshal_marshal [of s X] by (simp add: open_op_def)

lemma open_op_InrD:
  assumes "open_op E blob priv fallback = Inr (s, used)"
  shows "validate E s = None \<and> (\<exists>raw plain. b64_decode blob = Some raw \<and>
           decrypt E raw priv fallback = Some (plain, used) \<and> unmarshal_secret plain = Inr s)"
  using assms by (auto simp: open_op_def split: option.splits sum.splits)

lemma open_first_SomeD:
  "open_first E raw ks = Some p \<Longrightarrow>
     \<exists>as k bs. ks = as @ k # bs \<and> try_open E raw k = Some p \<and> (\<forall>a \<in> set as. try_open E raw a = None)"
proof (induction ks)
  case (Cons k ks)
  show ?case
  proof (cases "try_open E raw k")
    case None
    then obtain as l bs where "ks = as @ l # bs" "try_open E raw l = Some p" "\<forall>a \<in> set as. try_open E raw a = None"
      using Cons by auto
    then show ?thesis using None by (intro exI [of _ "k # as"] exI [of _ l] exI [of _ bs]) auto
  next
    case (Some q)
    then show ?thesis using Cons.prems by (intro exI [of _ "[] :: bytes list"] exI [of _ k] exI [of _ ks]) auto
  qed
qed simp

lemma open_first_None [simp]: "open_first E raw ks = None \<longleftrightarrow> (\<forall>k \<in> set ks. try_open E raw k = None)"
  by (induction ks) (auto split: option.splits)

lemma open_first_append:
  "(\<forall>a \<in> set as. try_open E raw a = None) \<Longrightarrow> open_first E raw (as @ ks) = open_first E raw ks"
  by (induction as) auto

text \<open>Opening undoes sealing, under the documented behaviour of the anonymous box for the key.\<close>

lemma open_after_seal:
  assumes "seal_op E s (public_of E priv) rnd boxrnd = (Inr blob, s')" "text_clean s"
    and box: "\<And>m c. seal_anonymous E m (public_of E priv) boxrnd = Some c \<Longrightarrow>
                open_anonymous E c (public_of E priv) priv = Some m"
  shows "open_op E blob priv fallback = Inr (s', False)"
proof -
  obtain i c where s': "s' = s\<lparr>euid := i\<rparr>" "validate E s = None" "blob = b64_encode c"
    "seal_anonymous E (marshal_secret s') (public_of E priv) boxrnd = Some c"
    using seal_op_InrE [OF assms(1)] by metis
  have "decrypt E c priv fallback = Some (marshal_secret s' @ [], False)"
    using box [OF s'(4)] by (simp add: decrypt_def try_open_def)
  then show ?thesis
    using open_op_plain seal_op_clean [OF assms(1,2)] s' by simp
qed

text \<open>The names that the decoder of a secret knows.\<close>

definition secret_field_names :: "string list" where
  "secret_field_names =
     [''bearer_auth'', ''no_auth'', ''inject_header'', ''allowed_hosts'', ''allowed_host_pattern'',
      ''allowed_path_prefixes'', ''allowed_path_pattern'', ''allowed_methods'', ''name'', ''euid'']"

lemma stamp_bits_add:
  assumes "k \<le> m"
  shows "stamp_bits (mask k) (2 ^ m) c = byte_of (2 ^ m + byte_val c mod 2 ^ k)"
proof -
  have "take_bit k (byte_val c) AND 2 ^ m = 0"
    using assms by (intro bit_eqI) (auto simp: bit_simps)
  then have "2 ^ m + take_bit k (byte_val c) = take_bit k (byte_val c) OR 2 ^ m"
    by (simp add: disjunctive_add_eq_or add.commute)
  then show ?thesis by (simp add: stamp_bits_def take_bit_eq_mask [symmetric] take_bit_eq_mod)
qed

lemma stamp_version: "byte_val (stamp_bits 15 64 c) div 16 = 4"
proof -
  have "stamp_bits 15 64 c = byte_of (64 + byte_val c mod 16)"
    using stamp_bits_add [of 4 6 c] by (simp add: mask_eq_exp_minus_1)
  moreover have "byte_val c mod 16 < 16" by simp
  ultimately show ?thesis by (simp add: byte_of_def)
qed

lemma stamp_variant: "byte_val (stamp_bits 63 128 c) div 16 \<in> {8, 9, 10, 11}"
proof -
  have "stamp_bits 63 128 c = byte_of (128 + byte_val c mod 64)"
    using stamp_bits_add [of 6 7 c] by (simp add: mask_eq_exp_minus_1)
  moreover have "byte_val c mod 64 div 16 < 4" by (simp add: div_less_iff_less_mult)
  moreover have "(128 + n) div 16 = 8 + n div 16" for n :: nat by simp
  ultimately show ?thesis by (auto simp: byte_of_def)
qed

lemma take_two: "Suc i < length b \<Longrightarrow> take 2 (drop i b) = [b ! i, b ! Suc i]"
  by (simp add: numeral_2_eq_2 take_Suc_conv_app_nth)

lemma euid_text_layout:
  assumes "length b = 16"
  shows "length (euid_text b) = 36 \<and> euid_text b ! 8 = CHR ''-'' \<and> euid_text b ! 13 = CHR ''-'' \<and>
    euid_text b ! 18 = CHR ''-'' \<and> euid_text b ! 23 = CHR ''-'' \<and>
    euid_text b ! 14 = hex_digit (byte_val (b ! 6) div 16) \<and> euid_text b ! 19 = hex_digit (byte_val (b ! 8) div 16)"
  using assms by (simp add: euid_text_def nth_append nth_Cons' take_two)

lemma hex_digit_chars: "hex_digit 4 = CHR ''4''" "hex_digit 8 = CHR ''8''" "hex_digit 9 = CHR ''9''"
  "hex_digit 10 = CHR ''a''" "hex_digit 11 = CHR ''b''"
  by code_simp+

lemma new_euid_shape:
  assumes "length b = 16"
  shows "\<exists>t. new_euid (Some b) = Inr t \<and> length t = 36 \<and> ascii t \<and>
    t ! 8 = CHR ''-'' \<and> t ! 13 = CHR ''-'' \<and> t ! 18 = CHR ''-'' \<and> t ! 23 = CHR ''-'' \<and>
    t ! 14 = CHR ''4'' \<and> t ! 19 \<in> set ''89ab''"
proof -
  let ?b = "b[6 := stamp_bits 15 64 (b ! 6), 8 := stamp_bits 63 128 (b ! 8)]"
  have "new_euid (Some b) = Inr (euid_text ?b)" by (simp add: new_euid_def)
  moreover have "hex_digit (byte_val (?b ! 6) div 16) = CHR ''4''"
    using assms stamp_version by (simp add: hex_digit_chars)
  moreover have "hex_digit (byte_val (?b ! 8) div 16) \<in> set ''89ab''"
    using assms stamp_variant [of "b ! 8"] by (auto simp: hex_digit_chars)
  ultimately show ?thesis using euid_text_layout [of ?b] assms by simp
qed

end
