(* ===== verification/Validators.thy ===== *)
theory Validators
  imports Wire Seal_Envelope
begin

text \<open>
  The pure decisions of \<open>internal/proxy/proxy.go\<close> on a request: the parts of the sealed header,
  the bearer, the processor override, the port, the host, path and method rules of the seal.
  A function that returns an \<open>error\<close> gives \<open>None\<close> for \<open>nil\<close>.
\<close>

datatype reject =
    MissingSecret
  | OverrideJson json_error
  | NoProcessor
  | FormatAlreadySet
  | FormatNotAllowed string
  | HeaderNameAlreadySet
  | HeaderNameNotAllowed string
  | EmptyHost
  | MalformedHost string split_error
  | NonStandardPort string
  | HostNotAllowed string
  | HostPatternInvalid
  | HostPatternMismatch string
  | NoHostAllowlist
  | DotSegment string string nat
  | BadPercentEncoding string
  | DecodeUnstable string
  | PathNotPermitted string
  | PathPatternInvalid
  | PathPatternMismatch string
  | MethodNotAllowed string

section \<open>The sealed header\<close>

record override =
  o_format :: string
  o_header_name :: string

definition no_override :: override where
  "no_override = \<lparr>o_format = [], o_header_name = []\<rparr>"

definition override_member :: "override \<Rightarrow> string \<Rightarrow> json \<Rightarrow> json_error + override" where
  "override_member ov k v =
     (if field_is ''format'' k then set_field (\<lambda>x. ov\<lparr>o_format := x\<rparr>) (decode_string v (o_format ov))
      else if field_is ''header_name'' k then
        set_field (\<lambda>x. ov\<lparr>o_header_name := x\<rparr>) (decode_string v (o_header_name ov))
      else Inl (UnknownField k))"

definition parse_sealed_header :: "string \<Rightarrow> reject + (string \<times> override option)" where
  "parse_sealed_header raw =
     (if raw = [] then Inl MissingSecret
      else
        let (part0, part1) = (case cut_byte (CHR '';'') raw of
                                None \<Rightarrow> (raw, None) | Some (a, b) \<Rightarrow> (a, Some b));
            blob = trim_space part0
        in if blob = [] then Inl MissingSecret
           else (case part1 of
                   None \<Rightarrow> Inr (blob, None)
                 | Some js \<Rightarrow>
                     (case decode_struct override_member no_override (trim_space js) of
                        Inl e \<Rightarrow> Inl (OverrideJson e)
                      | Inr ov \<Rightarrow> Inr (blob, Some ov))))"

section \<open>The bearer\<close>

definition extract_bearer :: "string \<Rightarrow> string option" where
  "extract_bearer h =
     (if prefix ''Bearer '' h then Some (trim_space (drop 7 h))
      else if prefix ''Basic '' h then
        (case b64_decode (trim_space (drop 6 h)) of
           None \<Rightarrow> None
         | Some decoded \<Rightarrow> map_option snd (cut_byte (CHR '':'') decoded))
      else None)"

section \<open>The processor and its override\<close>

fun contains :: "string list \<Rightarrow> string \<Rightarrow> bool" where
  "contains [] needle = False"
| "contains (h # hs) needle = (if h = needle then True else contains hs needle)"

interpretation strings: allowlist "\<lambda>e x. e = x" contains
  by unfold_locales auto

definition override_format :: "injectHeader \<Rightarrow> override \<Rightarrow> string \<Rightarrow> reject + string" where
  "override_format ih ov fmt =
     (if o_format ov = [] then Inr fmt
      else if format ih \<noteq> [] then Inl FormatAlreadySet
      else if \<not> contains (allowed_formats ih) (o_format ov) then Inl (FormatNotAllowed (o_format ov))
      else Inr (o_format ov))"

definition override_header_name :: "injectHeader \<Rightarrow> override \<Rightarrow> string \<Rightarrow> reject + string" where
  "override_header_name ih ov hn =
     (if o_header_name ov = [] then Inr hn
      else if header_name ih \<noteq> [] then Inl HeaderNameAlreadySet
      else if \<not> contains (allowed_header_names ih) (o_header_name ov)
        then Inl (HeaderNameNotAllowed (o_header_name ov))
      else Inr (o_header_name ov))"

definition resolve_processor :: "injectHeader option \<Rightarrow> override option \<Rightarrow> reject + (string \<times> string)" where
  "resolve_processor ihp ovp =
     (case ihp of
        None \<Rightarrow> Inl NoProcessor
      | Some ih \<Rightarrow>
          let fmt = (if format ih = [] then ''Bearer %s'' else format ih);
              hn = (if header_name ih = [] then ''Authorization'' else header_name ih)
          in (case ovp of
                None \<Rightarrow> Inr (fmt, hn)
              | Some ov \<Rightarrow>
                  (case override_format ih ov fmt of
                     Inl e \<Rightarrow> Inl e
                   | Inr fmt' \<Rightarrow>
                       (case override_header_name ih ov hn of
                          Inl e \<Rightarrow> Inl e
                        | Inr hn' \<Rightarrow> Inr (fmt', hn')))))"

section \<open>Host and port\<close>

definition reject_non_standard_port :: "string \<Rightarrow> reject option" where
  "reject_non_standard_port host =
     (if host = [] then Some EmptyHost
      else (case split_host_port host of
              Inl e \<Rightarrow>
                if CHR ''['' \<in> set host \<or> CHR '']'' \<in> set host \<or> 1 < count_list host (CHR '':'')
                then Some (MalformedHost host e) else None
            | Inr (_, port) \<Rightarrow> if port \<noteq> UpstreamPort then Some (NonStandardPort port) else None))"

definition strip_port :: "string \<Rightarrow> string" where
  "strip_port host =
     (if host = [] then []
      else (case split_host_port host of Inl _ \<Rightarrow> host | Inr (h, _) \<Rightarrow> h))"

fun host_listed :: "env \<Rightarrow> string list \<Rightarrow> string \<Rightarrow> bool" where
  "host_listed E [] host = False"
| "host_listed E (h # hs) host =
     (if to_lower (uni_lower E) h = to_lower (uni_lower E) host then True else host_listed E hs host)"

definition validate_host :: "env \<Rightarrow> string \<Rightarrow> secret \<Rightarrow> reject option" where
  "validate_host E host s =
     (if allowed_hosts s \<noteq> [] then
        (if host_listed E (allowed_hosts s) host then None else Some (HostNotAllowed host))
      else if allowed_host_pattern s \<noteq> [] then
        (case match_string E (''(?i)'' @ allowed_host_pattern s) host of
           None \<Rightarrow> Some HostPatternInvalid
         | Some ok \<Rightarrow> if ok then None else Some (HostPatternMismatch host))
      else Some NoHostAllowlist)"

section \<open>Path\<close>

definition max_decodes :: nat where
  "max_decodes = 4"

definition dot_segment :: "string \<Rightarrow> bool" where
  "dot_segment seg \<longleftrightarrow> seg = ''.'' \<or> seg = ''..''"

text \<open>The loop of \<open>refuseDotSegments\<close>; \<open>n\<close> rounds are left and \<open>i\<close> are done.\<close>

fun decode_rounds :: "nat \<Rightarrow> nat \<Rightarrow> string \<Rightarrow> string \<Rightarrow> reject option" where
  "decode_rounds 0 i path current = Some (DecodeUnstable path)"
| "decode_rounds (Suc n) i path current =
     (case find dot_segment (split_byte (CHR ''/'') current) of
        Some seg \<Rightarrow> Some (DotSegment path seg i)
      | None \<Rightarrow>
          (case path_unescape current of
             None \<Rightarrow> Some (BadPercentEncoding path)
           | Some nxt \<Rightarrow> if nxt = current then None else decode_rounds n (Suc i) path nxt))"

definition refuse_dot_segments :: "string \<Rightarrow> reject option" where
  "refuse_dot_segments path = decode_rounds (Suc max_decodes) 0 path path"

definition with_slash :: "string \<Rightarrow> string" where
  "with_slash p = (if suffix ''/'' p then p else p @ ''/'')"

fun path_listed :: "string list \<Rightarrow> string \<Rightarrow> bool" where
  "path_listed [] path = False"
| "path_listed (p # ps) path =
     (if path = p then True else if prefix (with_slash p) path then True else path_listed ps path)"

definition validate_path :: "env \<Rightarrow> string \<Rightarrow> secret \<Rightarrow> reject option" where
  "validate_path E path s =
     or_else (refuse_dot_segments path)
       (if allowed_path_prefixes s \<noteq> [] then
          (if path_listed (allowed_path_prefixes s) path then None else Some (PathNotPermitted path))
        else if allowed_path_pattern s \<noteq> [] then
          (case match_string E (allowed_path_pattern s) path of
             None \<Rightarrow> Some PathPatternInvalid
           | Some ok \<Rightarrow> if ok then None else Some (PathPatternMismatch path))
        else None)"

section \<open>Method\<close>

fun method_listed :: "string list \<Rightarrow> string \<Rightarrow> bool" where
  "method_listed [] method = False"
| "method_listed (m # ms) method = (if m = method then True else method_listed ms method)"

definition validate_method :: "string \<Rightarrow> secret \<Rightarrow> reject option" where
  "validate_method method s =
     (if allowed_methods s = [] then None
      else if method_listed (allowed_methods s) method then None
      else Some (MethodNotAllowed method))"

section \<open>Query keys for the log\<close>

fun query_unescape :: "string \<Rightarrow> string option" where
  "query_unescape [] = Some []"
| "query_unescape (c # s) =
     (if c = CHR ''%'' then
        (case s of
           p # q # r \<Rightarrow>
             (case (unhex_digit p, unhex_digit q) of
                (Some a, Some b) \<Rightarrow> map_option ((#) (byte_of (a * 16 + b))) (query_unescape r)
              | _ \<Rightarrow> None)
         | _ \<Rightarrow> None)
      else map_option ((#) (if c = CHR ''+'' then CHR '' '' else c)) (query_unescape s))"

definition query_key :: "string \<Rightarrow> string option" where
  "query_key part =
     (if part = [] \<or> CHR '';'' \<in> set part then None
      else
        let (k, v) = (case cut_byte (CHR ''='') part of None \<Rightarrow> (part, []) | Some kv \<Rightarrow> kv) in
        case query_unescape k of
          None \<Rightarrow> None
        | Some key \<Rightarrow> (case query_unescape v of None \<Rightarrow> None | Some _ \<Rightarrow> Some key))"

definition query_keys :: "env \<Rightarrow> url \<Rightarrow> string list" where
  "query_keys E u =
     (if url_raw_query u = [] then []
      else range_order (map_seed E)
        (remdups (map the (filter (\<lambda>k. k \<noteq> None) (map query_key (split_byte (CHR ''&'') (url_raw_query u)))))))"

section \<open>Lemmas on the decoding rounds\<close>

text \<open>The \<open>k\<close>-fold percent decoding of a path, as an upstream that decodes again would see it.\<close>

primrec decode_iter :: "nat \<Rightarrow> string \<Rightarrow> string option" where
  "decode_iter 0 p = Some p"
| "decode_iter (Suc k) p = (case path_unescape p of None \<Rightarrow> None | Some q \<Rightarrow> decode_iter k q)"

definition has_dot_segment :: "string \<Rightarrow> bool" where
  "has_dot_segment p \<longleftrightarrow> list_ex dot_segment (split_byte (CHR ''/'') p)"

lemma find_dot: "find dot_segment (split_byte c p) = None \<longleftrightarrow> \<not> list_ex dot_segment (split_byte c p)"
  by (auto simp: find_None_iff list_ex_iff)

lemma decode_iter_fixed: "path_unescape p = Some p \<Longrightarrow> decode_iter k p = Some p"
  by (induction k) auto

lemma decode_rounds_NoneD:
  "decode_rounds n i path cur = None \<Longrightarrow>
     (\<exists>m < n. \<exists>q. decode_iter m cur = Some q \<and> CHR ''%'' \<notin> set q) \<and>
     (\<forall>k q. decode_iter k cur = Some q \<longrightarrow> \<not> has_dot_segment q) \<and> (\<forall>k. decode_iter k cur \<noteq> None)"
proof (induction n i path cur rule: decode_rounds.induct)
  case (2 n i path cur)
  have nodot: "\<not> has_dot_segment cur"
    using "2.prems" by (auto simp: has_dot_segment_def find_dot [symmetric] split: option.splits)
  obtain nxt where nxt: "path_unescape cur = Some nxt"
    using "2.prems" by (auto split: option.splits)
  show ?case
  proof (cases "nxt = cur")
    case True
    then have "CHR ''%'' \<notin> set cur" using nxt path_unescape_fixpoint by auto
    then show ?thesis using nodot nxt True decode_iter_fixed [of cur]
      by (auto intro!: exI [of _ 0] exI [of _ cur])
  next
    case False
    have find: "find dot_segment (split_byte (CHR ''/'') cur) = None"
      using nodot by (simp add: has_dot_segment_def find_dot)
    have "decode_rounds n (Suc i) path nxt = None"
      using "2.prems" nxt False find by simp
    note IH = "2.IH" [OF find nxt False this]
    then obtain m q where "m < n" "decode_iter m nxt = Some q" "CHR ''%'' \<notin> set q" by blast
    then have "\<exists>m < Suc n. \<exists>q. decode_iter m cur = Some q \<and> CHR ''%'' \<notin> set q"
      using nxt by (intro exI [of _ "Suc m"]) auto
    moreover have "\<not> has_dot_segment q \<and> decode_iter k cur \<noteq> None" if "decode_iter k cur = Some q \<or> q = cur" for k q
      using that nodot nxt IH by (cases k) auto
    ultimately show ?thesis using nodot nxt by blast
  qed
qed simp

lemma decode_rounds_NoneI:
  "m < n \<Longrightarrow> decode_iter m cur = Some q \<Longrightarrow> CHR ''%'' \<notin> set q \<Longrightarrow>
     \<forall>k q. decode_iter k cur = Some q \<longrightarrow> \<not> has_dot_segment q \<Longrightarrow> decode_rounds n i path cur = None"
proof (induction n arbitrary: m i cur)
  case (Suc n)
  have "\<not> has_dot_segment cur" using Suc.prems(4) decode_iter.simps(1) by blast
  then have find: "find dot_segment (split_byte (CHR ''/'') cur) = None" by (simp add: has_dot_segment_def find_dot)
  show ?case
  proof (cases m)
    case 0
    then show ?thesis using Suc.prems find by (simp add: path_unescape_no_percent)
  next
    case (Suc l)
    then obtain nxt where nxt: "path_unescape cur = Some nxt" "decode_iter l nxt = Some q"
      using Suc.prems(2) by (auto split: option.splits)
    moreover have "\<forall>k q. decode_iter k nxt = Some q \<longrightarrow> \<not> has_dot_segment q"
    proof (intro allI impI)
      fix k p assume "decode_iter k nxt = Some p"
      then have "decode_iter (Suc k) cur = Some p" using nxt(1) by simp
      then show "\<not> has_dot_segment p" using Suc.prems(4) by blast
    qed
    ultimately have "decode_rounds n (Suc i) path nxt = None"
      using Suc.IH [of l nxt] Suc.prems(1,3) \<open>m = Suc l\<close> by simp
    then show ?thesis using find nxt(1) by simp
  qed
qed simp

lemma refuse_dots_plain:
  "CHR ''%'' \<notin> set p \<Longrightarrow> \<not> has_dot_segment p \<Longrightarrow> refuse_dot_segments p = None"
  by (simp add: refuse_dot_segments_def has_dot_segment_def find_dot [THEN iffD2] path_unescape_no_percent)

section \<open>Lemmas on the allowlists of a seal\<close>

definition path_allows :: "string \<Rightarrow> string \<Rightarrow> bool" where
  "path_allows p path \<longleftrightarrow> path = p \<or> prefix (with_slash p) path"

interpretation paths: allowlist path_allows path_listed
  by unfold_locales (auto simp: path_allows_def)

interpretation methods: allowlist "\<lambda>e x. e = x" method_listed
  by unfold_locales auto

definition ascii_lower :: "string \<Rightarrow> string" where
  "ascii_lower s = (if ascii s then map lower_byte s else s)"

lemma to_lower_ascii_lower [simp]: "to_lower uni (ascii_lower s) = to_lower uni s"
  by (simp add: ascii_lower_def to_lower_def)

interpretation hosts: allowlist_normal
  "\<lambda>h x. to_lower (uni_lower E) h = to_lower (uni_lower E) x" "host_listed E" ascii_lower
  for E
  by unfold_locales simp_all

text \<open>An entry admits whole segments only: itself, or something behind a slash.\<close>

lemma path_allows_segments:
  "path_allows p path \<longleftrightarrow> path = p \<or> (\<exists>rest. path = p @ (if suffix ''/'' p then '''' else ''/'') @ rest)"
  by (auto simp: path_allows_def with_slash_def prefix_def)

lemma validate_path_None [guard_simps]:
  "validate_path E path s = None \<longleftrightarrow> refuse_dot_segments path = None \<and>
     (allowed_path_prefixes s \<noteq> [] \<longrightarrow> path_listed (allowed_path_prefixes s) path) \<and>
     (allowed_path_prefixes s = [] \<and> allowed_path_pattern s \<noteq> [] \<longrightarrow>
        match_string E (allowed_path_pattern s) path = Some True)"
  by (auto simp: validate_path_def split: option.splits)

lemma validate_host_None [guard_simps]:
  "validate_host E host s = None \<longleftrightarrow>
     (allowed_hosts s \<noteq> [] \<longrightarrow> host_listed E (allowed_hosts s) host) \<and>
     (allowed_hosts s = [] \<longrightarrow> allowed_host_pattern s \<noteq> [] \<and>
        match_string E (''(?i)'' @ allowed_host_pattern s) host = Some True)"
  by (auto simp: validate_host_def split: option.splits)

lemma validate_method_None [guard_simps]:
  "validate_method m s = None \<longleftrightarrow> allowed_methods s = [] \<or> m \<in> set (allowed_methods s)"
  by (auto simp: validate_method_def methods.check_iff)

lemma contains_iff [guard_simps]: "contains xs x \<longleftrightarrow> x \<in> set xs"
  by (auto simp: strings.check_iff)

lemma override_format_Inr:
  "override_format ih ov f = Inr f' \<longleftrightarrow>
     (o_format ov = [] \<and> f' = f \<or> o_format ov \<noteq> [] \<and> format ih = [] \<and> o_format ov \<in> set (allowed_formats ih) \<and> f' = o_format ov)"
  by (auto simp: override_format_def contains_iff)

lemma override_header_name_Inr:
  "override_header_name ih ov h = Inr h' \<longleftrightarrow>
     (o_header_name ov = [] \<and> h' = h \<or>
      o_header_name ov \<noteq> [] \<and> header_name ih = [] \<and> o_header_name ov \<in> set (allowed_header_names ih) \<and> h' = o_header_name ov)"
  by (auto simp: override_header_name_def contains_iff)

definition default_to :: "string \<Rightarrow> string \<Rightarrow> string" where
  "default_to d v = (if v = [] then d else v)"

lemma resolve_processor_InrD:
  assumes "resolve_processor ihp ovp = Inr (f, h)"
  obtains ih where "ihp = Some ih"
    "f = default_to ''Bearer %s'' (format ih) \<or> format ih = [] \<and> f \<in> set (allowed_formats ih)"
    "h = default_to ''Authorization'' (header_name ih) \<or> header_name ih = [] \<and> h \<in> set (allowed_header_names ih)"
proof -
  obtain ih where ih: "ihp = Some ih" using assms by (cases ihp) (auto simp: resolve_processor_def)
  show ?thesis
  proof (cases ovp)
    case None
    then show ?thesis using assms that [OF ih] by (simp add: ih resolve_processor_def Let_def default_to_def)
  next
    case (Some ov)
    then have f: "override_format ih ov (default_to ''Bearer %s'' (format ih)) = Inr f"
      and h: "override_header_name ih ov (default_to ''Authorization'' (header_name ih)) = Inr h"
      using assms by (auto simp: ih resolve_processor_def Let_def default_to_def split: sum.splits)
    show ?thesis
      by (rule that [OF ih]) (use f h in \<open>auto simp: override_format_Inr override_header_name_Inr\<close>)
  qed
qed

section \<open>Lemmas on host and port\<close>

lemma count_list_le_1: "count_list s c \<le> 1 \<Longrightarrow> c \<in> set s \<Longrightarrow> \<exists>a b. s = a @ c # b \<and> c \<notin> set a \<and> c \<notin> set b"
proof -
  assume l: "count_list s c \<le> 1" and m: "c \<in> set s"
  obtain a b where s: "s = a @ c # b" "c \<notin> set a" using m split_list_first by metis
  then have "count_list b c = 0" using l by (simp add: count_notin)
  then show ?thesis using s by (auto simp: count_list_0_iff)
qed

lemma reject_port_None:
  assumes "reject_non_standard_port host = None"
  shows "(host \<noteq> [] \<and> bracket_free host \<and> CHR '':'' \<notin> set host) \<or>
         (\<exists>h. host = h @ '':443'' \<and> bracket_free h \<and> CHR '':'' \<notin> set h) \<or>
         (\<exists>h. host = ''['' @ h @ '']:443'' \<and> CHR ''['' \<notin> set h)"
proof (cases "split_host_port host")
  case (Inl e)
  then have b: "host \<noteq> []" "bracket_free host" "count_list host (CHR '':'') \<le> 1"
    using assms by (auto simp: reject_non_standard_port_def bracket_free_def split: if_splits)
  have "CHR '':'' \<notin> set host"
  proof
    assume "CHR '':'' \<in> set host"
    then obtain p q where "host = p @ CHR '':'' # q" "CHR '':'' \<notin> set p" "CHR '':'' \<notin> set q"
      using count_list_le_1 [OF b(3)] by blast
    then show False using split_host_port_plain [of p q] b(2) Inl by simp
  qed
  then show ?thesis using b by simp
next
  case (Inr hp)
  obtain h p where hp: "hp = (h, p)" by (cases hp)
  then have "p = UpstreamPort" using assms Inr by (auto simp: reject_non_standard_port_def split: if_splits)
  then show ?thesis using split_host_port_InrD [of host h p] Inr hp by (auto simp: UpstreamPort_def)
qed

lemma strip_port_plain:
  assumes "CHR '':'' \<notin> set h" "bracket_free h"
  shows "strip_port h = h" "strip_port (h @ '':443'') = h"
  using assms split_host_port_no_colon [of h] split_host_port_plain [of h "''443''"]
  by (simp_all add: strip_port_def)

lemma url_split_no_colon:
  assumes "CHR '':'' \<notin> set h" "bracket_free h"
  shows "url_split_host_port h = (h, [])"
proof -
  have "last_index_byte (CHR '':'') h = None" using assms(1) by simp
  then show ?thesis using assms(2)
    by (cases h) (simp_all only: url_split_host_port_def option.case, auto simp: prefix_def)
qed

section \<open>Lemmas on the sealed header\<close>

text \<open>A blob as \<open>Seal\<close> produces it, on its own, is read back as it is.\<close>

lemma parse_plain_blob: "x \<noteq> [] \<Longrightarrow> parse_sealed_header (b64_encode x) = Inr (b64_encode x, None)"
proof -
  assume "x \<noteq> []"
  moreover have "cut_byte (CHR '';'') (b64_encode x) = None" using semicolon_not_b64 by simp
  ultimately show ?thesis by (simp only: parse_sealed_header_def option.case Let_def prod.case) simp
qed

end
