(* ===== verification/Go_Ip_Parse.thy ===== *)
theory Go_Ip_Parse
  imports Go_Net
begin

text \<open>
  The address and prefix parsers of \<open>net/netip\<close> that the ingress allowlist and the client
  address go through: \<open>parseIPv4Fields\<close>, \<open>parseIPv6\<close>, \<open>ParseAddr\<close>, \<open>ParsePrefix\<close>. A parse
  error is \<open>None\<close>: the program never looks inside it.
\<close>

definition digit_val :: "char \<Rightarrow> nat" where
  "digit_val c = byte_val c - 48"

text \<open>
  The octet loop. \<open>edge\<close> says that the loop is at the start or just behind a dot, \<open>dl\<close> counts
  the digits of the octet, \<open>fs\<close> holds the octets that are complete.
\<close>

fun v4_loop :: "bool \<Rightarrow> nat \<Rightarrow> nat \<Rightarrow> nat list \<Rightarrow> string \<Rightarrow> nat list option" where
  "v4_loop edge v dl fs [] = (if length fs < 3 then None else Some (fs @ [v]))"
| "v4_loop edge v dl fs (c # s) =
     (if is_digit c then
        (if dl = 1 \<and> v = 0 then None
         else let v' = v * 10 + digit_val c in
              if 255 < v' then None else v4_loop False v' (Suc dl) fs s)
      else if c = CHR ''.'' then
        (if edge \<or> s = [] then None
         else if length fs = 3 then None
         else v4_loop True 0 0 (fs @ [v]) s)
      else None)"

definition num_of_bytes :: "nat list \<Rightarrow> nat" where
  "num_of_bytes bs = foldl (\<lambda>a b. a * 256 + b) 0 bs"

definition parse_v4 :: "string \<Rightarrow> addr option" where
  "parse_v4 s = map_option (\<lambda>fs. V4 (of_nat (num_of_bytes fs))) (v4_loop True 0 0 [] s)"

definition is_hex :: "char \<Rightarrow> bool" where
  "is_hex c \<longleftrightarrow> unhex_digit c \<noteq> None"

definition hex_num :: "string \<Rightarrow> nat" where
  "hex_num s = foldl (\<lambda>a c. a * 16 + (case unhex_digit c of Some d \<Rightarrow> d | None \<Rightarrow> 0)) 0 s"

text \<open>
  The group loop of \<open>parseIPv6\<close>, with the number of 16-bit groups still to fill as its
  measure: the position of the ellipsis in bytes, the bytes so far, and the rest of the input.
\<close>

fun v6_loop :: "nat \<Rightarrow> nat option \<Rightarrow> nat list \<Rightarrow> string \<Rightarrow> (nat option \<times> nat list \<times> string) option" where
  "v6_loop 0 el ip s = Some (el, ip, s)"
| "v6_loop (Suc n) el ip s =
     (let run = takeWhile is_hex s; rest = dropWhile is_hex s in
      if 4 < length run then None
      else if run = [] then None
      else if rest \<noteq> [] \<and> hd rest = CHR ''.'' then
        (if el = None \<and> length ip \<noteq> 12 then None
         else if 16 < length ip + 4 then None
         else (case v4_loop True 0 0 [] s of
                 None \<Rightarrow> None
               | Some fs \<Rightarrow> Some (el, ip @ fs, [])))
      else
        let acc = hex_num run; ip' = ip @ [acc div 256, acc mod 256] in
        (case rest of
           [] \<Rightarrow> Some (el, ip', [])
         | c # r \<Rightarrow>
             if c \<noteq> CHR '':'' then None
             else if r = [] then None
             else if hd r = CHR '':'' then
               (if el \<noteq> None then None
                else if tl r = [] then Some (Some (length ip'), ip', [])
                else v6_loop n (Some (length ip')) ip' (tl r))
             else v6_loop n el ip' r))"

definition v6_expand :: "nat option \<Rightarrow> nat list \<Rightarrow> nat list option" where
  "v6_expand el ip =
     (if length ip < 16 then
        (case el of
           None \<Rightarrow> None
         | Some e \<Rightarrow> Some (take e ip @ replicate (16 - length ip) 0 @ drop e ip))
      else if el \<noteq> None then None
      else Some ip)"

definition parse_v6_groups :: "string \<Rightarrow> nat list option" where
  "parse_v6_groups s =
     (let start = (if prefix ''::'' s then (Some 0, drop 2 s) else (None, s)) in
      if fst start = Some 0 \<and> snd start = [] then Some (replicate 16 0)
      else (case v6_loop 8 (fst start) [] (snd start) of
              None \<Rightarrow> None
            | Some (el, ip, rest) \<Rightarrow> if rest \<noteq> [] then None else v6_expand el ip))"

definition parse_v6 :: "string \<Rightarrow> addr option" where
  "parse_v6 s =
     (case cut_byte (CHR ''%'') s of
        None \<Rightarrow> map_option (\<lambda>ip. V6 (of_nat (num_of_bytes ip)) []) (parse_v6_groups s)
      | Some (a, z) \<Rightarrow>
          if z = [] then None
          else map_option (\<lambda>ip. V6 (of_nat (num_of_bytes ip)) z) (parse_v6_groups a))"

text \<open>\<open>netip.ParseAddr\<close>: the first of the bytes dot, colon and percent decides.\<close>

definition parse_addr :: "string \<Rightarrow> addr option" where
  "parse_addr s =
     (case dropWhile (\<lambda>c. c \<noteq> CHR ''.'' \<and> c \<noteq> CHR '':'' \<and> c \<noteq> CHR ''%'') s of
        [] \<Rightarrow> None
      | c # _ \<Rightarrow> if c = CHR ''.'' then parse_v4 s
                 else if c = CHR '':'' then parse_v6 s
                 else None)"

definition dec_num :: "string \<Rightarrow> nat" where
  "dec_num s = foldl (\<lambda>a c. a * 10 + digit_val c) 0 s"

definition parse_bits :: "string \<Rightarrow> nat option" where
  "parse_bits s =
     (if s = [] then None
      else if 1 < length s \<and> \<not> (49 \<le> byte_val (hd s) \<and> byte_val (hd s) \<le> 57) then None
      else if list_all is_digit s then Some (dec_num s) else None)"

text \<open>\<open>netip.ParsePrefix\<close>.\<close>

definition parse_prefix :: "string \<Rightarrow> prefix option" where
  "parse_prefix s =
     (case last_index_byte (CHR ''/'') s of
        None \<Rightarrow> None
      | Some i \<Rightarrow>
         (case parse_addr (take i s) of
            None \<Rightarrow> None
          | Some a \<Rightarrow>
              if addr_zone a \<noteq> [] then None
              else (case parse_bits (drop (Suc i) s) of
                      None \<Rightarrow> None
                    | Some b \<Rightarrow> if bit_len a < b then None else Some (prefix_from a b))))"

lemma parse_prefix_valid:
  "parse_prefix s = Some pf \<Longrightarrow>
     \<exists>a b. pf = Prefix a (Some b) \<and> addr_zone a = [] \<and> b \<le> bit_len a"
proof -
  assume "parse_prefix s = Some pf"
  then obtain a b where "addr_zone a = []" "b \<le> bit_len a" "pf = prefix_from a b"
    by (auto simp: parse_prefix_def not_less split: option.splits if_splits)
  then show ?thesis by (cases a) (auto simp: prefix_from_def bit_len_def)
qed

lemma parse_addr_empty [simp]: "parse_addr [] = None"
  by (simp add: parse_addr_def)

lemma parse_v4_is4: "parse_v4 s = Some a \<Longrightarrow> is4 a"
  by (auto simp: parse_v4_def)

end
