(* ===== verification/Ingress.thy ===== *)
theory Ingress
  imports Wire Go_Ip_Parse
begin

text \<open>
  \<open>internal/proxy/ingress.go\<close>: the allowlist of client addresses, how it is parsed, which
  address of a request it is applied to, and the membership test.
\<close>

section \<open>The allowlist and its parser\<close>

definition parse_cidr_or_ip :: "string \<Rightarrow> prefix option" where
  "parse_cidr_or_ip raw =
     (if CHR ''/'' \<in> set raw then map_option masked (parse_prefix raw)
      else (case parse_addr raw of
              None \<Rightarrow> None
            | Some a \<Rightarrow> Some (prefix_from (unmap a) (if is6 a \<and> \<not> is4in6 a then 128 else 32))))"

datatype ingress_error = BadCidr string | CfAbsent | XffEmpty | BadClientIp string

text \<open>The loop of \<open>ParseAllowedClientCIDRs\<close>; a \<open>nil\<close> result is the empty list.\<close>

fun parse_cidrs :: "string list \<Rightarrow> ingress_error + prefix list" where
  "parse_cidrs [] = Inr []"
| "parse_cidrs (e # es) =
     (let raw = trim_space e in
      if raw = [] then parse_cidrs es
      else (case parse_cidr_or_ip raw of
              None \<Rightarrow> Inl (BadCidr raw)
            | Some p \<Rightarrow> (case parse_cidrs es of Inl err \<Rightarrow> Inl err | Inr ps \<Rightarrow> Inr (p # ps))))"

section \<open>The address of a request\<close>

definition parse_ip_maybe_port :: "string \<Rightarrow> ingress_error + addr" where
  "parse_ip_maybe_port s =
     (let s' = (case split_host_port s of Inr (host, _) \<Rightarrow> host | Inl _ \<Rightarrow> s) in
      case parse_addr (trim_set ''[]'' s') of
        None \<Rightarrow> Inl (BadClientIp s')
      | Some a \<Rightarrow> Inr (unmap a))"

definition client_ip_from_request :: "request \<Rightarrow> bool \<Rightarrow> bool \<Rightarrow> ingress_error + addr" where
  "client_ip_from_request r trust_terminator trust_cloudflare =
     (if trust_cloudflare then
        (let cf = trim_space (header_get (req_header r) CFConnectingIPHeader) in
         if cf = [] then Inl CfAbsent else parse_ip_maybe_port cf)
      else
        (let lines = header_values (req_header r) ''X-Forwarded-For'' in
         if trust_terminator \<and> lines \<noteq> [] then
           (let candidate = trim_space (last (split_byte (CHR '','') (last lines))) in
            if candidate = [] then Inl XffEmpty else parse_ip_maybe_port candidate)
         else parse_ip_maybe_port (req_remote r)))"

section \<open>Membership\<close>

fun prefixes_contain :: "addr \<Rightarrow> prefix list \<Rightarrow> bool" where
  "prefixes_contain a [] = False"
| "prefixes_contain a (p # ps) = (if prefix_contains p a then True else prefixes_contain a ps)"

definition ip_in_prefixes :: "addr \<Rightarrow> prefix list \<Rightarrow> bool" where
  "ip_in_prefixes a ps = prefixes_contain (unmap a) ps"

interpretation cidrs: allowlist_normal "\<lambda>p a. prefix_contains p (unmap a)" "\<lambda>ps a. ip_in_prefixes a ps" unmap
  by unfold_locales (simp_all add: ip_in_prefixes_def)

section \<open>Lemmas\<close>

text \<open>A prefix in normal form: valid, without a zone, the host bits zero.\<close>

definition proper_prefix :: "prefix \<Rightarrow> bool" where
  "proper_prefix p \<longleftrightarrow> masked p = p \<and> addr_zone (prefix_addr p) = [] \<and>
     (\<exists>b. prefix_bits p = Some b \<and> b \<le> bit_len (prefix_addr p))"

lemma mask_full [simp]: "mask4 32 = -1" "mask6 128 = -1"
  by (simp_all add: mask4_def mask6_def)

lemma bit_len_simps [simp]: "bit_len (V4 w) = 32" "bit_len (V6 v z) = 128"
  by (simp_all add: bit_len_def)

lemma parse_cidr_or_ip_proper: "parse_cidr_or_ip raw = Some p \<Longrightarrow> proper_prefix p"
proof (cases "CHR ''/'' \<in> set raw")
  case True
  assume "parse_cidr_or_ip raw = Some p"
  then obtain q where "parse_prefix raw = Some q" "p = masked q"
    using True by (auto simp: parse_cidr_or_ip_def)
  moreover then obtain a b where "q = Prefix a (Some b)" "addr_zone a = []" "b \<le> bit_len a"
    using parse_prefix_valid by blast
  ultimately show ?thesis by (cases a) (auto simp: proper_prefix_def)
next
  case False
  assume "parse_cidr_or_ip raw = Some p"
  then obtain a where "parse_addr raw = Some a"
    and p: "p = prefix_from (unmap a) (if is6 a \<and> \<not> is4in6 a then 128 else 32)"
    using False by (auto simp: parse_cidr_or_ip_def split: option.splits)
  show ?thesis
    by (cases a) (auto simp: p prefix_from_def proper_prefix_def)
qed

lemma parse_cidrs_proper: "parse_cidrs es = Inr ps \<Longrightarrow> p \<in> set ps \<Longrightarrow> proper_prefix p"
  by (induction es arbitrary: ps)
    (auto simp: Let_def parse_cidr_or_ip_proper split: if_splits option.splits sum.splits)

lemma parse_cidrs_append:
  "parse_cidrs (as @ bs) =
     (case parse_cidrs as of Inl e \<Rightarrow> Inl e
      | Inr ps \<Rightarrow> (case parse_cidrs bs of Inl e \<Rightarrow> Inl e | Inr qs \<Rightarrow> Inr (ps @ qs)))"
  by (induction as) (auto simp: Let_def split: option.splits sum.splits)

lemma single_address_prefix:
  assumes "parse_addr raw = Some a" "CHR ''/'' \<notin> set raw" "addr_zone a = []"
  shows "\<exists>p. parse_cidr_or_ip raw = Some p \<and> (\<forall>b. addr_zone b = [] \<longrightarrow> (ip_in_prefixes b [p] \<longleftrightarrow> unmap b = unmap a))"
proof -
  let ?p = "prefix_from (unmap a) (if is6 a \<and> \<not> is4in6 a then 128 else 32)"
  have p: "parse_cidr_or_ip raw = Some ?p" using assms by (simp add: parse_cidr_or_ip_def)
  have "?p = Prefix (unmap a) (Some (bit_len (unmap a)))"
    using assms(3) by (cases a) (auto simp: prefix_from_def)
  moreover have "prefix_contains (Prefix c (Some (bit_len c))) d \<longleftrightarrow> d = c"
    if "addr_zone c = []" "addr_zone d = []" for c d
    using that by (cases c; cases d) (auto simp: prefix_contains_v4 prefix_contains_v6 simp del: prefix_contains.simps(2,3))
  moreover have "addr_zone (unmap c) = []" if "addr_zone c = []" for c
    using that by (cases c) auto
  ultimately show ?thesis using p assms(3) by (auto simp: ip_in_prefixes_def)
qed

lemma parse_ip_maybe_port_unmapped: "parse_ip_maybe_port s = Inr a \<Longrightarrow> unmap a = a"
  by (auto simp: parse_ip_maybe_port_def Let_def split: option.splits)

lemma client_ip_unmapped: "client_ip_from_request r tt tc = Inr a \<Longrightarrow> unmap a = a"
  by (auto simp: client_ip_from_request_def Let_def parse_ip_maybe_port_unmapped split: if_splits)

lemma v6_mapped_prefix_dead:
  assumes "is4in6 (V6 w [])" "96 \<le> b" "b \<le> 128"
  shows "\<not> ip_in_prefixes a [Prefix (V6 w []) (Some b)]"
proof
  assume "ip_in_prefixes a [Prefix (V6 w []) (Some b)]"
  then have c: "prefix_contains (Prefix (V6 w []) (Some b)) (unmap a)" by (simp add: ip_in_prefixes_def split: if_splits)
  then obtain v z where u: "unmap a = V6 v z" by (cases "unmap a") auto
  then have d: "drop_bit (128 - b) v = drop_bit (128 - b) w"
    using c by (simp add: prefix_contains_v6 del: prefix_contains.simps)
  have "drop_bit 32 v = drop_bit (32 - (128 - b)) (drop_bit (128 - b) v)"
    and "drop_bit 32 w = drop_bit (32 - (128 - b)) (drop_bit (128 - b) w)"
    using assms(2,3) by simp_all
  then have "drop_bit 32 v = 65535" using d assms(1) by simp
  moreover have "unmap (V6 v z) = V6 v z" using u by (metis unmap_idem)
  ultimately show False by simp
qed

text \<open>Membership as an interval of address numbers.\<close>

lemma prefix_contains_interval:
  assumes "proper_prefix p" "prefix_bits p = Some b"
  shows "prefix_contains p a \<longleftrightarrow>
     is4 (prefix_addr p) = is4 a \<and> addr_zone a = [] \<and>
     addr_num (prefix_addr p) div 2 ^ (bit_len a - b) * 2 ^ (bit_len a - b) \<le> addr_num a \<and>
     addr_num a < addr_num (prefix_addr p) div 2 ^ (bit_len a - b) * 2 ^ (bit_len a - b) + 2 ^ (bit_len a - b)"
proof -
  obtain c where p: "p = Prefix c (Some b)" using assms(2) by (cases p) auto
  show ?thesis
    by (cases c; cases a)
      (simp_all add: p prefix_contains_v4 prefix_contains_v6 drop_bit_eq_interval del: prefix_contains.simps(2,3))
qed

end
