(* ===== verification/Egress.thy ===== *)
theory Egress
  imports Wire Seal_Envelope Logging Go_Ip_Parse
begin

text \<open>
  The egress guard of \<open>internal/proxy/proxy.go\<close>: the address ranges that are never dialed, the
  self-loop guard and \<open>guardedDial\<close>, with the \<open>net.IP\<close> predicates it uses. A \<open>net.IP\<close> is an
  address; its four- and sixteen-byte forms of an IPv4 address are told apart only by \<open>to4\<close>,
  as in Go. The resolver is an argument.
\<close>

section \<open>net.IP\<close>

definition to4 :: "addr \<Rightarrow> 32 word option" where
  "to4 a = (case unmap a of V4 w \<Rightarrow> Some w | V6 _ _ \<Rightarrow> None)"

definition oct4 :: "32 word \<Rightarrow> nat \<Rightarrow> nat" where
  "oct4 w i = unat w div 2 ^ (24 - 8 * i) mod 256"

definition oct6 :: "128 word \<Rightarrow> nat \<Rightarrow> nat" where
  "oct6 w i = unat w div 2 ^ (120 - 8 * i) mod 256"

fun num6 :: "addr \<Rightarrow> 128 word" where
  "num6 (V4 _) = 0"
| "num6 (V6 w _) = w"

definition ip_is_private :: "addr \<Rightarrow> bool" where
  "ip_is_private a =
     (case to4 a of
        Some w \<Rightarrow> oct4 w 0 = 10 \<or> (oct4 w 0 = 172 \<and> (oct4 w 1 AND 240) = 16) \<or> (oct4 w 0 = 192 \<and> oct4 w 1 = 168)
      | None \<Rightarrow> (oct6 (num6 a) 0 AND 254) = 252)"

definition ip_is_loopback :: "addr \<Rightarrow> bool" where
  "ip_is_loopback a = (case to4 a of Some w \<Rightarrow> oct4 w 0 = 127 | None \<Rightarrow> num6 a = 1)"

definition ip_is_link_local_unicast :: "addr \<Rightarrow> bool" where
  "ip_is_link_local_unicast a =
     (case to4 a of
        Some w \<Rightarrow> oct4 w 0 = 169 \<and> oct4 w 1 = 254
      | None \<Rightarrow> oct6 (num6 a) 0 = 254 \<and> (oct6 (num6 a) 1 AND 192) = 128)"

definition ip_is_link_local_multicast :: "addr \<Rightarrow> bool" where
  "ip_is_link_local_multicast a =
     (case to4 a of
        Some w \<Rightarrow> oct4 w 0 = 224 \<and> oct4 w 1 = 0 \<and> oct4 w 2 = 0
      | None \<Rightarrow> oct6 (num6 a) 0 = 255 \<and> (oct6 (num6 a) 1 AND 15) = 2)"

definition ip_is_unspecified :: "addr \<Rightarrow> bool" where
  "ip_is_unspecified a = (case to4 a of Some w \<Rightarrow> w = 0 | None \<Rightarrow> num6 a = 0)"

text \<open>\<open>net.IPNet\<close> of IPv4 with its mask, and \<open>Contains\<close> on the four-byte form.\<close>

definition ipnet4_contains :: "32 word \<times> nat \<Rightarrow> 32 word \<Rightarrow> bool" where
  "ipnet4_contains n w = (fst n AND mask4 (snd n) = w AND mask4 (snd n))"

definition ipv4 :: "nat \<Rightarrow> nat \<Rightarrow> nat \<Rightarrow> nat \<Rightarrow> 32 word" where
  "ipv4 a b c d = of_nat (((a * 256 + b) * 256 + c) * 256 + d)"

section \<open>Ranges that are never dialed\<close>

definition extra_reserved_v4 :: "(32 word \<times> nat) list" where
  "extra_reserved_v4 = [(ipv4 0 0 0 0, 8), (ipv4 100 64 0 0, 10), (ipv4 240 0 0 0, 4)]"

fun in_any_net :: "(32 word \<times> nat) list \<Rightarrow> 32 word \<Rightarrow> bool" where
  "in_any_net [] w = False"
| "in_any_net (n # ns) w = (if ipnet4_contains n w then True else in_any_net ns w)"

interpretation nets: allowlist ipnet4_contains in_any_net
  by unfold_locales auto

definition is_private_or_local :: "addr \<Rightarrow> bool" where
  "is_private_or_local a =
     (if ip_is_private a \<or> ip_is_loopback a \<or> ip_is_link_local_unicast a \<or>
         ip_is_link_local_multicast a \<or> ip_is_unspecified a then True
      else (case to4 a of Some w \<Rightarrow> in_any_net extra_reserved_v4 w | None \<Rightarrow> False))"

section \<open>Own host names\<close>

text \<open>\<open>AutoSelfHostnames\<close>: \<open>hostname\<close> is what \<open>os.Hostname\<close> yields, \<open>None\<close> for an error.\<close>

fun add_self_hostnames :: "env \<Rightarrow> string list \<Rightarrow> string set \<Rightarrow> string set" where
  "add_self_hostnames E [] out = out"
| "add_self_hostnames E (e # es) out =
     (let e' = to_lower (uni_lower E) (trim_space e) in
      add_self_hostnames E es (if e' \<noteq> [] then insert e' out else out))"

definition auto_self_hostnames :: "env \<Rightarrow> string option \<Rightarrow> string list \<Rightarrow> string set" where
  "auto_self_hostnames E hostname extra =
     add_self_hostnames E extra
       ({''localhost'', ''127.0.0.1'', ''::1''} \<union>
        (case hostname of Some h \<Rightarrow> if h \<noteq> [] then {to_lower (uni_lower E) h} else {} | None \<Rightarrow> {}))"

section \<open>The guarded dial\<close>

datatype dial_error =
    BadDialAddr split_error
  | SelfLoop string
  | LookupFailed string
  | NoIps string
  | PrivateIp string addr
  | DialFailed string

text \<open>Wrapped around \<open>ErrEgressRefused\<close>, as \<open>errors.Is\<close> sees it.\<close>

fun egress_refused :: "dial_error \<Rightarrow> bool" where
  "egress_refused (SelfLoop _) = True"
| "egress_refused (PrivateIp _ _) = True"
| "egress_refused _ = False"

text \<open>What is dialed: a resolved address and a port, or the address as it came.\<close>

datatype dial_target = DialIp addr string | DialRaw string

fun first_private :: "addr list \<Rightarrow> addr option" where
  "first_private [] = None"
| "first_private (ip # ips) = (if is_private_or_local ip then Some ip else first_private ips)"

text \<open>
  \<open>guardedDial\<close> up to the dial itself: the target or an error, and the log lines. \<open>resolve\<close> is
  \<open>LookupIPAddr\<close>, \<open>None\<close> for an error.
\<close>

definition guarded_dial ::
  "env \<Rightarrow> string set \<Rightarrow> bool \<Rightarrow> (string \<Rightarrow> addr list option) \<Rightarrow> string \<Rightarrow>
   (dial_error + dial_target) \<times> 'e log_line list" where
  "guarded_dial E self_names disable_guard resolve address =
     (case split_host_port address of
        Inl e \<Rightarrow> (Inl (BadDialAddr e), [])
      | Inr (host, port) \<Rightarrow>
          if to_lower (uni_lower E) host \<in> self_names then
            (Inl (SelfLoop host),
             [LogLine Warn ''egress_refused'' [(''reason'', LString ''self_loop''), (''host'', LString host)]])
          else if disable_guard then (Inr (DialRaw address), [])
          else
            (case resolve host of
               None \<Rightarrow> (Inl (LookupFailed host), [])
             | Some ips \<Rightarrow>
                 if ips = [] then (Inl (NoIps host), [])
                 else (case first_private ips of
                         Some ip \<Rightarrow>
                           (Inl (PrivateIp host ip),
                            [LogLine Warn ''egress_refused''
                               [(''reason'', LString ''private_ip''), (''host'', LString host), (''ip'', LAddr ip)]])
                       | None \<Rightarrow> (Inr (DialIp (hd ips) port), []))))"

section \<open>Lemmas on the ranges\<close>

text \<open>The IPv4 ranges of the special-purpose registries that the guard is about, as CIDR blocks.\<close>

definition forbidden_v4 :: "(32 word \<times> nat) list" where
  "forbidden_v4 =
     [(ipv4 0 0 0 0, 8), (ipv4 10 0 0 0, 8), (ipv4 100 64 0 0, 10), (ipv4 127 0 0 0, 8),
      (ipv4 169 254 0 0, 16), (ipv4 172 16 0 0, 12), (ipv4 192 168 0 0, 16), (ipv4 224 0 0 0, 24),
      (ipv4 240 0 0 0, 4)]"

lemma drop_bit_eq_div_unat:
  fixes a p :: "'a::len word"
  shows "drop_bit k a = drop_bit k p \<longleftrightarrow> unat a div 2 ^ k = unat p div 2 ^ k"
  by (metis drop_bit_eq_div unat_drop_bit_eq word_unat_eq_iff)

lemma and_not_mask_push:
  fixes x :: "'a::len word"
  shows "x AND NOT (mask k) = push_bit k (drop_bit k x)"
  by (rule bit_word_eqI) (auto simp: bit_simps dest: bit_imp_le_length)

lemma and_not_mask_cong:
  fixes x y :: "'a::len word"
  shows "x AND NOT (mask k) = y AND NOT (mask k) \<longleftrightarrow> drop_bit k x = drop_bit k y"
  by (metis and_not_mask_push drop_bit_and_not_mask)

lemma ipnet4_contains_div:
  "ipnet4_contains (p, b) w \<longleftrightarrow> unat p div 2 ^ (32 - b) = unat w div 2 ^ (32 - b)"
  by (simp only: ipnet4_contains_def mask4_def fst_conv snd_conv and_not_mask_cong drop_bit_eq_div_unat)

lemma and_240_push: "n AND 240 = push_bit 4 (take_bit 4 (drop_bit 4 n))" for n :: nat
proof -
  have "(240::nat) = push_bit 4 (mask 4)" by (simp add: push_bit_eq_mult mask_eq_exp_minus_1)
  moreover have "n AND push_bit 4 (mask 4) = push_bit 4 (take_bit 4 (drop_bit 4 n))"
    by (rule bit_eqI) (auto simp: bit_simps)
  ultimately show ?thesis by simp
qed

lemma and_240: "n < 256 \<Longrightarrow> (n AND 240) = (16::nat) \<longleftrightarrow> n div 16 = 1"
  by (simp only: and_240_push) (auto simp: push_bit_eq_mult drop_bit_eq_div take_bit_eq_mod div_less_iff_less_mult)

lemma oct4_less: "oct4 w i < 256"
  by (simp add: oct4_def)

lemma oct4_0: "oct4 w 0 = unat w div 16777216"
proof -
  have "unat w < 2 ^ LENGTH(32)" by (rule unsigned_less)
  then have "unat w < 4294967296" by simp
  then have "unat w div 16777216 < 256" by (simp add: div_less_iff_less_mult)
  then show ?thesis by (simp add: oct4_def)
qed

lemma oct4_prefix:
  "oct4 w 0 = a \<and> oct4 w 1 = b \<longleftrightarrow> b < 256 \<and> unat w div 65536 = a * 256 + b"
proof -
  have "unat w div 65536 = unat w div 16777216 * 256 + unat w div 65536 mod 256"
    using div_mult_mod_eq [of "unat w div 65536" 256] by (simp add: div_mult2_eq [symmetric])
  then show ?thesis by (auto simp: oct4_0) (auto simp: oct4_def)
qed

lemma is_private_or_local_v4:
  "is_private_or_local (V4 w) \<longleftrightarrow> in_any_net forbidden_v4 w"
proof -
  have t: "to4 (V4 w) = Some w" by (simp add: to4_def)
  have d16: "oct4 w 0 = 192 \<and> oct4 w 1 = 168 \<longleftrightarrow> unat w div 65536 = 49320"
    "oct4 w 0 = 169 \<and> oct4 w 1 = 254 \<longleftrightarrow> unat w div 65536 = 43518"
    by (simp_all only: oct4_prefix) simp_all
  have d24: "oct4 w 0 = 224 \<and> oct4 w 1 = 0 \<and> oct4 w 2 = 0 \<longleftrightarrow> unat w div 256 = 14680064"
  proof -
    have "unat w div 256 = unat w div 65536 * 256 + unat w div 256 mod 256"
      using div_mult_mod_eq [of "unat w div 256" 256] by (simp add: div_mult2_eq [symmetric])
    moreover have "oct4 w 2 = unat w div 256 mod 256" by (simp add: oct4_def)
    moreover have "oct4 w 0 = 224 \<and> oct4 w 1 = 0 \<longleftrightarrow> unat w div 65536 = 57344" by (simp only: oct4_prefix) simp
    moreover have "unat w div 256 mod 256 < 256" by simp
    ultimately show ?thesis by linarith
  qed
  have d12: "oct4 w 0 = 172 \<and> (oct4 w 1 AND 240) = 16 \<longleftrightarrow> unat w div 1048576 = 2753"
  proof -
    have "unat w div 1048576 = unat w div 65536 div 16" by (simp add: div_mult2_eq [symmetric])
    moreover have "oct4 w 1 = unat w div 65536 mod 256" by (simp add: oct4_def)
    moreover have "oct4 w 0 = unat w div 65536 div 256" by (simp add: oct4_0 div_mult2_eq [symmetric])
    moreover have "n div 256 = 172 \<and> n mod 256 div 16 = 1 \<longleftrightarrow> n div 16 = 2753" for n :: nat
    proof -
      define q r where "q = n div 16 div 16" and "r = n div 16 mod 16"
      have "n div 256 = q" "n mod 256 div 16 = r" "r < 16"
        using mod_mult2_eq [of n 16 16] by (simp_all add: q_def r_def div_mult2_eq [symmetric])
      moreover have "n div 16 = q * 16 + r" by (simp only: q_def r_def div_mult_mod_eq)
      moreover have "q' = 172 \<and> r' = 1 \<longleftrightarrow> q' * 16 + r' = 2753" if "r' < 16" for q' r' :: nat
      proof
        assume e: "q' * 16 + r' = 2753"
        have "(q' * 16 + r') div 16 = q'" "(q' * 16 + r') mod 16 = r'" using that by simp_all
        then show "q' = 172 \<and> r' = 1" unfolding e by simp
      qed simp
      ultimately show ?thesis by (simp only:)
    qed
    ultimately show ?thesis unfolding and_240 [OF oct4_less] by (simp only:)
  qed
  have z: "w = 0 \<longrightarrow> unat w div 16777216 = 0" by simp
  note unats = ipv4_def
  show ?thesis
    unfolding is_private_or_local_def ip_is_private_def ip_is_loopback_def ip_is_link_local_unicast_def
      ip_is_link_local_multicast_def ip_is_unspecified_def t option.case nets.check_iff d16 d24 d12
    using z by (auto simp: forbidden_v4_def extra_reserved_v4_def ipnet4_contains_div ipv4_def oct4_0)
qed

lemma is_private_or_local_unmap: "is_private_or_local (unmap a) = is_private_or_local a"
proof (cases "to4 a")
  case None
  then have "unmap a = a" by (cases a) (auto simp: to4_def split: if_splits)
  then show ?thesis by simp
next
  case (Some w)
  moreover have "to4 (unmap a) = to4 a" by (simp add: to4_def)
  ultimately show ?thesis
    by (simp add: is_private_or_local_def ip_is_private_def ip_is_loopback_def ip_is_link_local_unicast_def
        ip_is_link_local_multicast_def ip_is_unspecified_def)
qed

section \<open>Lemmas on the dial\<close>

lemma first_private_None: "first_private ips = None \<longleftrightarrow> (\<forall>ip \<in> set ips. \<not> is_private_or_local ip)"
  by (induction ips) auto

lemma guarded_dial_InrD:
  assumes "fst (guarded_dial E self_names dis resolve address) = Inr t"
  obtains host port where "split_host_port address = Inr (host, port)"
    "to_lower (uni_lower E) host \<notin> self_names"
    "dis \<Longrightarrow> t = DialRaw address"
    "\<not> dis \<Longrightarrow> \<exists>ip ips. resolve host = Some (ip # ips) \<and> t = DialIp ip port \<and>
       (\<forall>i \<in> set (ip # ips). \<not> is_private_or_local i)"
  using assms that
  by (auto simp: guarded_dial_def first_private_None neq_Nil_conv split: sum.splits if_splits option.splits)

lemma add_self_hostnames_set:
  "add_self_hostnames E es out =
     out \<union> {x. \<exists>e \<in> set es. x = to_lower (uni_lower E) (trim_space e) \<and> x \<noteq> []}"
  by (induction E es out rule: add_self_hostnames.induct) (auto simp: Let_def)

end
