(* ===== verification/Go_Fmt.thy ===== *)
theory Go_Fmt
  imports Environment
begin

text \<open>
  \<open>fmt.Sprintf(format, token)\<close> with one string argument, as \<open>forwardTo\<close> calls it: the verbs
  without flags, the literal percent sign, a missing and an extra argument. A directive with
  flags, a width, an argument index or a verb that is not ASCII, and the quoting verb, leave the
  fragment: their text is an argument of the model.
\<close>

definition fmt_flag :: "char \<Rightarrow> bool" where
  "fmt_flag c \<longleftrightarrow> is_digit c \<or> c \<in> set ''+-# .*['' \<or> c = CHR ''q'' \<or> 128 \<le> byte_val c"

text \<open>The text of one verb applied to the string, or of a verb that finds no argument.\<close>

definition fmt_verb :: "bool \<Rightarrow> string \<Rightarrow> char \<Rightarrow> string" where
  "fmt_verb used tok v =
     (if used then ''%!'' @ [v] @ ''(MISSING)''
      else if v = CHR ''s'' \<or> v = CHR ''v'' then tok
      else if v = CHR ''x'' then hex_encode tok
      else if v = CHR ''X'' then map upper_byte (hex_encode tok)
      else if v = CHR ''T'' then ''string''
      else ''%!'' @ [v] @ ''(string='' @ tok @ '')'')"

definition fmt_extra :: "bool \<Rightarrow> string \<Rightarrow> string" where
  "fmt_extra used tok = (if used then [] else ''%!(EXTRA string='' @ tok @ '')'')"

fun sprintf_loop :: "bool \<Rightarrow> string \<Rightarrow> string \<Rightarrow> string option" where
  "sprintf_loop used tok [] = Some (fmt_extra used tok)"
| "sprintf_loop used tok (c # s) =
     (if c \<noteq> CHR ''%'' then map_option ((#) c) (sprintf_loop used tok s)
      else (case s of
              [] \<Rightarrow> Some (''%!(NOVERB)'' @ fmt_extra used tok)
            | v # r \<Rightarrow>
                if v = CHR ''%'' then map_option ((#) v) (sprintf_loop used tok r)
                else if fmt_flag v then None
                else map_option ((@) (fmt_verb used tok v)) (sprintf_loop True tok r)))"

definition go_sprintf :: "env \<Rightarrow> string \<Rightarrow> string \<Rightarrow> string" where
  "go_sprintf E fmt tok =
     (case sprintf_loop False tok fmt of Some t \<Rightarrow> t | None \<Rightarrow> fmt_other E fmt tok)"

lemma sprintf_loop_plain:
  "CHR ''%'' \<notin> set a \<Longrightarrow> sprintf_loop used tok (a @ s) = map_option ((@) a) (sprintf_loop used tok s)"
proof (induction a)
  case Nil
  then show ?case by (cases "sprintf_loop used tok s") auto
next
  case (Cons c a)
  then show ?case by (cases "sprintf_loop used tok s") auto
qed

lemma go_sprintf_one_verb:
  assumes "CHR ''%'' \<notin> set a" "CHR ''%'' \<notin> set b"
  shows "go_sprintf E (a @ ''%s'' @ b) tok = a @ tok @ b"
proof -
  have "sprintf_loop True tok b = Some b"
    using sprintf_loop_plain [OF assms(2), of True tok "[]"] by (simp add: fmt_extra_def)
  then have "sprintf_loop False tok (''%s'' @ b) = Some (tok @ b)"
    by (simp add: fmt_verb_def fmt_flag_def is_digit_def)
  then have "sprintf_loop False tok (a @ ''%s'' @ b) = Some (a @ tok @ b)"
    using sprintf_loop_plain [OF assms(1), of False tok "''%s'' @ b"] by simp
  then show ?thesis by (simp add: go_sprintf_def)
qed

end
