(* ===== verification/Forward.thy ===== *)
theory Forward
  imports Response_Writer Validators Ingress Egress Go_Fmt
begin

text \<open>
  \<open>forwardTo\<close> of \<open>internal/proxy/proxy.go\<close>: the director that rewrites the request, what
  \<open>httputil.ReverseProxy\<close> does around it (hop-by-hop removal, \<open>X-Forwarded-For\<close>, the response
  path), the transport with the egress guard, the error handler, the body tracker and the
  recovered abort. The network is an argument: the resolver, the proxy setting of the process
  environment that the default transport honours, and the far side of a dialed connection.
\<close>

section \<open>The server and the world\<close>

datatype transport_error = TDial dial_error | TMaxBytes int | TOther string

text \<open>What a round trip yields: the informational responses, then an error or the response.\<close>

type_synonym exchange = "(nat \<times> header) list \<times> (transport_error + response)"

record world =
  wd_resolve :: "string \<Rightarrow> addr list option"
  wd_upstream :: "dial_target \<Rightarrow> request \<Rightarrow> exchange"
  wd_proxy :: "url \<Rightarrow> string option"      \<comment> \<open>dial address of the proxy for a target, from the environment\<close>
  wd_elapsed :: int

record server =
  srv_private :: "private_key option"
  srv_previous :: "private_key option"
  srv_allow_no_auth :: bool
  srv_allow_passthrough :: bool
  srv_filtered :: "string list"
  srv_disable_xff :: bool
  srv_self :: "string set"
  srv_cidrs :: "prefix list"
  srv_trust_tls :: bool
  srv_trust_cf :: bool
  srv_max_bytes :: int
  srv_transport :: "(request \<Rightarrow> exchange) option"
  srv_disable_guard :: bool

text \<open>The errors that reach a log line.\<close>

datatype cause =
    CReject reject
  | CSeal seal_error
  | CIngress ingress_error
  | CNotInAllowlist addr
  | CBadUrl
  | CContentLength int int
  | CTransport transport_error
  | CReadError string
  | CCopyAborted

text \<open>
  What a request leaves behind, in order: log lines, and the requests that were handed to a
  connection, with the dialed address unless the transport was injected.
\<close>

datatype event = Logged "cause log_line" | Exchange "dial_target option" request

type_synonym trace = "event list"

section \<open>The director\<close>

text \<open>
  The rewritten request, from the copy that the reverse proxy hands to the director. \<open>target\<close> is
  the upstream URL with the scheme, host and user fixed by \<open>forward_target\<close>.
\<close>

definition forward_target :: "env \<Rightarrow> url \<Rightarrow> url" where
  "forward_target E upstream =
     upstream\<lparr>url_scheme := ''https'',
              url_host := to_lower (uni_lower E) (strip_port (url_host upstream)),
              url_user := None\<rparr>"

definition strip_headers :: "server \<Rightarrow> header \<Rightarrow> header" where
  "strip_headers srv h0 =
     (let h1 = foldl header_del h0 hop_by_hop_headers;
          h2 = (if srv_trust_cf srv then foldl header_del h1 CloudflareTrustHeaders else h1);
          h3 = foldl header_del h2 (srv_filtered srv)
      in if srv_disable_xff srv then h3(''X-Forwarded-For'' \<mapsto> []) else h3)"

definition auth_headers :: "string list" where
  "auth_headers = [''Authorization'', ''Proxy-Authorization'', ''Proxy-Authenticate'']"

definition inject_credential :: "env \<Rightarrow> injectHeader option \<Rightarrow> string \<Rightarrow> string \<Rightarrow> header \<Rightarrow> header" where
  "inject_credential E ihp fmt hn h =
     (case ihp of
        None \<Rightarrow> h
      | Some ih \<Rightarrow> header_set (foldl header_del h auth_headers) hn (go_sprintf E fmt (token ih)))"

definition director ::
  "env \<Rightarrow> server \<Rightarrow> url \<Rightarrow> injectHeader option \<Rightarrow> string \<Rightarrow> string \<Rightarrow> request \<Rightarrow> request" where
  "director E srv target ihp fmt hn req =
     req\<lparr>req_url := target, req_host := url_host target,
         req_header := inject_credential E ihp fmt hn (strip_headers srv (req_header req))\<rparr>"

section \<open>httputil.ReverseProxy, request side\<close>

definition rp_hop_headers :: "string list" where
  "rp_hop_headers =
     [''Connection'', ''Proxy-Connection'', ''Keep-Alive'', ''Proxy-Authenticate'', ''Proxy-Authorization'',
      ''Te'', ''Trailer'', ''Transfer-Encoding'', ''Upgrade'']"

definition ascii_space :: "char \<Rightarrow> bool" where
  "ascii_space c \<longleftrightarrow> byte_val c \<in> {32, 9, 10, 13}"

text \<open>The header names that the \<open>Connection\<close> lines nominate.\<close>

definition connection_tokens :: "header \<Rightarrow> string list" where
  "connection_tokens h =
     filter (\<lambda>t. t \<noteq> [])
       (map (trim_both ascii_space) (concat (map (split_byte (CHR '','')) (header_values h ''Connection''))))"

definition remove_hop_by_hop :: "header \<Rightarrow> header" where
  "remove_hop_by_hop h = foldl header_del (foldl header_del h (connection_tokens h)) rp_hop_headers"

definition upgrade_type :: "header \<Rightarrow> string" where
  "upgrade_type h =
     (if values_contain_token (header_values h ''Connection'') ''Upgrade'' then header_get h ''Upgrade'' else [])"

definition print_byte :: "char \<Rightarrow> bool" where
  "print_byte c \<longleftrightarrow> 32 \<le> byte_val c \<and> byte_val c \<le> 126"

definition keep_te :: "header \<Rightarrow> header \<Rightarrow> header" where
  "keep_te original h =
     (if values_contain_token (header_values original ''Te'') ''trailers'' then header_set h ''Te'' ''trailers'' else h)"

definition keep_upgrade :: "string \<Rightarrow> header \<Rightarrow> header" where
  "keep_upgrade up h =
     (if up = [] then h else header_set (header_set h ''Connection'' ''Upgrade'') ''Upgrade'' up)"

definition join_comma :: "string list \<Rightarrow> string" where
  "join_comma vs = sep_by '', '' vs"

text \<open>
  \<open>X-Forwarded-For\<close>: a key that is present without values is Go's \<open>nil\<close> entry and suppresses
  the header; otherwise the peer address is appended to what is there.
\<close>

definition append_xff :: "string \<Rightarrow> header \<Rightarrow> header" where
  "append_xff remote h =
     (case split_host_port remote of
        Inl _ \<Rightarrow> h
      | Inr (ip, _) \<Rightarrow>
          (case h ''X-Forwarded-For'' of
             None \<Rightarrow> header_set h ''X-Forwarded-For'' ip
           | Some [] \<Rightarrow> h
           | Some prior \<Rightarrow> header_set h ''X-Forwarded-For'' (join_comma prior @ '', '' @ ip)))"

definition default_user_agent :: "header \<Rightarrow> header" where
  "default_user_agent h = (if h ''User-Agent'' = None then header_set h ''User-Agent'' [] else h)"

text \<open>The outbound request, or \<open>None\<close> for an upgrade the reverse proxy refuses.\<close>

definition rp_outbound :: "request \<Rightarrow> (request \<Rightarrow> request) \<Rightarrow> request option" where
  "rp_outbound req direct =
     (let out = direct (if req_length req = 0 then req\<lparr>req_body := [], req_body_end := BodyEOF\<rparr> else req);
          up = upgrade_type (req_header out)
      in if \<not> list_all print_byte up then None
         else Some (out\<lparr>req_header :=
                default_user_agent (append_xff (req_remote req)
                  (keep_upgrade up (keep_te (req_header req) (remove_hop_by_hop (req_header out)))))\<rparr>))"

section \<open>The transport\<close>

text \<open>
  The default transport: it dials the proxy of the environment or the target, through the guard.
\<close>

definition dial_address :: "env \<Rightarrow> world \<Rightarrow> url \<Rightarrow> string" where
  "dial_address E W u =
     (case wd_proxy W u of Some a \<Rightarrow> a | None \<Rightarrow> canonical_addr (idna_ascii E) u)"

definition guarded_round_trip :: "env \<Rightarrow> server \<Rightarrow> world \<Rightarrow> request \<Rightarrow> exchange \<times> trace" where
  "guarded_round_trip E srv W out =
     (case guarded_dial E (srv_self srv) (srv_disable_guard srv) (wd_resolve W) (dial_address E W (req_url out)) of
        (Inl e, logs) \<Rightarrow> (([], Inl (TDial e)), map Logged logs)
      | (Inr t, logs) \<Rightarrow> (wd_upstream W t out, map Logged logs @ [Exchange (Some t) out]))"

definition round_trip :: "env \<Rightarrow> server \<Rightarrow> world \<Rightarrow> request \<Rightarrow> exchange \<times> trace" where
  "round_trip E srv W out =
     (case srv_transport srv of
        Some t \<Rightarrow> (t out, [Exchange None out])
      | None \<Rightarrow> guarded_round_trip E srv W out)"

section \<open>The error handler\<close>

definition error_handler :: "transport_error \<Rightarrow> status_writer \<Rightarrow> status_writer \<times> trace" where
  "error_handler err sw =
     (case err of
        TDial e \<Rightarrow>
          if egress_refused e then
            (sw_error ''egress refused'' 403 sw,
             [Logged (LogLine Warn ''egress_refused_at_dial'' [(''error'', LError (CTransport err))])])
          else
            (sw_error ''upstream error'' 502 sw,
             [Logged (LogLine Warn ''upstream_error'' [(''error'', LError (CTransport err))])])
      | TMaxBytes n \<Rightarrow>
          (sw_error ''request body too large'' 413 sw,
           [Logged (LogLine Warn ''request_too_large_streamed''
              [(''limit'', LInt n), (''error'', LError (CTransport err))])])
      | TOther _ \<Rightarrow>
          (sw_error ''upstream error'' 502 sw,
           [Logged (LogLine Warn ''upstream_error'' [(''error'', LError (CTransport err))])]))"

section \<open>httputil.ReverseProxy, response side\<close>

text \<open>\<open>copyHeader\<close>: the values of the source are appended to those that are there.\<close>

definition copy_header :: "header \<Rightarrow> header \<Rightarrow> header" where
  "copy_header src dst =
     (\<lambda>k. case src k of
            None \<Rightarrow> dst k
          | Some vs \<Rightarrow> Some ((case dst k of None \<Rightarrow> [] | Some old \<Rightarrow> old) @ vs))"

text \<open>
  An informational response: its headers are copied, the code is written, and the header map of
  the writer is emptied again.
\<close>

definition relay_info :: "status_writer \<Rightarrow> nat \<times> header \<Rightarrow> status_writer" where
  "relay_info sw p =
     sw_update_header (\<lambda>_. no_headers) (sw_write_header (fst p) (sw_update_header (copy_header (snd p)) sw))"

text \<open>\<open>bodyReadTracker\<close>: the reads pass through, a read error other than the end is kept.\<close>

record body_read_tracker =
  brt_reads :: "(bytes \<times> read_err) list"
  brt_err :: "string option"

definition tracker_wrap :: "response \<Rightarrow> body_read_tracker" where
  "tracker_wrap resp = \<lparr>brt_reads = resp_reads resp, brt_err = None\<rparr>"

definition tracker_read :: "body_read_tracker \<Rightarrow> (bytes \<times> read_err) \<times> body_read_tracker" where
  "tracker_read b =
     (case brt_reads b of
        [] \<Rightarrow> (([], ReadEOF), b)
      | (p, e) # rs \<Rightarrow>
          ((p, e), b\<lparr>brt_reads := rs, brt_err := (case e of ReadErr x \<Rightarrow> Some x | _ \<Rightarrow> brt_err b)\<rparr>))"

text \<open>
  The copy loop of the reverse proxy: read, write what was read, stop at a write error, at the end
  or at a read error. The flag says that the copy failed.
\<close>

lemma tracker_read_shorter:
  "((p, ReadOk), b') = tracker_read b \<Longrightarrow> length (brt_reads b') < length (brt_reads b)"
  by (auto simp: tracker_read_def split: list.splits)

function copy_body :: "body_read_tracker \<Rightarrow> status_writer \<Rightarrow> bool \<times> body_read_tracker \<times> status_writer" where
  "copy_body b sw =
     (case tracker_read b of ((p, e), b') \<Rightarrow>
        (case (if p = [] then (False, sw) else sw_write p sw) of (failed, sw') \<Rightarrow>
           if failed then (True, b', sw')
           else (case e of
                   ReadOk \<Rightarrow> copy_body b' sw'
                 | ReadEOF \<Rightarrow> (False, b', sw')
                 | ReadErr _ \<Rightarrow> (True, b', sw'))))"
  by pat_completeness auto

termination copy_body
  by (relation "measure (\<lambda>(b, sw). length (brt_reads b))")
    (auto dest: tracker_read_shorter)

declare copy_body.simps [simp del]

text \<open>
  A copy that fails makes the reverse proxy panic with \<open>ErrAbortHandler\<close>, which \<open>forwardTo\<close> recovers: it
  returns the tracked read error, or the abort where there is none.
\<close>

definition copy_error :: "bool \<Rightarrow> body_read_tracker \<Rightarrow> cause option" where
  "copy_error aborted b =
     (if aborted then (case brt_err b of Some e \<Rightarrow> Some (CReadError e) | None \<Rightarrow> Some CCopyAborted)
      else map_option CReadError (brt_err b))"

text \<open>The response path of the reverse proxy: the header, then the body through the tracker.\<close>

definition relay_response :: "response \<Rightarrow> status_writer \<Rightarrow> cause option \<times> status_writer" where
  "relay_response resp sw =
     (let sw1 = sw_write_header (resp_status resp)
                  (sw_update_header (copy_header (remove_hop_by_hop (resp_header resp))) sw);
          (aborted, b, sw2) = copy_body (tracker_wrap resp) sw1
      in (copy_error aborted b, sw2))"

section \<open>forwardTo\<close>

definition forward_to ::
  "env \<Rightarrow> server \<Rightarrow> world \<Rightarrow> status_writer \<Rightarrow> request \<Rightarrow> url \<Rightarrow> injectHeader option \<Rightarrow> string \<Rightarrow> string \<Rightarrow>
   cause option \<times> status_writer \<times> trace" where
  "forward_to E srv W sw r upstream ihp fmt hn =
     (let target = forward_target E upstream in
      if url_host target = [] then (None, sw_error ''missing target host'' 400 sw, [])
      else
        (case rp_outbound r (director E srv target ihp fmt hn) of
           None \<Rightarrow> (let (sw', lg) = error_handler (TOther ''invalid upgrade'') sw in (None, sw', lg))
         | Some out \<Rightarrow>
             (case round_trip E srv W out of
                ((infos, Inl err), lg) \<Rightarrow>
                  (let (sw', lg') = error_handler err (foldl relay_info sw infos) in (None, sw', lg @ lg'))
              | ((infos, Inr resp), lg) \<Rightarrow>
                  if resp_status resp = 101 then
                    (let (sw', lg') = error_handler (TOther ''switching protocols'') (foldl relay_info sw infos)
                     in (None, sw', lg @ lg'))
                  else
                    (let (ce, sw') = relay_response resp (foldl relay_info sw infos) in (ce, sw', lg)))))"

end
