(* ===== verification/Server.thy ===== *)
theory Server
  imports Forward
begin

text \<open>
  The request handler of \<open>internal/proxy/proxy.go\<close>: \<open>Handler\<close>, \<open>serve\<close>, \<open>handlePublicKey\<close>,
  \<open>handleForward\<close> with every early return in the order of the code, \<open>passthrough\<close>,
  \<open>respondError\<close> and \<open>logForwardOutcome\<close>. A handler maps a request and a writer to the writer
  afterwards and the trace.
\<close>

section \<open>Log lines of the outcome\<close>

definition respond_error ::
  "world \<Rightarrow> nat \<Rightarrow> string \<Rightarrow> cause option \<Rightarrow> cause log_fields \<Rightarrow> writer \<Rightarrow> writer \<times> trace" where
  "respond_error W code msg cause flds w =
     (let flds1 = (case cause of Some e \<Rightarrow> flds @ [(''error'', LError e)] | None \<Rightarrow> flds);
          flds_end = flds1 @ [(''status'', LInt (int code)), (''dur_ms'', LInt (wd_elapsed W)), (''reason'', LString msg)]
      in (http_error msg code w, [Logged (LogLine Warn ''proxy_reject'' flds_end)]))"

definition log_forward_outcome ::
  "world \<Rightarrow> string \<Rightarrow> cause option \<Rightarrow> nat \<Rightarrow> cause log_fields \<Rightarrow> trace" where
  "log_forward_outcome W ev copy_err status flds =
     (let tail = flds @ [(''status'', LInt (int status)), (''dur_ms'', LInt (wd_elapsed W))] in
      case copy_err of
        Some e \<Rightarrow> [Logged (LogLine Warn (ev @ ''_truncated'') (tail @ [(''error'', LError e)]))]
      | None \<Rightarrow> [Logged (LogLine Info ev tail)])"

section \<open>Passthrough and forwarding\<close>

definition run_forward ::
  "env \<Rightarrow> server \<Rightarrow> world \<Rightarrow> string \<Rightarrow> writer \<Rightarrow> request \<Rightarrow> url \<Rightarrow> injectHeader option \<Rightarrow> string \<Rightarrow> string \<Rightarrow>
   cause log_fields \<Rightarrow> writer \<times> trace" where
  "run_forward E srv W ev w r upstream ihp fmt hn flds =
     (let (copy_err, sw, tr) = forward_to E srv W (new_status_writer w) r upstream ihp fmt hn
      in (sw_inner sw, tr @ log_forward_outcome W ev copy_err (sw_status sw) flds))"

definition passthrough ::
  "env \<Rightarrow> server \<Rightarrow> world \<Rightarrow> writer \<Rightarrow> request \<Rightarrow> url \<Rightarrow> cause log_fields \<Rightarrow> writer \<times> trace" where
  "passthrough E srv W w r upstream flds =
     (case reject_non_standard_port (url_host upstream) of
        Some e \<Rightarrow> respond_error W 403 ''request not permitted'' (Some (CReject e)) flds w
      | None \<Rightarrow> run_forward E srv W ''passthrough'' w r upstream None [] [] flds)"

section \<open>handleForward\<close>

definition request_log_fields :: "env \<Rightarrow> request \<Rightarrow> url \<Rightarrow> cause log_fields" where
  "request_log_fields E r u =
     [(''method'', LString (req_method r)), (''host'', LString (url_host u)), (''path'', LString (url_path u)),
      (''query_keys'', LStrings (query_keys E u))]"

definition seal_log_fields :: "secret \<Rightarrow> cause log_fields" where
  "seal_log_fields s =
     [(''auth'', LString (auth_kind s)), (''processor'', LString (processor_kind s)),
      (''seal_euid'', LString (euid s)), (''seal_name'', LString (name s))]"

text \<open>The authentication switch: the refusal, or \<open>None\<close>.\<close>

definition check_auth :: "server \<Rightarrow> request \<Rightarrow> secret \<Rightarrow> string option" where
  "check_auth srv r s =
     (case bearer_auth s of
        Some b \<Rightarrow>
          (case extract_bearer (header_get (req_header r) HeaderAuthBearer) of
             None \<Rightarrow> Some ''bearer mismatch''
           | Some bearer \<Rightarrow> if \<not> verify_bearer b bearer then Some ''bearer mismatch'' else None)
      | None \<Rightarrow>
          (case no_auth s of
             Some _ \<Rightarrow> if \<not> srv_allow_no_auth srv
                       then Some ''no_auth refused (server lacks --allow-no-auth)'' else None
           | None \<Rightarrow> None))"

text \<open>From the opened seal to the end: authentication, processor, the four rules, forwarding.\<close>

definition handle_opened ::
  "env \<Rightarrow> server \<Rightarrow> world \<Rightarrow> writer \<Rightarrow> request \<Rightarrow> url \<Rightarrow> secret \<Rightarrow> override option \<Rightarrow> cause log_fields \<Rightarrow>
   writer \<times> trace" where
  "handle_opened E srv W w r upstream s ov flds =
     (case check_auth srv r s of
        Some msg \<Rightarrow> respond_error W 401 msg None flds w
      | None \<Rightarrow>
         (case resolve_processor (inject_header s) ov of
            Inl e \<Rightarrow> respond_error W 400 ''override rejected'' (Some (CReject e)) flds w
          | Inr (fmt, hn) \<Rightarrow>
             (case reject_non_standard_port (url_host upstream) of
                Some e \<Rightarrow> respond_error W 403 ''request not permitted'' (Some (CReject e)) flds w
              | None \<Rightarrow>
             (case validate_host E (url_host upstream) s of
                Some e \<Rightarrow> respond_error W 403 ''request not permitted'' (Some (CReject e)) flds w
              | None \<Rightarrow>
             (case validate_path E (url_path upstream) s of
                Some e \<Rightarrow> respond_error W 403 ''request not permitted'' (Some (CReject e)) flds w
              | None \<Rightarrow>
             (case validate_method (req_method r) s of
                Some e \<Rightarrow> respond_error W 403 ''request not permitted'' (Some (CReject e)) flds w
              | None \<Rightarrow> run_forward E srv W ''proxied'' w r upstream (inject_header s) fmt hn flds))))))"

text \<open>The steps on the sealed header, with the upstream URL parsed. The private key is not \<open>nil\<close> here.\<close>

definition handle_sealed ::
  "env \<Rightarrow> server \<Rightarrow> private_key \<Rightarrow> world \<Rightarrow> writer \<Rightarrow> request \<Rightarrow> url \<Rightarrow> writer \<times> trace" where
  "handle_sealed E srv key W w r upstream =
     (let flds = request_log_fields E r upstream in
      if 1 < length (header_values (req_header r) HeaderSealedSecret) then
        respond_error W 400 ''multiple X-Sealed-Secret headers (chaining deferred)'' None flds w
      else
        (case parse_sealed_header (header_get (req_header r) HeaderSealedSecret) of
           Inl e \<Rightarrow>
             if e = MissingSecret \<and> srv_allow_passthrough srv then passthrough E srv W w r upstream flds
             else respond_error W 400 ''invalid X-Sealed-Secret'' (Some (CReject e)) flds w
         | Inr (blob, ov) \<Rightarrow>
             (case open_op E blob key (case srv_previous srv of Some p \<Rightarrow> [p] | None \<Rightarrow> []) of
                Inl e \<Rightarrow> respond_error W 401 ''seal open failed'' (Some (CSeal e)) flds w
              | Inr (s, used_fallback) \<Rightarrow>
                  (let flds2 = flds @ seal_log_fields s;
                       (w', tr) = handle_opened E srv W w r upstream s ov flds2
                   in (w', (if used_fallback then [Logged (LogLine Warn ''seal_opened_via_previous_key'' flds2)] else [])
                           @ tr)))))"

definition handle_upstream ::
  "env \<Rightarrow> server \<Rightarrow> private_key \<Rightarrow> world \<Rightarrow> writer \<Rightarrow> request \<Rightarrow> writer \<times> trace" where
  "handle_upstream E srv key W w r =
     (let raw = header_get (req_header r) HeaderUpstreamURL in
      if raw = [] then respond_error W 400 ''missing X-Upstream-URL'' None [] w
      else (case url_parse E raw of
              None \<Rightarrow> respond_error W 400 ''bad X-Upstream-URL'' (Some CBadUrl) [] w
            | Some u \<Rightarrow>
                if url_host u = [] then respond_error W 400 ''bad X-Upstream-URL'' None [] w
                else handle_sealed E srv key W w r u))"

definition handle_ingress ::
  "env \<Rightarrow> server \<Rightarrow> private_key \<Rightarrow> world \<Rightarrow> writer \<Rightarrow> request \<Rightarrow> writer \<times> trace" where
  "handle_ingress E srv key W w r =
     (if srv_cidrs srv = [] then handle_upstream E srv key W w r
      else (case client_ip_from_request r (srv_trust_tls srv) (srv_trust_cf srv) of
              Inl e \<Rightarrow> respond_error W 403 ''client ip not allowed'' (Some (CIngress e)) [] w
            | Inr ip \<Rightarrow>
                if \<not> ip_in_prefixes ip (srv_cidrs srv) then
                  respond_error W 403 ''client ip not allowed'' (Some (CNotInAllowlist ip)) [(''client_ip'', LAddr ip)] w
                else handle_upstream E srv key W w r))"

definition handle_forward ::
  "env \<Rightarrow> server \<Rightarrow> private_key \<Rightarrow> world \<Rightarrow> writer \<Rightarrow> request \<Rightarrow> writer \<times> trace" where
  "handle_forward E srv key W w r =
     (if 0 < srv_max_bytes srv then
        (if srv_max_bytes srv < req_length r then
           respond_error W 413 ''request body too large'' (Some (CContentLength (req_length r) (srv_max_bytes srv))) [] w
         else handle_ingress E srv key W w (max_bytes_reader (srv_max_bytes srv) r))
      else handle_ingress E srv key W w r)"

section \<open>serve and Handler\<close>

definition handle_public_key :: "env \<Rightarrow> private_key \<Rightarrow> writer \<Rightarrow> writer \<times> trace" where
  "handle_public_key E key w =
     (snd (write_bytes (key_hex (public_of E key)) (set_header ''Content-Type'' ''text/plain'' w)), [])"

definition serve ::
  "env \<Rightarrow> server \<Rightarrow> private_key \<Rightarrow> world \<Rightarrow> writer \<Rightarrow> request \<Rightarrow> writer \<times> trace" where
  "serve E srv key W w r =
     (let p = url_path (req_url r) in
      if p = PublicKeyPath then handle_public_key E key w
      else if p = HealthPath \<or> p = ReadyPath then (snd (write_bytes ''ok'' (write_header 200 w)), [])
      else if p = ForwardPath then handle_forward E srv key W w r
      else (http_error ''404 page not found'' 404 w, []))"

text \<open>\<open>Handler\<close>: \<open>None\<close> is the panic of a server without a private key.\<close>

definition handler ::
  "env \<Rightarrow> server \<Rightarrow> (world \<Rightarrow> writer \<Rightarrow> request \<Rightarrow> writer \<times> trace) option" where
  "handler E srv = (case srv_private srv of None \<Rightarrow> None | Some key \<Rightarrow> Some (serve E srv key))"

end
