(* ===== verification/Forward_Laws.thy ===== *)
theory Forward_Laws
  imports Forward
begin

text \<open>
  What the forwarding pipeline does to the headers of a request, name by name, and where its
  dials go. The lookups of the pipeline are computed step by step; the header interface
  \<open>hdr\<close> gives the laws of the single steps.
\<close>

section \<open>Keys\<close>

lemma canonical_keys [simp]:
  "canonical_key ''Connection'' = ''Connection''" "canonical_key ''Proxy-Connection'' = ''Proxy-Connection''"
  "canonical_key ''Keep-Alive'' = ''Keep-Alive''" "canonical_key ''Te'' = ''Te''"
  "canonical_key ''Trailer'' = ''Trailer''" "canonical_key ''Transfer-Encoding'' = ''Transfer-Encoding''"
  "canonical_key ''Upgrade'' = ''Upgrade''" "canonical_key ''X-Forwarded-For'' = ''X-Forwarded-For''"
  "canonical_key ''User-Agent'' = ''User-Agent''" "canonical_key ''Authorization'' = ''Authorization''"
  "canonical_key ''Proxy-Authorization'' = ''Proxy-Authorization''"
  "canonical_key ''Proxy-Authenticate'' = ''Proxy-Authenticate''"
  "canonical_key HeaderUpstreamURL = ''X-Upstream-Url''"
  "canonical_key HeaderSealedSecret = ''X-Sealed-Secret''"
  "canonical_key HeaderAuthBearer = ''X-Auth-Bearer''"
  "canonical_key CFConnectingIPHeader = ''Cf-Connecting-Ip''" "canonical_key ''CF-Ray'' = ''Cf-Ray''"
  "canonical_key ''CF-IPCountry'' = ''Cf-Ipcountry''" "canonical_key ''CF-Visitor'' = ''Cf-Visitor''"
  "canonical_key ''True-Client-IP'' = ''True-Client-Ip''"
  by code_simp+

lemma same_key_refl [simp]: "same_key k k"
  by (simp add: same_key_def)

lemma same_key_sym: "same_key j k \<longleftrightarrow> same_key k j"
  by (auto simp: same_key_def)

definition any_key :: "string list \<Rightarrow> string \<Rightarrow> bool" where
  "any_key ks j \<longleftrightarrow> (\<exists>k \<in> set ks. same_key j k)"

lemma any_key_simps [simp]:
  "\<not> any_key [] j" "any_key (k # ks) j \<longleftrightarrow> same_key j k \<or> any_key ks j"
  by (auto simp: any_key_def)

section \<open>The steps\<close>

lemma lookup_del_all: "header_lookup (foldl header_del h ks) j = (if any_key ks j then None else header_lookup h j)"
  by (simp add: any_key_def hdr.lookup_remove_all)

lemma lookup_raw: "h ''X-Forwarded-For'' = header_lookup h ''X-Forwarded-For''"
  "h ''User-Agent'' = header_lookup h ''User-Agent''"
  by (simp_all add: header_lookup_def)

lemma lookup_raw_put:
  "header_lookup (h(''X-Forwarded-For'' \<mapsto> vs)) j = (if same_key j ''X-Forwarded-For'' then Some vs else header_lookup h j)"
  by (auto simp: header_lookup_def same_key_def)

definition stripped :: "server \<Rightarrow> string \<Rightarrow> bool" where
  "stripped srv j \<longleftrightarrow> any_key hop_by_hop_headers j \<or> (srv_trust_cf srv \<and> any_key CloudflareTrustHeaders j) \<or>
     any_key (srv_filtered srv) j"

lemma lookup_strip_headers:
  "header_lookup (strip_headers srv h) j =
     (if srv_disable_xff srv \<and> same_key j ''X-Forwarded-For'' then Some []
      else if stripped srv j then None else header_lookup h j)"
  by (simp add: strip_headers_def Let_def lookup_raw_put lookup_del_all stripped_def)

lemma lookup_inject:
  "header_lookup (inject_credential E ihp fmt hn h) j =
     (case ihp of
        None \<Rightarrow> header_lookup h j
      | Some ih \<Rightarrow> if same_key j hn then Some [go_sprintf E fmt (token ih)]
                   else if any_key auth_headers j then None else header_lookup h j)"
  by (simp add: inject_credential_def hdr.lookup_put lookup_del_all split: option.splits)

lemma lookup_hop:
  "header_lookup (remove_hop_by_hop h) j =
     (if any_key rp_hop_headers j \<or> any_key (connection_tokens h) j then None else header_lookup h j)"
  by (simp add: remove_hop_by_hop_def lookup_del_all)

lemma lookup_keep_te:
  "header_lookup (keep_te h0 h) j =
     (if same_key j ''Te'' \<and> values_contain_token (header_values h0 ''Te'') ''trailers'' then Some [''trailers'']
      else header_lookup h j)"
  by (simp add: keep_te_def hdr.lookup_put)

lemma lookup_xff:
  "header_lookup (append_xff remote h) j =
     (if same_key j ''X-Forwarded-For'' then header_lookup (append_xff remote h) ''X-Forwarded-For''
      else header_lookup h j)"
  using hdr.lookup_same [of j "''X-Forwarded-For''"]
  by (auto simp: append_xff_def hdr.lookup_put split: sum.splits option.splits list.splits)

lemma lookup_user_agent:
  "header_lookup (default_user_agent h) j =
     (if same_key j ''User-Agent'' \<and> header_lookup h ''User-Agent'' = None then Some [[]] else header_lookup h j)"
  by (auto simp: default_user_agent_def lookup_raw [of h] hdr.lookup_put)

section \<open>The outbound headers\<close>

definition director_headers ::
  "env \<Rightarrow> server \<Rightarrow> injectHeader option \<Rightarrow> string \<Rightarrow> string \<Rightarrow> header \<Rightarrow> header" where
  "director_headers E srv ihp fmt hn h = inject_credential E ihp fmt hn (strip_headers srv h)"

lemma lookup_director:
  "header_lookup (director_headers E srv ihp fmt hn h) j =
     (case ihp of
        None \<Rightarrow> header_lookup (strip_headers srv h) j
      | Some ih \<Rightarrow> if same_key j hn then Some [go_sprintf E fmt (token ih)]
                   else if any_key auth_headers j then None else header_lookup (strip_headers srv h) j)"
  by (simp only: director_headers_def lookup_inject)

definition outbound_headers ::
  "env \<Rightarrow> server \<Rightarrow> injectHeader option \<Rightarrow> string \<Rightarrow> string \<Rightarrow> request \<Rightarrow> header" where
  "outbound_headers E srv ihp fmt hn r =
     default_user_agent (append_xff (req_remote r)
       (keep_te (req_header r) (remove_hop_by_hop (director_headers E srv ihp fmt hn (req_header r)))))"

text \<open>An upgrade is never forwarded: the director leaves at most one of the two headers it needs.\<close>

lemma hop_by_hop_has: "any_key hop_by_hop_headers ''Connection''" "any_key hop_by_hop_headers ''Upgrade''"
  by (simp_all add: hop_by_hop_headers_def same_key_def)

lemma xff_not_connection: "\<not> same_key ''Connection'' ''X-Forwarded-For''" "\<not> same_key ''Upgrade'' ''X-Forwarded-For''"
  "\<not> any_key auth_headers ''X-Forwarded-For''" "\<not> same_key ''Upgrade'' ''Connection''"
  by (simp_all add: same_key_def auth_headers_def)

lemma director_no_upgrade: "upgrade_type (director_headers E srv ihp fmt hn h) = []"
proof -
  let ?d = "director_headers E srv ihp fmt hn h"
  have none: "header_lookup (strip_headers srv h) ''Connection'' = None" "header_lookup (strip_headers srv h) ''Upgrade'' = None"
    using hop_by_hop_has xff_not_connection by (simp_all add: lookup_strip_headers stripped_def)
  have "header_lookup ?d ''Connection'' = None \<or> header_lookup ?d ''Upgrade'' = None"
    using none by (cases "canonical_key hn = ''Connection''") (auto simp: lookup_director same_key_def split: option.splits)
  then show ?thesis
    by (auto simp: upgrade_type_def header_get_def header_values_lookup values_contain_token_def)
qed

lemma rp_outbound_eq:
  "rp_outbound r (director E srv target ihp fmt hn) =
     Some (r\<lparr>req_url := target, req_host := url_host target,
             req_header := outbound_headers E srv ihp fmt hn r,
             req_body := (if req_length r = 0 then [] else req_body r),
             req_body_end := (if req_length r = 0 then BodyEOF else req_body_end r)\<rparr>)"
  using director_no_upgrade [of E srv ihp fmt hn "req_header r"]
  by (cases r) (simp add: rp_outbound_def director_def director_headers_def [symmetric] outbound_headers_def keep_upgrade_def Let_def)

text \<open>Names the reverse proxy itself writes or removes.\<close>

definition proxy_owned :: "string list" where
  "proxy_owned = ''X-Forwarded-For'' # ''User-Agent'' # rp_hop_headers"

lemma proxy_owned_iff:
  "any_key proxy_owned j \<longleftrightarrow> same_key j ''X-Forwarded-For'' \<or> same_key j ''User-Agent'' \<or> any_key rp_hop_headers j"
  by (simp add: proxy_owned_def)

lemma te_is_hop: "same_key j ''Te'' \<Longrightarrow> any_key rp_hop_headers j"
  by (simp add: rp_hop_headers_def)

lemma hop_headers_simps: "any_key rp_hop_headers ''Connection''" "any_key rp_hop_headers ''Te''"
  "any_key rp_hop_headers ''Proxy-Authorization''"
  by (simp_all add: rp_hop_headers_def)

text \<open>Without an injected \<open>Connection\<close> header, no name is nominated behind the director.\<close>

lemma connection_tokens_director:
  assumes "\<not> any_key rp_hop_headers hn \<or> ihp = None"
  shows "connection_tokens (director_headers E srv ihp fmt hn h) = []"
proof -
  have "\<not> same_key ''Connection'' hn \<or> ihp = None"
    using assms by (auto simp: any_key_def same_key_def rp_hop_headers_def)
  then have "header_lookup (director_headers E srv ihp fmt hn h) ''Connection'' = None"
    using hop_by_hop_has xff_not_connection
    by (auto simp: lookup_director lookup_strip_headers stripped_def split: option.splits)
  then show ?thesis by (simp add: connection_tokens_def header_values_lookup)
qed

text \<open>A name that the reverse proxy does not own passes through it as the director left it.\<close>

lemma outbound_not_owned:
  assumes "\<not> any_key proxy_owned j" "\<not> any_key rp_hop_headers hn \<or> ihp = None"
  shows "header_lookup (outbound_headers E srv ihp fmt hn r) j =
         header_lookup (director_headers E srv ihp fmt hn (req_header r)) j"
  using assms connection_tokens_director [OF assms(2)] te_is_hop [of j]
  by (auto simp: outbound_headers_def lookup_user_agent lookup_xff [where j = j] lookup_keep_te lookup_hop proxy_owned_iff)

lemma outbound_hop_gone:
  assumes "any_key rp_hop_headers j" "\<not> same_key j ''Te''" "\<not> same_key j ''X-Forwarded-For''" "\<not> same_key j ''User-Agent''"
  shows "header_lookup (outbound_headers E srv ihp fmt hn r) j = None"
  using assms
  by (simp add: outbound_headers_def lookup_user_agent lookup_xff [where j = j] lookup_keep_te lookup_hop)

section \<open>Where a forward goes\<close>

lemma error_handler_logs: "Exchange t out \<notin> set (snd (error_handler err sw))"
  by (auto simp: error_handler_def split: transport_error.splits)

lemma round_trip_exchange:
  assumes "Exchange t out \<in> set (snd (round_trip E srv W req))"
  shows "out = req \<and>
    (t = None \<and> srv_transport srv \<noteq> None \<or>
     (\<exists>tg lg. t = Some tg \<and> srv_transport srv = None \<and>
        guarded_dial E (srv_self srv) (srv_disable_guard srv) (wd_resolve W) (dial_address E W (req_url req)) =
          (Inr tg, lg :: cause log_line list)))"
  using assms
  by (auto simp: round_trip_def guarded_round_trip_def split: option.splits prod.splits sum.splits)

lemma forward_to_exchange:
  assumes "Exchange t out \<in> set (snd (snd (forward_to E srv W sw r upstream ihp fmt hn)))"
  shows "rp_outbound r (director E srv (forward_target E upstream) ihp fmt hn) = Some out \<and>
         Exchange t out \<in> set (snd (round_trip E srv W out))"
proof -
  obtain req where req: "rp_outbound r (director E srv (forward_target E upstream) ihp fmt hn) = Some req"
    using rp_outbound_eq by blast
  obtain infos res lg where rt: "round_trip E srv W req = ((infos, res), lg)" by (metis prod.exhaust)
  have "Exchange t out \<in> set lg"
    using assms error_handler_logs [of t out] req rt
    by (auto simp: forward_to_def Let_def split: if_splits sum.splits prod.splits) (metis snd_conv)+
  then show ?thesis using rt req round_trip_exchange [of t out E srv W req] by simp
qed

text \<open>The dial address of a target without colons and brackets: its own name, port 443.\<close>

lemma in_map_lower:
  assumes "\<not> is_lower d" "\<not> is_upper d"
  shows "d \<in> set (map lower_byte h) \<longleftrightarrow> d \<in> set h"
proof -
  have "d = lower_byte c \<longleftrightarrow> d = c" for c
    using lower_byte_eq_iff_special [OF assms, of c] by metis
  then show ?thesis by (auto simp: image_iff)
qed

lemma map_lower_special: "CHR '':'' \<in> set (map lower_byte h) \<longleftrightarrow> CHR '':'' \<in> set h"
  "bracket_free (map lower_byte h) \<longleftrightarrow> bracket_free h"
proof -
  have d: "\<not> is_lower (CHR '':'')" "\<not> is_upper (CHR '':'')" "\<not> is_lower (CHR ''['')" "\<not> is_upper (CHR ''['')"
    "\<not> is_lower (CHR '']'')" "\<not> is_upper (CHR '']'')"
    by (simp_all add: is_lower_def is_upper_def)
  show "CHR '':'' \<in> set (map lower_byte h) \<longleftrightarrow> CHR '':'' \<in> set h" by (rule in_map_lower) (rule d)+
  show "bracket_free (map lower_byte h) \<longleftrightarrow> bracket_free h"
    unfolding bracket_free_def in_map_lower [OF d(3,4)] in_map_lower [OF d(5,6)] ..
qed

lemma canonical_addr_plain:
  assumes "CHR '':'' \<notin> set (url_host u)" "bracket_free (url_host u)" "idna (url_host u) = url_host u"
  shows "canonical_addr idna u = url_host u @ '':443''"
  using assms url_split_no_colon [OF assms(1,2)]
  by (simp add: canonical_addr_def url_hostname_def url_port_def join_host_port_def)

text \<open>The name part of an upstream host that the port rule lets through.\<close>

lemma reject_port_host:
  assumes "reject_non_standard_port host = None" "CHR ''['' \<notin> set host"
  shows "CHR '':'' \<notin> set (strip_port host) \<and> bracket_free (strip_port host) \<and>
         (host = strip_port host \<or> host = strip_port host @ '':443'')"
  using reject_port_None [OF assms(1)] assms(2)
  by (auto simp: strip_port_plain [unfolded append_Cons append_Nil] strip_port_plain)

lemma dial_address_443:
  assumes "reject_non_standard_port (url_host u) = None" "CHR ''['' \<notin> set (url_host u)" "ascii (url_host u)"
    and idna: "\<And>h. ascii h \<Longrightarrow> idna_ascii E h = h" and px: "wd_proxy W (forward_target E u) = None"
  shows "dial_address E W (forward_target E u) = map lower_byte (strip_port (url_host u)) @ '':443''"
    and "split_host_port (dial_address E W (forward_target E u)) = Inr (map lower_byte (strip_port (url_host u)), ''443'')"
proof -
  let ?h = "strip_port (url_host u)"
  have h: "CHR '':'' \<notin> set ?h" "bracket_free ?h" "ascii ?h"
    using reject_port_host [OF assms(1,2)] assms(3) by (auto simp: ascii_simps) (metis ascii_simps(3))+
  have host: "url_host (forward_target E u) = map lower_byte ?h"
    using h(3) by (simp add: forward_target_def to_lower_ascii)
  have "canonical_addr (idna_ascii E) (forward_target E u) = url_host (forward_target E u) @ '':443''"
    by (rule canonical_addr_plain) (use h host map_lower_special [of ?h] idna in simp_all)
  then show a: "dial_address E W (forward_target E u) = map lower_byte ?h @ '':443''"
    by (simp add: dial_address_def px host)
  show "split_host_port (dial_address E W (forward_target E u)) = Inr (map lower_byte ?h, ''443'')"
    using split_host_port_plain [of "map lower_byte ?h" "''443''"] h map_lower_special [of ?h] by (simp add: a)
qed

section \<open>Results of a forward\<close>

text \<open>The outbound request of a forward, and \<open>forwardTo\<close> by the outcome of the round trip.\<close>

definition outbound_request ::
  "env \<Rightarrow> server \<Rightarrow> request \<Rightarrow> url \<Rightarrow> injectHeader option \<Rightarrow> string \<Rightarrow> string \<Rightarrow> request" where
  "outbound_request E srv r up ihp fmt hn =
     r\<lparr>req_url := forward_target E up, req_host := url_host (forward_target E up),
       req_header := outbound_headers E srv ihp fmt hn r,
       req_body := (if req_length r = 0 then [] else req_body r),
       req_body_end := (if req_length r = 0 then BodyEOF else req_body_end r)\<rparr>"

lemma rp_outbound_request:
  "rp_outbound r (director E srv (forward_target E up) ihp fmt hn) = Some (outbound_request E srv r up ihp fmt hn)"
  by (simp add: rp_outbound_eq outbound_request_def)

lemma outbound_transparent:
  assumes "\<not> stripped srv j" "\<not> any_key proxy_owned j"
    and "ihp = None \<or> \<not> any_key rp_hop_headers hn \<and> \<not> same_key j hn \<and> \<not> any_key auth_headers j"
  shows "header_lookup (req_header (outbound_request E srv r up ihp fmt hn)) j = header_lookup (req_header r) j"
proof -
  have "\<not> any_key rp_hop_headers hn \<or> ihp = None" using assms(3) by blast
  then show ?thesis
    using assms outbound_not_owned [OF assms(2)] proxy_owned_iff [of j]
    by (auto simp: outbound_request_def lookup_director lookup_strip_headers split: option.splits)
qed

lemma forward_to_error:
  assumes "url_host (forward_target E up) \<noteq> []"
    and "round_trip E srv W (outbound_request E srv r up ihp fmt hn) = ((infos, Inl err), tr)"
  shows "forward_to E srv W sw r up ihp fmt hn =
    (None, fst (error_handler err (foldl relay_info sw infos)), tr @ snd (error_handler err (foldl relay_info sw infos)))"
  using assms by (simp add: forward_to_def Let_def rp_outbound_request split: prod.splits)

lemma forward_to_response:
  assumes "url_host (forward_target E up) \<noteq> []" "resp_status resp \<noteq> 101"
    and "round_trip E srv W (outbound_request E srv r up ihp fmt hn) = ((infos, Inr resp), tr)"
  shows "forward_to E srv W sw r up ihp fmt hn =
    (fst (relay_response resp (foldl relay_info sw infos)), snd (relay_response resp (foldl relay_info sw infos)), tr)"
  using assms by (simp add: forward_to_def Let_def rp_outbound_request split: prod.splits)

lemma forward_to_sends:
  assumes "url_host (forward_target E up) \<noteq> []" "srv_transport srv = Some t"
  shows "Exchange None (outbound_request E srv r up ihp fmt hn) \<in> set (snd (snd (forward_to E srv W sw r up ihp fmt hn)))"
proof (cases "t (outbound_request E srv r up ihp fmt hn)")
  case (Pair infos res)
  then have rt: "round_trip E srv W (outbound_request E srv r up ihp fmt hn) =
      ((infos, res), [Exchange None (outbound_request E srv r up ihp fmt hn)])"
    by (simp add: round_trip_def assms(2))
  show ?thesis
    using assms(1) rt
    by (cases res) (auto simp: forward_to_def Let_def rp_outbound_request split: prod.splits)
qed

text \<open>The status that is logged is the one that was sent, unless an informational response came first.\<close>

lemma copy_body_invariant:
  assumes "P sw" and step: "\<And>p s. P s \<Longrightarrow> P (snd (sw_write p s))"
  shows "P (snd (snd (copy_body b sw)))"
  using assms(1)
proof (induction b sw rule: copy_body.induct)
  case (1 b sw)
  obtain p e b' where r: "tracker_read b = ((p, e), b')" by (metis surj_pair)
  obtain failed sw' where w: "(if p = [] then (False, sw) else sw_write p sw) = (failed, sw')" by (metis surj_pair)
  have "P sw'" using "1.prems" w step [of sw p] by (auto split: if_splits)
  then show ?case
    using "1.IH" [OF r [symmetric] refl w [symmetric]] r w
    by (subst copy_body.simps) (auto split: read_err.split)
qed

lemma sw_agrees_copy: "sw_agrees sw \<Longrightarrow> sw_agrees (snd (snd (copy_body b sw)))"
  by (rule copy_body_invariant) (auto simp: sw_agrees_write)

lemma sw_agrees_relay:
  assumes "sw_agrees sw" "\<not> informational (resp_status resp)"
  shows "sw_agrees (snd (relay_response resp sw))"
proof -
  let ?sw1 = "sw_write_header (resp_status resp) (sw_update_header (copy_header (remove_hop_by_hop (resp_header resp))) sw)"
  have "sw_agrees ?sw1" using assms sw_agrees_write_header by simp
  then show ?thesis
    using sw_agrees_copy [of ?sw1 "tracker_wrap resp"] by (auto simp: relay_response_def Let_def split: prod.splits)
qed

lemma sw_agrees_handler: "sw_agrees sw \<Longrightarrow> sw_agrees (fst (error_handler err sw))"
  by (auto simp: error_handler_def informational_def intro!: sw_agrees_error split: transport_error.splits)

lemma error_handler_status:
  assumes "w_sent (sw_inner sw) = None" "\<not> sw_written sw"
  shows "sw_status (fst (error_handler err sw)) =
           (case err of TDial e \<Rightarrow> if egress_refused e then 403 else 502 | TMaxBytes n \<Rightarrow> 413 | TOther x \<Rightarrow> 502) \<and>
         map_option fst (w_sent (sw_inner (fst (error_handler err sw)))) = Some (sw_status (fst (error_handler err sw)))"
proof -
  have st: "sw_status (sw_error msg code sw) = code" for msg code
    using assms(2) by (simp add: sw_error_def sw_write_first sw_write_header_def sw_update_header_def)
  have sent: "\<exists>h. w_sent (sw_inner (sw_error msg code sw)) = Some (code, h)" if "\<not> informational code" for msg code
  proof -
    have "sw_inner (sw_error msg code sw) = http_error msg code (sw_inner sw)"
      by (simp add: sw_error_def http_error_def sw_write_def sw_write_header_def sw_update_header_def Let_def split: prod.splits)
    then show ?thesis using http_error_fresh [OF assms(1) that] by simp
  qed
  show ?thesis
    by (cases err) (auto simp: error_handler_def st sent informational_def)
qed

section \<open>The body of a response\<close>

text \<open>What the reads of a body amount to: its bytes, and the error that cut it short.\<close>

fun body_outcome :: "(bytes \<times> read_err) list \<Rightarrow> bytes \<times> string option" where
  "body_outcome [] = ([], None)"
| "body_outcome ((p, ReadOk) # rs) = (p @ fst (body_outcome rs), snd (body_outcome rs))"
| "body_outcome ((p, ReadEOF) # rs) = (p, None)"
| "body_outcome ((p, ReadErr e) # rs) = (p, Some e)"

text \<open>A writer to a client that takes everything, with the header sent.\<close>

definition takes_all :: "status_writer \<Rightarrow> bool" where
  "takes_all sw \<longleftrightarrow> w_accepts (sw_inner sw) = None \<and> w_sent (sw_inner sw) \<noteq> None \<and> sw_written sw"

lemma sw_write_takes_all:
  assumes "takes_all sw"
  shows "sw_write p sw = (False, sw\<lparr>sw_inner := (sw_inner sw)\<lparr>w_body := w_body (sw_inner sw) @ p\<rparr>\<rparr>)"
  using assms by (auto simp: takes_all_def sw_write_def write_bytes_def Let_def)

lemma takes_all_body [simp]: "takes_all (sw\<lparr>sw_inner := (sw_inner sw)\<lparr>w_body := x\<rparr>\<rparr>) = takes_all sw"
  by (simp add: takes_all_def)

lemma copy_body_outcome:
  assumes "takes_all sw" "brt_err b = None"
  shows "fst (copy_body b sw) = (snd (body_outcome (brt_reads b)) \<noteq> None) \<and>
    brt_err (fst (snd (copy_body b sw))) = snd (body_outcome (brt_reads b)) \<and>
    snd (snd (copy_body b sw)) =
      sw\<lparr>sw_inner := (sw_inner sw)\<lparr>w_body := w_body (sw_inner sw) @ fst (body_outcome (brt_reads b))\<rparr>\<rparr>"
  using assms
proof (induction "brt_reads b" arbitrary: b sw rule: body_outcome.induct)
  case 1
  then show ?case by (subst (1 2 3) copy_body.simps) (simp add: tracker_read_def)
next
  case (2 p rs)
  let ?b = "b\<lparr>brt_reads := rs\<rparr>" and ?sw = "sw\<lparr>sw_inner := (sw_inner sw)\<lparr>w_body := w_body (sw_inner sw) @ p\<rparr>\<rparr>"
  have rs: "brt_reads b = (p, ReadOk) # rs" using "2.hyps" by simp
  have "copy_body b sw = copy_body ?b ?sw"
    using rs sw_write_takes_all [OF "2.prems"(1), of p]
    by (subst copy_body.simps) (auto simp: tracker_read_def)
  then show ?case using "2.hyps"(1) [of ?b ?sw] "2.prems" rs by simp
next
  case (3 p rs)
  then have "brt_reads b = (p, ReadEOF) # rs" by simp
  then show ?case
    using sw_write_takes_all [OF "3.prems"(1), of p] "3.prems"
    by (subst (1 2 3) copy_body.simps) (auto simp: tracker_read_def)
next
  case (4 p e rs)
  then have "brt_reads b = (p, ReadErr e) # rs" by simp
  then show ?case
    using sw_write_takes_all [OF "4.prems"(1), of p] "4.prems"
    by (subst (1 2 3) copy_body.simps) (auto simp: tracker_read_def)
qed

lemma relay_response_outcome:
  assumes "w_accepts (sw_inner sw) = None" "\<not> informational (resp_status resp)"
  shows "fst (relay_response resp sw) = map_option CReadError (snd (body_outcome (resp_reads resp))) \<and>
    w_body (sw_inner (snd (relay_response resp sw))) = w_body (sw_inner sw) @ fst (body_outcome (resp_reads resp))"
proof -
  let ?sw = "sw_write_header (resp_status resp) (sw_update_header (copy_header (remove_hop_by_hop (resp_header resp))) sw)"
  have "takes_all ?sw" and body: "w_body (sw_inner ?sw) = w_body (sw_inner sw)"
    using assms
    by (auto simp: takes_all_def sw_write_header_def sw_update_header_def write_header_def Let_def)
  then show ?thesis
    using copy_body_outcome [of ?sw "tracker_wrap resp"]
    by (auto simp: relay_response_def copy_error_def tracker_wrap_def Let_def split: prod.splits option.splits)
qed

section \<open>What a forward sends\<close>

lemma sw_write_sent: "w_sent (sw_inner (snd (sw_write p sw))) \<noteq> None"
  using write_bytes_final [of p "sw_inner sw"] by (auto simp: sw_write_def Let_def split: prod.split)

lemma sw_error_sent: "w_sent (sw_inner (sw_error msg code sw)) \<noteq> None"
  using sw_write_sent by (simp add: sw_error_def)

lemma error_handler_sent: "w_sent (sw_inner (fst (error_handler err sw))) \<noteq> None"
  using sw_error_sent by (auto simp: error_handler_def split: transport_error.split)

lemma relay_response_sent:
  assumes "\<not> informational (resp_status resp)"
  shows "w_sent (sw_inner (snd (relay_response resp sw))) \<noteq> None"
proof -
  let ?sw = "sw_write_header (resp_status resp) (sw_update_header (copy_header (remove_hop_by_hop (resp_header resp))) sw)"
  have "w_sent (sw_inner ?sw) \<noteq> None"
    using assms by (auto simp: sw_write_header_def sw_update_header_def write_header_def Let_def)
  then have "w_sent (sw_inner (snd (snd (copy_body (tracker_wrap resp) ?sw)))) \<noteq> None"
    by (rule copy_body_invariant) (rule sw_write_sent)
  then show ?thesis by (auto simp: relay_response_def Let_def split: prod.splits)
qed

text \<open>Without informational responses, what is recorded for the log is what was sent.\<close>

definition plain_exchanges :: "env \<Rightarrow> server \<Rightarrow> world \<Rightarrow> bool" where
  "plain_exchanges E srv W \<longleftrightarrow>
     (\<forall>out. fst (fst (round_trip E srv W out)) = [] \<and>
            (case snd (fst (round_trip E srv W out)) of Inl _ \<Rightarrow> True | Inr resp \<Rightarrow> \<not> informational (resp_status resp)))"

lemma forward_to_agrees:
  assumes "plain_exchanges E srv W" "sw_agrees sw"
  shows "sw_agrees (fst (snd (forward_to E srv W sw r up ihp fmt hn))) \<and>
    w_sent (sw_inner (fst (snd (forward_to E srv W sw r up ihp fmt hn)))) \<noteq> None"
proof (cases "url_host (forward_target E up) = []")
  case True
  have "sw_agrees (sw_error ''missing target host'' 400 sw)"
    using sw_agrees_error [OF assms(2), of 400] by (simp add: informational_def)
  then show ?thesis using True sw_error_sent by (simp add: forward_to_def Let_def)
next
  case False
  let ?out = "outbound_request E srv r up ihp fmt hn"
  obtain res lg where rt: "round_trip E srv W ?out = (([], res), lg)"
    and ok: "case res of Inl _ \<Rightarrow> True | Inr resp \<Rightarrow> \<not> informational (resp_status resp)"
    using assms(1) [unfolded plain_exchanges_def, THEN spec, of ?out] by (cases "round_trip E srv W ?out") auto
  show ?thesis
    using False rt ok assms(2) sw_agrees_handler [OF assms(2)] error_handler_sent sw_agrees_relay [OF assms(2)] relay_response_sent
    by (cases res) (auto simp: forward_to_def Let_def rp_outbound_request split: prod.splits, (metis fst_conv snd_conv)+)
qed

section \<open>Informational responses\<close>

text \<open>The recorded status is that of the first header that was written, also of an informational one.\<close>

lemma sw_sent_kept: "w_sent (sw_inner sw) = Some x \<Longrightarrow> w_sent (sw_inner (snd (sw_write p sw))) = Some x"
  by (auto simp: sw_write_def write_bytes_def Let_def split: prod.split option.split)

lemma relay_infos_status:
  assumes "\<forall>i \<in> set infos. informational (fst i)" "w_sent (sw_inner sw) = None"
  shows "w_sent (sw_inner (foldl relay_info sw infos)) = None \<and>
    (sw_written sw \<longrightarrow> sw_written (foldl relay_info sw infos) \<and> sw_status (foldl relay_info sw infos) = sw_status sw) \<and>
    (\<not> sw_written sw \<and> infos \<noteq> [] \<longrightarrow>
      sw_written (foldl relay_info sw infos) \<and> sw_status (foldl relay_info sw infos) = fst (hd infos))"
  using assms
proof (induction infos arbitrary: sw)
  case (Cons i infos)
  have step: "w_sent (sw_inner (relay_info sw i)) = None" "sw_written (relay_info sw i)"
    "sw_status (relay_info sw i) = (if sw_written sw then sw_status sw else fst i)"
    using Cons.prems by (simp_all add: relay_info_def sw_write_header_def sw_update_header_def write_header_def)
  show ?case using Cons.IH [of "relay_info sw i"] Cons.prems(1) step by auto
qed simp

lemma relay_response_status:
  assumes "w_sent (sw_inner sw) = None" "sw_written sw" "\<not> informational (resp_status resp)"
  shows "sw_status (snd (relay_response resp sw)) = sw_status sw \<and>
    (\<exists>h. w_sent (sw_inner (snd (relay_response resp sw))) = Some (resp_status resp, h))"
proof -
  let ?sw = "sw_write_header (resp_status resp) (sw_update_header (copy_header (remove_hop_by_hop (resp_header resp))) sw)"
  let ?P = "\<lambda>s. sw_written s \<and> sw_status s = sw_status sw \<and> (\<exists>h. w_sent (sw_inner s) = Some (resp_status resp, h))"
  have "?P ?sw" using assms by (auto simp: sw_write_header_def sw_update_header_def write_header_def Let_def)
  then have "?P (snd (snd (copy_body (tracker_wrap resp) ?sw)))"
    by (rule copy_body_invariant [of ?P]) (metis sw_write_first sw_written_mono(2) sw_sent_kept)
  then show ?thesis by (auto simp: relay_response_def Let_def split: prod.splits)
qed

section \<open>What the log shows\<close>

definition logged :: "trace \<Rightarrow> cause log_line list" where
  "logged tr = concat (map (\<lambda>e. case e of Logged l \<Rightarrow> [l] | Exchange _ _ \<Rightarrow> []) tr)"

lemma logged_simps [simp]:
  "logged [] = []" "logged (Logged l # tr) = l # logged tr" "logged (Exchange t out # tr) = logged tr"
  "logged (tr @ tr') = logged tr @ logged tr'" "logged (map Logged ls) = ls"
  by (simp_all add: logged_def) (induction ls, auto)

text \<open>What an observer of the client connection and of the log can tell.\<close>

definition same_view :: "writer \<times> trace \<Rightarrow> writer \<times> trace \<Rightarrow> bool" where
  "same_view x y \<longleftrightarrow> fst x = fst y \<and> logged (snd x) = logged (snd y)"

lemma same_view_refl [simp]: "same_view x x"
  by (simp add: same_view_def)

text \<open>Two traces whose requests got the same answers from the network.\<close>

definition answered_alike :: "env \<Rightarrow> server \<Rightarrow> world \<Rightarrow> trace \<Rightarrow> trace \<Rightarrow> bool" where
  "answered_alike E srv W tr tr' \<longleftrightarrow>
     (\<forall>t out out'. Exchange t out \<in> set tr \<and> Exchange t out' \<in> set tr' \<longrightarrow>
        fst (round_trip E srv W out) = fst (round_trip E srv W out'))"

lemma answered_alike_mono:
  "answered_alike E srv W tr tr' \<Longrightarrow> set s \<subseteq> set tr \<Longrightarrow> set s' \<subseteq> set tr' \<Longrightarrow> answered_alike E srv W s s'"
  unfolding answered_alike_def by blast

text \<open>The log of a round trip depends on the URL alone, and so does its result where nothing was sent.\<close>

lemma round_trip_same_url:
  assumes "req_url q = req_url q'"
  shows "logged (snd (round_trip E srv W q)) = logged (snd (round_trip E srv W q')) \<and>
    (fst (round_trip E srv W q) = fst (round_trip E srv W q') \<or>
     (\<exists>t. Exchange t q \<in> set (snd (round_trip E srv W q)) \<and> Exchange t q' \<in> set (snd (round_trip E srv W q'))))"
  using assms by (auto simp: round_trip_def guarded_round_trip_def split: option.splits prod.splits sum.splits)

lemma forward_to_sends_all:
  assumes "url_host (forward_target E up) \<noteq> []"
  shows "set (snd (round_trip E srv W (outbound_request E srv r up ihp fmt hn))) \<subseteq>
    set (snd (snd (forward_to E srv W sw r up ihp fmt hn)))"
proof -
  obtain infos res lg where "round_trip E srv W (outbound_request E srv r up ihp fmt hn) = ((infos, res), lg)"
    by (metis prod.exhaust)
  then show ?thesis
    using assms by (cases res) (auto simp: forward_to_def Let_def rp_outbound_request split: prod.splits)
qed

lemma forward_to_alike:
  assumes "answered_alike E srv W (snd (snd (forward_to E srv W sw r up ihp fmt hn)))
      (snd (snd (forward_to E srv W sw r' up ihp' fmt hn)))"
  shows "fst (forward_to E srv W sw r up ihp fmt hn) = fst (forward_to E srv W sw r' up ihp' fmt hn) \<and>
    fst (snd (forward_to E srv W sw r up ihp fmt hn)) = fst (snd (forward_to E srv W sw r' up ihp' fmt hn)) \<and>
    logged (snd (snd (forward_to E srv W sw r up ihp fmt hn))) = logged (snd (snd (forward_to E srv W sw r' up ihp' fmt hn)))"
proof (cases "url_host (forward_target E up) = []")
  case True
  then show ?thesis by (simp add: forward_to_def Let_def)
next
  case False
  let ?o = "outbound_request E srv r up ihp fmt hn" and ?o' = "outbound_request E srv r' up ihp' fmt hn"
  have url: "req_url ?o = req_url ?o'" by (simp add: outbound_request_def)
  have "answered_alike E srv W (snd (round_trip E srv W ?o)) (snd (round_trip E srv W ?o'))"
    by (rule answered_alike_mono [OF assms forward_to_sends_all [OF False] forward_to_sends_all [OF False]])
  then have "fst (round_trip E srv W ?o) = fst (round_trip E srv W ?o')"
    and l: "logged (snd (round_trip E srv W ?o)) = logged (snd (round_trip E srv W ?o'))"
    using round_trip_same_url [OF url, of E srv W] by (auto simp: answered_alike_def)
  then obtain infos res lg lg' where rt: "round_trip E srv W ?o = ((infos, res), lg)"
      "round_trip E srv W ?o' = ((infos, res), lg')" and lg: "logged lg = logged lg'"
    by (metis prod.collapse)
  show ?thesis
    using rt lg by (cases res) (auto simp: forward_to_def Let_def rp_outbound_request split: prod.splits)
qed

end
