(* ===== verification/Server_Laws.thy ===== *)
theory Server_Laws
  imports Server Forward_Laws
begin

text \<open>
  The contract of the forward handler, stated apart from its control flow, and the lemmas that
  the handler meets it: a request is forwarded exactly when it is admitted.
\<close>

section \<open>The contract\<close>

text \<open>What is forwarded: the request as it is, or with the credential of a sealed secret.\<close>

datatype plan = PlanPassthrough | PlanInject secret string string

definition capped :: "server \<Rightarrow> request \<Rightarrow> request" where
  "capped srv r = (if 0 < srv_max_bytes srv then max_bytes_reader (srv_max_bytes srv) r else r)"

definition fallback_keys :: "server \<Rightarrow> private_key list" where
  "fallback_keys srv = (case srv_previous srv of Some p \<Rightarrow> [p] | None \<Rightarrow> [])"

definition ingress_ok :: "server \<Rightarrow> request \<Rightarrow> bool" where
  "ingress_ok srv r \<longleftrightarrow>
     (0 < srv_max_bytes srv \<longrightarrow> req_length r \<le> srv_max_bytes srv) \<and>
     (srv_cidrs srv \<noteq> [] \<longrightarrow>
        (\<exists>ip. client_ip_from_request r (srv_trust_tls srv) (srv_trust_cf srv) = Inr ip \<and>
              ip_in_prefixes ip (srv_cidrs srv)))"

definition names_upstream :: "env \<Rightarrow> request \<Rightarrow> url \<Rightarrow> bool" where
  "names_upstream E r up \<longleftrightarrow>
     header_get (req_header r) HeaderUpstreamURL \<noteq> [] \<and>
     url_parse E (header_get (req_header r) HeaderUpstreamURL) = Some up \<and> url_host up \<noteq> []"

text \<open>A secret that the request may use for this upstream.\<close>

definition secret_allows :: "env \<Rightarrow> server \<Rightarrow> request \<Rightarrow> url \<Rightarrow> secret \<Rightarrow> bool" where
  "secret_allows E srv r up s \<longleftrightarrow>
     check_auth srv r s = None \<and> validate_host E (url_host up) s = None \<and>
     validate_path E (url_path up) s = None \<and> validate_method (req_method r) s = None"

definition plan_ok :: "env \<Rightarrow> server \<Rightarrow> private_key \<Rightarrow> request \<Rightarrow> url \<Rightarrow> plan \<Rightarrow> bool" where
  "plan_ok E srv key r up p =
     (let sealed = parse_sealed_header (header_get (req_header r) HeaderSealedSecret) in
      case p of
        PlanPassthrough \<Rightarrow> srv_allow_passthrough srv \<and> sealed = Inl MissingSecret
      | PlanInject s fmt hn \<Rightarrow>
          (\<exists>blob ov used. sealed = Inr (blob, ov) \<and>
             open_op E blob key (fallback_keys srv) = Inr (s, used) \<and>
             resolve_processor (inject_header s) ov = Inr (fmt, hn) \<and> secret_allows E srv r up s))"

definition admitted :: "env \<Rightarrow> server \<Rightarrow> private_key \<Rightarrow> request \<Rightarrow> url \<Rightarrow> plan \<Rightarrow> bool" where
  "admitted E srv key r up p \<longleftrightarrow>
     ingress_ok srv r \<and> names_upstream E r up \<and>
     length (header_values (req_header r) HeaderSealedSecret) \<le> 1 \<and>
     reject_non_standard_port (url_host up) = None \<and> plan_ok E srv key r up p"

fun plan_forward ::
  "env \<Rightarrow> server \<Rightarrow> world \<Rightarrow> writer \<Rightarrow> request \<Rightarrow> url \<Rightarrow> plan \<Rightarrow> cause option \<times> status_writer \<times> trace" where
  "plan_forward E srv W w r up PlanPassthrough = forward_to E srv W (new_status_writer w) r up None [] []"
| "plan_forward E srv W w r up (PlanInject s fmt hn) =
     forward_to E srv W (new_status_writer w) r up (inject_header s) fmt hn"

section \<open>Refusals\<close>

lemma respond_error_no_exchange [simp]: "Exchange t out \<notin> set (snd (respond_error W code msg c flds w))"
  by (simp add: respond_error_def Let_def)

lemma log_outcome_no_exchange [simp]: "Exchange t out \<notin> set (log_forward_outcome W ev ce st flds)"
  by (auto simp: log_forward_outcome_def Let_def split: option.splits)

lemma run_forward_exchange [simp]:
  "Exchange t out \<in> set (snd (run_forward E srv W ev w r up ihp fmt hn flds)) \<longleftrightarrow>
   Exchange t out \<in> set (snd (snd (forward_to E srv W (new_status_writer w) r up ihp fmt hn)))"
  by (auto simp: run_forward_def Let_def split: prod.splits)

lemma capped_simps [simp]:
  "req_header (capped srv r) = req_header r" "req_method (capped srv r) = req_method r"
  "req_remote (capped srv r) = req_remote r" "req_length (capped srv r) = req_length r"
  by (simp_all add: capped_def max_bytes_reader_def)

lemma client_ip_cong:
  "req_header r = req_header q \<Longrightarrow> req_remote r = req_remote q \<Longrightarrow>
     client_ip_from_request r a b = client_ip_from_request q a b"
  by (simp add: client_ip_from_request_def Let_def)

lemma check_auth_cong: "req_header r = req_header q \<Longrightarrow> check_auth srv r s = check_auth srv q s"
  by (simp add: check_auth_def cong: option.case_cong)

section \<open>The handler against the contract\<close>

lemma handle_opened_exchange:
  assumes "Exchange t out \<in> set (snd (handle_opened E srv W w r up s ov flds))"
  obtains fmt hn where "secret_allows E srv r up s" "resolve_processor (inject_header s) ov = Inr (fmt, hn)"
    "reject_non_standard_port (url_host up) = None"
    "Exchange t out \<in> set (snd (snd (forward_to E srv W (new_status_writer w) r up (inject_header s) fmt hn)))"
  using assms
  by (auto simp: handle_opened_def secret_allows_def split: option.splits sum.splits prod.splits)

lemma handle_sealed_exchange:
  assumes "Exchange t out \<in> set (snd (handle_sealed E srv key W w r up))"
  obtains p where "length (header_values (req_header r) HeaderSealedSecret) \<le> 1" "plan_ok E srv key r up p"
    "reject_non_standard_port (url_host up) = None"
    "Exchange t out \<in> set (snd (snd (plan_forward E srv W w r up p)))"
proof -
  let ?sealed = "parse_sealed_header (header_get (req_header r) HeaderSealedSecret)"
  have one: "length (header_values (req_header r) HeaderSealedSecret) \<le> 1"
    using assms by (auto simp: handle_sealed_def Let_def split: if_splits)
  show ?thesis
  proof (cases ?sealed)
    case (Inl e)
    then have "e = MissingSecret" "srv_allow_passthrough srv" "reject_non_standard_port (url_host up) = None"
      "Exchange t out \<in> set (snd (snd (forward_to E srv W (new_status_writer w) r up None [] [])))"
      using assms one by (auto simp: handle_sealed_def passthrough_def Let_def split: if_splits option.splits)
    then show ?thesis using that [of PlanPassthrough] one Inl by (simp add: plan_ok_def)
  next
    case (Inr bo)
    obtain blob ov where bo: "bo = (blob, ov)" by (cases bo)
    obtain s used where op: "open_op E blob key (fallback_keys srv) = Inr (s, used)"
      using assms one Inr bo
      by (cases "open_op E blob key (fallback_keys srv)") (auto simp: handle_sealed_def fallback_keys_def Let_def split: prod.splits)
    then have "\<exists>flds. Exchange t out \<in> set (snd (handle_opened E srv W w r up s ov flds))"
      using assms one Inr bo
      by (auto simp: handle_sealed_def fallback_keys_def Let_def split: prod.splits if_splits) (metis snd_conv)+
    then obtain fmt hn where "secret_allows E srv r up s" "resolve_processor (inject_header s) ov = Inr (fmt, hn)"
      "reject_non_standard_port (url_host up) = None"
      "Exchange t out \<in> set (snd (snd (forward_to E srv W (new_status_writer w) r up (inject_header s) fmt hn)))"
      using handle_opened_exchange by metis
    then show ?thesis using that [of "PlanInject s fmt hn"] one Inr bo op by (auto simp: plan_ok_def)
  qed
qed

lemma handle_ingress_exchange:
  assumes "Exchange t out \<in> set (snd (handle_ingress E srv key W w r))"
  obtains up where "srv_cidrs srv \<noteq> [] \<longrightarrow> (\<exists>ip. client_ip_from_request r (srv_trust_tls srv) (srv_trust_cf srv) = Inr ip \<and>
              ip_in_prefixes ip (srv_cidrs srv))" "names_upstream E r up"
    "Exchange t out \<in> set (snd (handle_sealed E srv key W w r up))"
  using assms
  by (auto simp: handle_ingress_def handle_upstream_def names_upstream_def Let_def split: if_splits sum.splits option.splits)

lemma secret_allows_capped [simp]: "secret_allows E srv (capped srv r) up s = secret_allows E srv r up s"
  using check_auth_cong [of "capped srv r" r] by (simp add: secret_allows_def)

lemma plan_ok_capped [simp]: "plan_ok E srv key (capped srv r) up p = plan_ok E srv key r up p"
  by (cases p) (simp_all add: plan_ok_def)

lemma handle_forward_exchange:
  assumes "Exchange t out \<in> set (snd (handle_forward E srv key W w r))"
  obtains up p where "admitted E srv key r up p"
    "Exchange t out \<in> set (snd (snd (plan_forward E srv W w (capped srv r) up p)))"
proof -
  have len: "0 < srv_max_bytes srv \<longrightarrow> req_length r \<le> srv_max_bytes srv"
    and ing: "Exchange t out \<in> set (snd (handle_ingress E srv key W w (capped srv r)))"
    using assms by (auto simp: handle_forward_def capped_def split: if_splits)
  obtain up where up: "srv_cidrs srv \<noteq> [] \<longrightarrow> (\<exists>ip. client_ip_from_request (capped srv r) (srv_trust_tls srv) (srv_trust_cf srv) = Inr ip \<and>
              ip_in_prefixes ip (srv_cidrs srv))" "names_upstream E (capped srv r) up"
    "Exchange t out \<in> set (snd (handle_sealed E srv key W w (capped srv r) up))"
    using handle_ingress_exchange [OF ing] by metis
  obtain p where p: "length (header_values (req_header r) HeaderSealedSecret) \<le> 1" "plan_ok E srv key r up p"
    "reject_non_standard_port (url_host up) = None"
    "Exchange t out \<in> set (snd (snd (plan_forward E srv W w (capped srv r) up p)))"
    using handle_sealed_exchange [OF up(3)] by (metis capped_simps(1) plan_ok_capped)
  have "admitted E srv key r up p"
    using len up(1,2) p client_ip_cong [of "capped srv r" r]
    by (simp add: admitted_def ingress_ok_def names_upstream_def)
  then show ?thesis using that p(4) by blast
qed

text \<open>An admitted request is handed to \<open>forwardTo\<close>, and its outcome is logged.\<close>

definition plan_event :: "plan \<Rightarrow> string" where
  "plan_event p = (case p of PlanPassthrough \<Rightarrow> ''passthrough'' | PlanInject _ _ _ \<Rightarrow> ''proxied'')"

definition runs_plan ::
  "env \<Rightarrow> server \<Rightarrow> world \<Rightarrow> writer \<Rightarrow> request \<Rightarrow> url \<Rightarrow> plan \<Rightarrow> writer \<times> trace \<Rightarrow> bool" where
  "runs_plan E srv W w r up p res \<longleftrightarrow>
     (\<exists>ce sw tr pre flds. plan_forward E srv W w r up p = (ce, sw, tr) \<and>
        (\<forall>e \<in> set pre. \<exists>l. e = Logged l) \<and>
        res = (sw_inner sw, pre @ tr @ log_forward_outcome W (plan_event p) ce (sw_status sw) flds))"

lemma runs_planI:
  "plan_forward E srv W w r up p = (ce, sw, tr) \<Longrightarrow>
     runs_plan E srv W w r up p (sw_inner sw, tr @ log_forward_outcome W (plan_event p) ce (sw_status sw) flds)"
  unfolding runs_plan_def by (metis append_Nil empty_iff empty_set)

lemma run_forward_runs:
  "runs_plan E srv W w r up PlanPassthrough (run_forward E srv W ''passthrough'' w r up None [] [] flds)"
  "runs_plan E srv W w r up (PlanInject s fmt hn) (run_forward E srv W ''proxied'' w r up (inject_header s) fmt hn flds)"
  using runs_planI [where p = PlanPassthrough] runs_planI [where p = "PlanInject s fmt hn"]
  by (auto simp: run_forward_def plan_event_def split: prod.splits)

lemma runs_plan_prepend:
  assumes "runs_plan E srv W w r up p (w', tr)" "\<forall>e \<in> set pre. \<exists>l. e = Logged l"
  shows "runs_plan E srv W w r up p (w', pre @ tr)"
proof -
  obtain ce sw tr0 pre0 flds where *: "plan_forward E srv W w r up p = (ce, sw, tr0)"
    "\<forall>e \<in> set pre0. \<exists>l. e = Logged l" "w' = sw_inner sw"
    "tr = pre0 @ tr0 @ log_forward_outcome W (plan_event p) ce (sw_status sw) flds"
    using assms(1) by (auto simp: runs_plan_def)
  show ?thesis unfolding runs_plan_def
    by (rule exI [of _ ce], rule exI [of _ sw], rule exI [of _ tr0], rule exI [of _ "pre @ pre0"], rule exI [of _ flds])
      (use * assms(2) in auto)
qed

lemma handle_sealed_runs:
  assumes "plan_ok E srv key r up p" "length (header_values (req_header r) HeaderSealedSecret) \<le> 1"
    "reject_non_standard_port (url_host up) = None"
  shows "runs_plan E srv W w r up p (handle_sealed E srv key W w r up)"
proof (cases p)
  case PlanPassthrough
  then show ?thesis using assms run_forward_runs(1) by (simp add: plan_ok_def handle_sealed_def passthrough_def Let_def)
next
  case (PlanInject s fmt hn)
  then obtain blob ov used where o: "parse_sealed_header (header_get (req_header r) HeaderSealedSecret) = Inr (blob, ov)"
    "open_op E blob key (fallback_keys srv) = Inr (s, used)" "resolve_processor (inject_header s) ov = Inr (fmt, hn)"
    "secret_allows E srv r up s"
    using assms(1) by (auto simp: plan_ok_def)
  have run: "handle_opened E srv W w r up s ov flds = run_forward E srv W ''proxied'' w r up (inject_header s) fmt hn flds" for flds
    using o assms(3) by (simp add: handle_opened_def secret_allows_def)
  have pre: "runs_plan E srv W w r up p (fst q, (if used then [Logged l] else []) @ snd q)"
    if "runs_plan E srv W w r up p q" for l q
    using runs_plan_prepend [of E srv W w r up p "fst q" "snd q"] that by simp
  show ?thesis
    using o assms(2) run PlanInject pre [OF run_forward_runs(2) [of E srv W w r up s fmt hn, folded PlanInject]]
    by (simp add: handle_sealed_def fallback_keys_def Let_def split_def)
qed

lemma handle_forward_runs:
  assumes "admitted E srv key r up p"
  shows "runs_plan E srv W w (capped srv r) up p (handle_forward E srv key W w r)"
proof -
  have "handle_forward E srv key W w r = handle_ingress E srv key W w (capped srv r)"
    using assms by (auto simp: handle_forward_def capped_def admitted_def ingress_ok_def)
  also have "\<dots> = handle_sealed E srv key W w (capped srv r) up"
    using assms client_ip_cong [of "capped srv r" r]
    by (auto simp: handle_ingress_def handle_upstream_def admitted_def ingress_ok_def names_upstream_def Let_def
        split: sum.splits)
  finally show ?thesis
    using assms handle_sealed_runs [of E srv key "capped srv r" up p W w] by (simp add: admitted_def)
qed

text \<open>The request that a plan sends.\<close>

fun plan_request :: "env \<Rightarrow> server \<Rightarrow> request \<Rightarrow> url \<Rightarrow> plan \<Rightarrow> request" where
  "plan_request E srv r up PlanPassthrough = outbound_request E srv (capped srv r) up None [] []"
| "plan_request E srv r up (PlanInject s fmt hn) = outbound_request E srv (capped srv r) up (inject_header s) fmt hn"

lemma plan_forward_exchange:
  assumes "Exchange t out \<in> set (snd (snd (plan_forward E srv W w (capped srv r) up p)))"
  shows "out = plan_request E srv r up p \<and> Exchange t out \<in> set (snd (round_trip E srv W out))"
proof (cases p)
  case PlanPassthrough
  then show ?thesis using forward_to_exchange assms rp_outbound_request by fastforce
next
  case (PlanInject s fmt hn)
  then show ?thesis using forward_to_exchange assms rp_outbound_request by fastforce
qed

section \<open>Requests that differ in the sealed token\<close>

definition with_seal :: "string \<Rightarrow> request \<Rightarrow> request" where
  "with_seal x r = r\<lparr>req_header := header_set (req_header r) HeaderSealedSecret x\<rparr>"

definition with_token :: "string \<Rightarrow> secret \<Rightarrow> secret" where
  "with_token t s = s\<lparr>inject_header := map_option (\<lambda>ih. ih\<lparr>token := t\<rparr>) (inject_header s)\<rparr>"

text \<open>Only the injected header depends on the token of a secret.\<close>

lemma resolve_processor_token:
  "resolve_processor (map_option (\<lambda>ih. ih\<lparr>token := t\<rparr>) ihp) ov = resolve_processor ihp ov"
proof (cases ihp)
  case (Some ih)
  have "override_format (ih\<lparr>token := t\<rparr>) = override_format ih" "override_header_name (ih\<lparr>token := t\<rparr>) = override_header_name ih"
    by (intro ext, cases ih, simp only: override_format_def override_header_name_def injectHeader.simps)+
  then show ?thesis using Some by (cases ih) (simp only: resolve_processor_def option.map option.case injectHeader.simps)
qed simp

lemma token_independent:
  "check_auth srv r (with_token t s) = check_auth srv r s" "validate_host E h (with_token t s) = validate_host E h s"
  "validate_path E p (with_token t s) = validate_path E p s" "validate_method m (with_token t s) = validate_method m s"
  "resolve_processor (inject_header (with_token t s)) ov = resolve_processor (inject_header s) ov"
  "seal_log_fields (with_token t s) = seal_log_fields s"
  using resolve_processor_token [of t "inject_header s" ov] unfolding with_token_def
  by (cases s; simp only: check_auth_def validate_host_def validate_path_def validate_method_def seal_log_fields_def
      auth_kind_def processor_kind_def secret.simps option.map_disc_iff)+

text \<open>No step in front of the sealed header reads it.\<close>

lemma with_seal_simps [simp]:
  "req_method (with_seal x r) = req_method r" "req_remote (with_seal x r) = req_remote r"
  "req_length (with_seal x r) = req_length r"
  "header_get (req_header (with_seal x r)) HeaderSealedSecret = x"
  "header_values (req_header (with_seal x r)) HeaderSealedSecret = [x]"
  "header_get (req_header (with_seal x r)) HeaderUpstreamURL = header_get (req_header r) HeaderUpstreamURL"
  "header_get (req_header (with_seal x r)) HeaderAuthBearer = header_get (req_header r) HeaderAuthBearer"
  "header_get (req_header (with_seal x r)) CFConnectingIPHeader = header_get (req_header r) CFConnectingIPHeader"
  "header_values (req_header (with_seal x r)) ''X-Forwarded-For'' = header_values (req_header r) ''X-Forwarded-For''"
  by (simp_all add: with_seal_def header_simps same_key_def)

lemma with_seal_capped: "max_bytes_reader n (with_seal x r) = with_seal x (max_bytes_reader n r)"
  by (simp add: max_bytes_reader_def with_seal_def)

lemma client_ip_with_seal: "client_ip_from_request (with_seal x r) a b = client_ip_from_request r a b"
  unfolding client_ip_from_request_def with_seal_simps ..

lemma check_auth_with_seal: "check_auth srv (with_seal x r) s = check_auth srv r s"
  unfolding check_auth_def with_seal_simps ..

lemma log_fields_with_seal: "request_log_fields E (with_seal x r) up = request_log_fields E r up"
  by (simp add: request_log_fields_def)

text \<open>Two requests that differ in the token alone, through the handler.\<close>

lemma run_forward_alike:
  assumes "answered_alike E srv W (snd (run_forward E srv W ev w r up ihp fmt hn flds)) (snd (run_forward E srv W ev w r' up ihp' fmt hn flds))"
  shows "same_view (run_forward E srv W ev w r up ihp fmt hn flds) (run_forward E srv W ev w r' up ihp' fmt hn flds)"
proof -
  have "answered_alike E srv W (snd (snd (forward_to E srv W (new_status_writer w) r up ihp fmt hn)))
      (snd (snd (forward_to E srv W (new_status_writer w) r' up ihp' fmt hn)))"
    by (rule answered_alike_mono [OF assms]) (auto simp: run_forward_def split: prod.split)
  from forward_to_alike [OF this] show ?thesis
    by (auto simp: run_forward_def same_view_def split: prod.split)
qed

lemma handle_opened_alike:
  assumes "answered_alike E srv W (snd (handle_opened E srv W w (with_seal x r) up s ov flds))
      (snd (handle_opened E srv W w (with_seal x' r) up (with_token t s) ov flds))"
  shows "same_view (handle_opened E srv W w (with_seal x r) up s ov flds)
      (handle_opened E srv W w (with_seal x' r) up (with_token t s) ov flds)"
  using assms
  unfolding handle_opened_def token_independent check_auth_with_seal with_seal_simps
  by (auto intro: run_forward_alike split: option.splits sum.splits prod.splits)

lemma handle_sealed_alike:
  assumes parsed: "parse_sealed_header x = Inr (blob, ov)" "parse_sealed_header x' = Inr (blob', ov)"
    and opened: "open_op E blob' key (fallback_keys srv) =
      (case open_op E blob key (fallback_keys srv) of Inl e \<Rightarrow> Inl e | Inr (s, used) \<Rightarrow> Inr (with_token t s, used))"
    and ans: "answered_alike E srv W (snd (handle_sealed E srv key W w (with_seal x r) up))
      (snd (handle_sealed E srv key W w (with_seal x' r) up))"
  shows "same_view (handle_sealed E srv key W w (with_seal x r) up) (handle_sealed E srv key W w (with_seal x' r) up)"
proof (cases "open_op E blob key (fallback_keys srv)")
  case (Inl e)
  then show ?thesis using parsed opened by (simp add: handle_sealed_def fallback_keys_def log_fields_with_seal Let_def)
next
  case (Inr su)
  obtain s used where su: "su = (s, used)" by (cases su)
  let ?flds = "request_log_fields E r up @ seal_log_fields s"
  let ?pre = "if used then [Logged (LogLine Warn ''seal_opened_via_previous_key'' ?flds)] else []"
  let ?h = "handle_opened E srv W w (with_seal x r) up s ov ?flds"
  let ?h' = "handle_opened E srv W w (with_seal x' r) up (with_token t s) ov ?flds"
  have h: "handle_sealed E srv key W w (with_seal x r) up = (fst ?h, ?pre @ snd ?h)"
    "handle_sealed E srv key W w (with_seal x' r) up = (fst ?h', ?pre @ snd ?h')"
    using parsed opened Inr su
    by (simp_all add: handle_sealed_def fallback_keys_def log_fields_with_seal token_independent Let_def split_def)
  have "answered_alike E srv W (snd ?h) (snd ?h')"
    by (rule answered_alike_mono [OF ans]) (simp_all add: h)
  from handle_opened_alike [OF this] show ?thesis unfolding h by (simp add: same_view_def)
qed

lemma handle_forward_alike:
  assumes parsed: "parse_sealed_header x = Inr (blob, ov)" "parse_sealed_header x' = Inr (blob', ov)"
    and opened: "open_op E blob' key (fallback_keys srv) =
      (case open_op E blob key (fallback_keys srv) of Inl e \<Rightarrow> Inl e | Inr (s, used) \<Rightarrow> Inr (with_token t s, used))"
    and ans: "answered_alike E srv W (snd (handle_forward E srv key W w (with_seal x r)))
      (snd (handle_forward E srv key W w (with_seal x' r)))"
  shows "same_view (handle_forward E srv key W w (with_seal x r)) (handle_forward E srv key W w (with_seal x' r))"
proof -
  note sealed = handle_sealed_alike [OF parsed opened]
  have up: "same_view (handle_upstream E srv key W w (with_seal x q)) (handle_upstream E srv key W w (with_seal x' q))"
    if "answered_alike E srv W (snd (handle_upstream E srv key W w (with_seal x q))) (snd (handle_upstream E srv key W w (with_seal x' q)))" for q
    using that unfolding handle_upstream_def with_seal_simps Let_def by (auto intro: sealed split: option.splits if_splits)
  have ing: "same_view (handle_ingress E srv key W w (with_seal x q)) (handle_ingress E srv key W w (with_seal x' q))"
    if "answered_alike E srv W (snd (handle_ingress E srv key W w (with_seal x q))) (snd (handle_ingress E srv key W w (with_seal x' q)))" for q
    using that unfolding handle_ingress_def client_ip_with_seal by (auto intro: up split: sum.splits if_splits)
  show ?thesis
    using ans unfolding handle_forward_def with_seal_simps with_seal_capped by (auto intro: ing split: if_splits)
qed

end
