(* ===== verification/Samples.thy ===== *)
theory Samples
  imports Server_Laws
begin

text \<open>
  Concrete inputs: an environment whose parameters are small concrete functions with the
  documented behaviour of the code they stand for, a server, a secret and a request. The
  theorems with hypotheses are applied to them, which shows that the hypotheses can hold.
\<close>

text \<open>
  A box that is the public key in front of the message, and a public key that is the private key
  reversed: sealing and opening are inverse, and a box does not open with another key.
\<close>

definition sample_url :: "string \<Rightarrow> string \<Rightarrow> url" where
  "sample_url host path =
     \<lparr>url_scheme = ''https'', url_opaque = [], url_user = None, url_host = host, url_path = path,
      url_raw_path = [], url_raw_query = [], url_fragment = [], url_raw_fragment = [], url_force_query = False, url_omit_host = False\<rparr>"

definition sample_url_parse :: "string \<Rightarrow> url option" where
  "sample_url_parse s =
     (if prefix ''https://'' s
      then Some (sample_url (takeWhile (\<lambda>c. c \<noteq> CHR ''/'') (drop 8 s)) (dropWhile (\<lambda>c. c \<noteq> CHR ''/'') (drop 8 s)))
      else None)"

definition sample_env :: env where
  "sample_env =
     \<lparr>uni_lower = (\<lambda>s. s), idna_ascii = (\<lambda>s. s),
      re_parse = (\<lambda>p. if p = ''^/v1/.*$'' then Some (OpConcat [OpBeginText, OpLiteral (map byte_val ''/v1/'') False,
                          OpStar OpAnyCharNotNL, OpEndText]) else None),
      rune_fold = (\<lambda>a b. a = b), url_parse = sample_url_parse, fmt_other = (\<lambda>_ _. []),
      scalar_base_mult = rev, seal_anonymous = (\<lambda>m pub rnd. Some (pub @ m)),
      open_anonymous = (\<lambda>b pub priv. if prefix pub b then Some (drop (length pub) b) else None),
      map_seed = 0\<rparr>"

definition sample_key :: private_key where
  "sample_key = ''0123456789abcdef0123456789abcdef''"

definition sample_inject :: injectHeader where
  "sample_inject =
     \<lparr>token = ''sk_live'', format = [], header_name = [], allowed_formats = [''Token %s''], allowed_header_names = []\<rparr>"

definition sample_secret :: secret where
  "sample_secret =
     \<lparr>bearer_auth = None, no_auth = Some (), inject_header = Some sample_inject,
      allowed_hosts = [''api.stripe.com''], allowed_host_pattern = [],
      allowed_path_prefixes = [''/v1/charges''], allowed_path_pattern = [],
      allowed_methods = [''POST''], name = ''stripe'', euid = ''e-1''\<rparr>"

definition sample_blob :: string where
  "sample_blob =
     (case fst (seal_op sample_env sample_secret (public_of sample_env sample_key) None []) of Inl _ \<Rightarrow> [] | Inr b \<Rightarrow> b)"

definition sample_response :: response where
  "sample_response = \<lparr>resp_status = 200, resp_header = no_headers, resp_reads = [(''ok'', ReadOk)]\<rparr>"

definition sample_server :: server where
  "sample_server =
     \<lparr>srv_private = Some sample_key, srv_previous = None, srv_allow_no_auth = True, srv_allow_passthrough = False,
      srv_filtered = [''Cookie''], srv_disable_xff = True, srv_self = {''localhost''}, srv_cidrs = [],
      srv_trust_tls = False, srv_trust_cf = False, srv_max_bytes = 100,
      srv_transport = Some (\<lambda>_. ([], Inr sample_response)), srv_disable_guard = False\<rparr>"

definition sample_headers :: header where
  "sample_headers =
     header_set (header_set (header_set no_headers HeaderUpstreamURL ''https://api.stripe.com/v1/charges'')
       HeaderSealedSecret sample_blob) ''Authorization'' ''Bearer mine''"

definition sample_request :: request where
  "sample_request =
     \<lparr>req_method = ''POST'', req_url = sample_url ''proxy'' ForwardPath, req_host = ''proxy'',
      req_header = sample_headers, req_remote = ''192.0.2.7:4711'', req_length = 5, req_body = ''hello'',
      req_body_end = BodyEOF\<rparr>"

definition sample_upstream :: url where
  "sample_upstream = sample_url ''api.stripe.com'' ''/v1/charges''"

definition sample_world :: world where
  "sample_world =
     \<lparr>wd_resolve = (\<lambda>h. if h = ''api.stripe.com'' then Some [V4 (ipv4 54 187 174 169)] else None),
      wd_upstream = (\<lambda>t out. ([], Inr sample_response)), wd_proxy = (\<lambda>_. None), wd_elapsed = 3\<rparr>"

definition sample_writer :: writer where
  "sample_writer = fresh_writer None"

section \<open>The samples meet the contracts\<close>

lemma sample_box:
  "seal_anonymous sample_env m (public_of sample_env k) rnd = Some c \<Longrightarrow>
     open_anonymous sample_env c (public_of sample_env k) k = Some m"
  by (auto simp: sample_env_def)

lemma sample_validates: "validate sample_env sample_secret = None"
  by code_simp

lemma valid_utf8_ascii_code: "list_all (\<lambda>c. byte_val c < 128) s \<Longrightarrow> valid_utf8 s"
  by (rule ascii_valid_utf8) (simp add: ascii_def list_all_iff)

lemma sample_text_clean: "text_clean sample_secret"
  by (simp add: text_clean_def sample_secret_def sample_inject_def ascii_valid_utf8)

lemma sample_seal:
  "seal_op sample_env sample_secret (public_of sample_env sample_key) None [] = (Inr sample_blob, sample_secret)"
proof -
  have "seal_anonymous sample_env m p r = Some (p @ m)" for m p r by (simp add: sample_env_def)
  moreover have "sample_secret\<lparr>euid := euid sample_secret\<rparr> = sample_secret" "euid sample_secret \<noteq> []"
    by (simp_all add: sample_secret_def)
  ultimately show ?thesis by (simp add: sample_blob_def seal_op_def sample_validates)
qed

lemma sample_opens: "open_op sample_env sample_blob sample_key [] = Inr (sample_secret, False)"
  by (rule open_after_seal [OF sample_seal sample_text_clean sample_box])

lemma sample_sealed_header:
  "parse_sealed_header (header_get sample_headers HeaderSealedSecret) = Inr (sample_blob, None)"
proof -
  obtain x where "sample_blob = b64_encode x" using sample_seal seal_op_InrE by metis
  moreover have "sample_blob \<noteq> []" using sample_opens by (auto simp: open_op_def sample_env_def decrypt_def
      try_open_def public_of_def sample_key_def b64_decode_def split: if_splits)
  moreover have "header_get sample_headers HeaderSealedSecret = sample_blob"
    by (simp add: sample_headers_def header_simps same_key_def)
  ultimately show ?thesis using parse_plain_blob [of x] b64_encode_Nil_iff [of x] by metis
qed

text \<open>The same secret with another token, sealed for the same key.\<close>

definition other_secret :: secret where
  "other_secret = sample_secret\<lparr>inject_header := map_option (\<lambda>ih. ih\<lparr>token := ''other''\<rparr>) (inject_header sample_secret)\<rparr>"

definition other_blob :: string where
  "other_blob =
     (case fst (seal_op sample_env other_secret (public_of sample_env sample_key) None []) of Inl _ \<Rightarrow> [] | Inr b \<Rightarrow> b)"

lemma other_seal:
  "seal_op sample_env other_secret (public_of sample_env sample_key) None [] = (Inr other_blob, other_secret)"
proof -
  have "seal_anonymous sample_env m p r = Some (p @ m)" for m p r by (simp add: sample_env_def)
  moreover have "validate sample_env other_secret = None" by code_simp
  moreover have "other_secret\<lparr>euid := euid other_secret\<rparr> = other_secret" "euid other_secret \<noteq> []"
    by (simp_all add: other_secret_def sample_secret_def)
  ultimately show ?thesis by (simp add: other_blob_def seal_op_def)
qed

lemma other_opens: "open_op sample_env other_blob sample_key [] = Inr (other_secret, False)"
proof (rule open_after_seal [OF other_seal _ sample_box])
  show "text_clean other_secret"
    by (simp add: text_clean_def other_secret_def sample_secret_def sample_inject_def ascii_valid_utf8)
qed

lemma other_sealed_header: "parse_sealed_header other_blob = Inr (other_blob, None)"
proof -
  obtain x where "other_blob = b64_encode x" using other_seal seal_op_InrE by metis
  moreover have "other_blob \<noteq> []" using other_opens by (auto simp: open_op_def sample_env_def decrypt_def
      try_open_def public_of_def sample_key_def b64_decode_def split: if_splits)
  ultimately show ?thesis using parse_plain_blob [of x] b64_encode_Nil_iff [of x] by metis
qed

lemma sample_header_upstream: "header_get sample_headers HeaderUpstreamURL = ''https://api.stripe.com/v1/charges''"
  and sample_header_values: "length (header_values sample_headers HeaderSealedSecret) = 1"
  by (simp_all add: sample_headers_def header_simps same_key_def)

lemma sample_parse: "url_parse sample_env ''https://api.stripe.com/v1/charges'' = Some sample_upstream"
  by (simp add: sample_env_def sample_url_parse_def sample_upstream_def sample_url_def)

lemma sample_resolved: "resolve_processor (inject_header sample_secret) None = Inr (''Bearer %s'', ''Authorization'')"
  by code_simp

lemma sample_allows: "secret_allows sample_env sample_server sample_request sample_upstream sample_secret"
proof -
  have "check_auth sample_server r sample_secret = None" for r
    by (simp add: check_auth_def sample_secret_def sample_server_def)
  moreover have "validate_host sample_env ''api.stripe.com'' sample_secret = None"
    "validate_path sample_env ''/v1/charges'' sample_secret = None" "validate_method ''POST'' sample_secret = None"
    by code_simp+
  moreover have "url_host sample_upstream = ''api.stripe.com''" "url_path sample_upstream = ''/v1/charges''"
    "req_method sample_request = ''POST''"
    by (simp_all add: sample_upstream_def sample_url_def sample_request_def)
  ultimately show ?thesis by (simp add: secret_allows_def)
qed

definition sample_plan :: plan where
  "sample_plan = PlanInject sample_secret ''Bearer %s'' ''Authorization''"

lemma sample_admitted: "admitted sample_env sample_server sample_key sample_request sample_upstream sample_plan"
proof -
  have "ingress_ok sample_server sample_request"
    by (simp add: ingress_ok_def sample_server_def sample_request_def)
  moreover have "fallback_keys sample_server = []" by (simp add: fallback_keys_def sample_server_def)
  moreover have "req_header sample_request = sample_headers" by (simp add: sample_request_def)
  moreover have "url_host sample_upstream = ''api.stripe.com''" by (simp add: sample_upstream_def sample_url_def)
  moreover have "reject_non_standard_port ''api.stripe.com'' = None" by code_simp
  ultimately show ?thesis
    using sample_sealed_header sample_header_upstream sample_header_values sample_parse sample_opens
      sample_resolved sample_allows
    by (auto simp: admitted_def names_upstream_def plan_ok_def sample_plan_def)
qed

text \<open>The outbound form of the sample request, over the injected transport and over a dialed connection.\<close>

definition sample_outbound :: request where
  "sample_outbound =
     outbound_request sample_env sample_server (capped sample_server sample_request) sample_upstream
       (Some sample_inject) ''Bearer %s'' ''Authorization''"

lemma sample_target: "url_host (forward_target sample_env sample_upstream) = ''api.stripe.com''"
proof -
  have "to_lower (uni_lower sample_env) (strip_port ''api.stripe.com'') = ''api.stripe.com''" by code_simp
  then show ?thesis by (simp add: forward_target_def sample_upstream_def sample_url_def)
qed

lemma sample_exchange:
  "Exchange None sample_outbound \<in>
     set (snd (handle_forward sample_env sample_server sample_key sample_world sample_writer sample_request))"
proof -
  obtain ce sw tr pre flds where
    p: "plan_forward sample_env sample_server sample_world sample_writer (capped sample_server sample_request)
          sample_upstream sample_plan = (ce, sw, tr)"
    and h: "handle_forward sample_env sample_server sample_key sample_world sample_writer sample_request =
          (sw_inner sw, pre @ tr @ log_forward_outcome sample_world (plan_event sample_plan) ce (sw_status sw) flds)"
    using handle_forward_runs [OF sample_admitted, of sample_world sample_writer] by (auto simp: runs_plan_def)
  have t: "srv_transport sample_server = Some (\<lambda>_. ([], Inr sample_response))" by (simp add: sample_server_def)
  have "Exchange None sample_outbound \<in> set tr"
    using p forward_to_sends [OF _ t, of sample_env sample_upstream "capped sample_server sample_request"
        "Some sample_inject" "''Bearer %s''" "''Authorization''" sample_world "new_status_writer sample_writer"] sample_target
    by (simp add: sample_plan_def sample_outbound_def sample_secret_def)
  then show ?thesis by (simp add: h)
qed

lemma sample_admitted_dialing:
  "admitted sample_env (sample_server\<lparr>srv_transport := None\<rparr>) sample_key sample_request sample_upstream sample_plan"
proof -
  let ?srv = "sample_server\<lparr>srv_transport := None\<rparr>"
  have "check_auth ?srv = check_auth sample_server"
    by (intro ext) (simp add: check_auth_def split: option.split)
  moreover have "fallback_keys ?srv = fallback_keys sample_server" by (simp add: fallback_keys_def)
  ultimately have "plan_ok E ?srv k r up p = plan_ok E sample_server k r up p" for E k r up p
    by (cases p) (simp_all add: plan_ok_def secret_allows_def)
  moreover have "ingress_ok ?srv r = ingress_ok sample_server r" for r
    by (simp add: ingress_ok_def)
  ultimately show ?thesis using sample_admitted by (simp add: admitted_def)
qed

lemma sample_response_status: "resp_status sample_response = 200"
  by (simp add: sample_response_def)

lemma sample_dialed:
  "Exchange (Some (DialIp (V4 (ipv4 54 187 174 169)) ''443'')) sample_outbound \<in>
     set (snd (handle_forward sample_env (sample_server\<lparr>srv_transport := None\<rparr>) sample_key sample_world sample_writer sample_request))"
proof -
  let ?srv = "sample_server\<lparr>srv_transport := None\<rparr>"
  have same: "outbound_request sample_env ?srv (capped ?srv sample_request) sample_upstream (Some sample_inject)
      ''Bearer %s'' ''Authorization'' = sample_outbound"
    by (simp add: sample_outbound_def outbound_request_def outbound_headers_def director_headers_def strip_headers_def capped_def)
  obtain ce sw tr pre flds where
    p: "plan_forward sample_env ?srv sample_world sample_writer (capped ?srv sample_request)
          sample_upstream sample_plan = (ce, sw, tr)"
    and h: "handle_forward sample_env ?srv sample_key sample_world sample_writer sample_request =
          (sw_inner sw, pre @ tr @ log_forward_outcome sample_world (plan_event sample_plan) ce (sw_status sw) flds)"
    using handle_forward_runs [OF sample_admitted_dialing, of sample_world sample_writer] by (auto simp: runs_plan_def)
  have "dial_address sample_env sample_world (forward_target sample_env sample_upstream) = ''api.stripe.com:443''"
    by code_simp
  moreover have "(guarded_dial sample_env {''localhost''} False (wd_resolve sample_world) ''api.stripe.com:443''
      :: (dial_error + dial_target) \<times> cause log_line list) = (Inr (DialIp (V4 (ipv4 54 187 174 169)) ''443''), [])"
    by code_simp
  moreover have "srv_self ?srv = {''localhost''}" "\<not> srv_disable_guard ?srv" by (simp_all add: sample_server_def)
  moreover have "req_url sample_outbound = forward_target sample_env sample_upstream"
    by (simp add: sample_outbound_def outbound_request_def)
  ultimately have rt: "round_trip sample_env ?srv sample_world sample_outbound =
      (([], Inr sample_response), [Exchange (Some (DialIp (V4 (ipv4 54 187 174 169)) ''443'')) sample_outbound])"
    by (simp add: round_trip_def guarded_round_trip_def sample_world_def)
  have "Exchange (Some (DialIp (V4 (ipv4 54 187 174 169)) ''443'')) sample_outbound \<in> set tr"
    using p forward_to_response [where srv = ?srv, OF _ _ rt [folded same]] sample_target
    by (auto simp: sample_plan_def sample_secret_def sample_response_status same)
  then show ?thesis by (simp add: h)
qed

end
