(* ===== verification/Seal_Properties.thy ===== *)
theory Seal_Properties
  imports Samples
begin

text \<open>
  The properties of \<open>internal/seal/seal.go\<close>: what \<open>Validate\<close> accepts, the anchor and
  control-character checks, keys, bearer digests, the EUID, the JSON text, and sealing and
  opening. Each property is one theorem; a theorem with hypotheses is applied to the samples.
\<close>

section \<open>Validation\<close>

text \<open>C20. \<open>Validate\<close> returns \<open>nil\<close> exactly for the secrets that meet the written contract.\<close>

theorem validate_decides_contract: "validate E s = None \<longleftrightarrow> well_sealed E s"
  by (rule validate_None)

text \<open>
  C28. The loop of \<open>refuseHeaderControlChars\<close> over code points refuses exactly the strings with a
  forbidden byte, also when they are not valid UTF-8: decoding hides no control byte.
\<close>

theorem rune_scan_is_byte_scan:
  "refuse_header_control_chars label v = None \<longleftrightarrow> list_all header_byte v"
  by (simp add: refuse_clean header_clean_def)

text \<open>
  C29. A pattern that passes the anchor check and has no multi-line anchor matches a string only as
  a whole: searching and full matching agree, so a substring never widens the allowlist.
\<close>

theorem anchored_pattern_matches_whole:
  assumes "require_anchored_pattern E label pat = None" "pat \<noteq> []"
    and "re_parse E pat = Some re" "single_line re"
  shows "match_string E pat s = Some (re_full (rune_fold E) re s)"
  using assms anchored_search_full [of re "rune_fold E" s]
  by (simp add: guard_simps anchored_def match_string_def)

theorem anchored_pattern_matches_whole_witness:
  "match_string sample_env ''^/v1/.*$'' ''x/v1/charges'' =
     Some (re_full (rune_fold sample_env)
       (OpConcat [OpBeginText, OpLiteral (map byte_val ''/v1/'') False, OpStar OpAnyCharNotNL, OpEndText]) ''x/v1/charges'')"
  by (rule anchored_pattern_matches_whole [where label = "''allowed_path_pattern''"])
    (simp_all add: guard_simps anchored_def sample_env_def)

text \<open>
  A multi-line pattern passes the anchor check and still matches a proper substring: the check
  takes \<open>^\<close> and \<open>$\<close> of \<open>(?m)\<close> for anchors, and a text with a line break gets through.
\<close>

lemma multi_line_pattern_widens:
  "\<exists>E pat re s. re_parse E pat = Some re \<and> require_anchored_pattern E label pat = None \<and>
     match_string E pat s = Some True \<and> \<not> re_full (rune_fold E) re s"
proof -
  let ?re = "OpConcat [OpBeginLine, OpLiteral [47] False, OpEndLine]"
  let ?E = "sample_env\<lparr>re_parse := (\<lambda>_. Some ?re)\<rparr>"
  let ?s = "''/'' @ newline @ ''evil''"
  have "re_parse ?E ''(?m)^/$'' = Some ?re" by simp
  moreover have "require_anchored_pattern ?E label ''(?m)^/$'' = None"
    by (simp add: require_anchored_pattern_def)
  moreover have "re_search (\<lambda>a b. a = b) ?re ?s" "\<not> re_full (\<lambda>a b. a = b) ?re ?s" by code_simp+
  ultimately show ?thesis
    by (intro exI [of _ ?E] exI [of _ "''(?m)^/$''"] exI [of _ ?re] exI [of _ ?s])
      (simp add: match_string_def sample_env_def)
qed

section \<open>Keys, digests, identifiers\<close>

text \<open>
  A key survives its hex form with any ASCII white space around it, and every text that parses
  gives a key of 32 bytes.
\<close>

lemma key_hex_round_trip:
  assumes "length k = KeyLen" "list_all space_byte a" "list_all space_byte b" "ascii a" "ascii b"
  shows "parse_private_key (a @ key_hex k @ b) = Inr k \<and> parse_public_key (a @ key_hex k @ b) = Inr k"
proof -
  have "trim_space (a @ key_hex k @ b) = key_hex k"
    by (rule trim_space_surround)
      (use assms hex_encode_chars [of _ k] hex_encode_Nil_iff [of k] in \<open>auto simp: key_hex_def KeyLen_def simp del: hex_encode_Nil_iff\<close>)
  then have "parse_key_opt (a @ key_hex k @ b) = Some k"
    using key.read_surround [of k] assms(1) by (simp add: key_ok_def)
  then show ?thesis by (simp add: parse_public_key_eq parse_private_key_Inr)
qed

lemma key_hex_round_trip_witness:
  "parse_private_key ('' '' @ key_hex sample_key @ newline) = Inr sample_key \<and>
   parse_public_key ('' '' @ key_hex sample_key @ newline) = Inr sample_key"
  by (rule key_hex_round_trip) (simp_all add: KeyLen_def sample_key_def newline_def space_byte_def is_space_def)

text \<open>
  \<open>VerifyBearer\<close> accepts exactly the strings whose SHA-256 sum is the one the digest encodes;
  against the digest of a token it accepts the token and its SHA-256 collisions only.
\<close>

lemma verify_bearer_decides:
  "(verify_bearer b p \<longleftrightarrow> b64_decode (digest b) = Some (sha256 p)) \<and>
   (verify_bearer \<lparr>digest = hash_bearer t\<rparr> p \<longleftrightarrow> sha256 p = sha256 t)"
  by (auto simp: verify_bearer_iff hash_bearer_def)

text \<open>
  C30. \<open>NewEUID\<close> yields the text of a version 4 UUID: 36 ASCII characters in the 8-4-4-4-12 layout,
  the version digit 4 and a variant digit between 8 and b.
\<close>

theorem new_euid_is_uuid4:
  assumes "length b = 16"
  shows "\<exists>t. new_euid (Some b) = Inr t \<and> length t = 36 \<and> ascii t \<and>
    t ! 8 = CHR ''-'' \<and> t ! 13 = CHR ''-'' \<and> t ! 18 = CHR ''-'' \<and> t ! 23 = CHR ''-'' \<and>
    t ! 14 = CHR ''4'' \<and> t ! 19 \<in> set ''89ab''"
  using new_euid_shape [OF assms] .

theorem new_euid_is_uuid4_witness:
  "\<exists>t. new_euid (Some (replicate 16 (CHR ''x''))) = Inr t \<and> length t = 36 \<and> ascii t \<and>
    t ! 8 = CHR ''-'' \<and> t ! 13 = CHR ''-'' \<and> t ! 18 = CHR ''-'' \<and> t ! 23 = CHR ''-'' \<and>
    t ! 14 = CHR ''4'' \<and> t ! 19 \<in> set ''89ab''"
  by (rule new_euid_is_uuid4) simp

section \<open>The sealed text\<close>

text \<open>
  The JSON text of a secret decodes to the secret, for every secret whose strings are valid
  UTF-8, whatever follows it in the stream.
\<close>

lemma secret_json_round_trip:
  assumes "text_clean s"
  shows "unmarshal_secret (marshal_secret s @ rest) = Inr s"
  using assms by (rule unmarshal_marshal)

lemma secret_json_round_trip_witness:
  "unmarshal_secret (marshal_secret sample_secret @ '' trailing'') = Inr sample_secret"
  by (rule secret_json_round_trip [OF sample_text_clean])

text \<open>A sealed object with a field that the schema does not have is refused, wherever it stands.\<close>

lemma unknown_field_refused:
  assumes "json_first txt = Some (JObj ms)" "(k, v) \<in> set ms"
    and "\<forall>n \<in> set secret_field_names. \<not> field_is n k"
  shows "\<exists>e. unmarshal_secret txt = Inl e"
proof -
  have "\<exists>e. secret_member x k v = Inl e" for x
    using assms(3) by (simp add: secret_member_def secret_field_names_def)
  then have "\<exists>e. decode_members secret_member zero_secret ms = Inl e"
    by (rule decode_members_refuses [OF assms(2)])
  then show ?thesis using assms(1) by (simp add: unmarshal_secret_def decode_struct_def)
qed

lemma unknown_field_refused_witness:
  "\<exists>e. unmarshal_secret (print_json (JObj [(''name'', JStr ''x''), (''allowed_host'', JStr ''h'')])) = Inl e"
proof (rule unknown_field_refused)
  show "json_first (print_json (JObj [(''name'', JStr ''x''), (''allowed_host'', JStr ''h'')])) =
        Some (JObj [(''name'', JStr ''x''), (''allowed_host'', JStr ''h'')])"
    by code_simp
  show "\<forall>n \<in> set secret_field_names. \<not> field_is n ''allowed_host''"
    by (simp add: secret_field_names_def field_is_plain plain_name_def is_lower_def)
qed simp

section \<open>Sealing and opening\<close>

text \<open>
  C7. What \<open>Seal\<close> produced, \<open>Open\<close> with the matching private key reads back as the secret that the
  caller now holds, with the primary key and whatever the fallbacks are. The hypothesis on the
  box is its documented correctness for this key.
\<close>

theorem open_reads_what_seal_wrote:
  assumes "seal_op E s (public_of E priv) rnd boxrnd = (Inr blob, s')" "text_clean s"
    and "\<And>m c. seal_anonymous E m (public_of E priv) boxrnd = Some c \<Longrightarrow>
           open_anonymous E c (public_of E priv) priv = Some m"
  shows "open_op E blob priv fallback = Inr (s', False)"
  using assms by (rule open_after_seal)

theorem open_reads_what_seal_wrote_witness:
  "open_op sample_env sample_blob sample_key [''other''] = Inr (sample_secret, False)"
  by (rule open_reads_what_seal_wrote [OF sample_seal sample_text_clean sample_box])

text \<open>
  C25. \<open>Open\<close> returns only secrets that meet the contract, and reports the key it used truthfully:
  the primary key, or, when that fails, the first fallback that opens the box.
\<close>

theorem open_is_sound:
  assumes "open_op E blob priv fallback = Inr (s, used)"
  shows "well_sealed E s \<and>
    (\<exists>raw plain. b64_decode blob = Some raw \<and> unmarshal_secret plain = Inr s \<and>
       (if used
        then try_open E raw priv = None \<and>
             (\<exists>as k bs. fallback = as @ k # bs \<and> try_open E raw k = Some plain \<and>
                (\<forall>a \<in> set as. try_open E raw a = None))
        else try_open E raw priv = Some plain))"
proof -
  obtain raw plain where o: "validate E s = None" "b64_decode blob = Some raw"
    "decrypt E raw priv fallback = Some (plain, used)" "unmarshal_secret plain = Inr s"
    using open_op_InrD [OF assms] by blast
  have "if used then try_open E raw priv = None \<and> open_first E raw fallback = Some plain
        else try_open E raw priv = Some plain"
    using o(3) by (auto simp: decrypt_def split: option.splits)
  then show ?thesis using o open_first_SomeD [of E raw fallback plain] by (cases used) (auto simp: guard_simps)
qed

theorem open_is_sound_witness:
  "well_sealed sample_env sample_secret"
  using open_is_sound [OF sample_opens] by blast

text \<open>
  C26. A box sealed for an old key still opens when that key is a fallback behind keys that do not
  open it, and \<open>usedFallback\<close> says so.
\<close>

theorem rotation_opens_old_seals:
  assumes "seal_op E s (public_of E old) rnd boxrnd = (Inr (b64_encode c), s')" "text_clean s"
    and "open_anonymous E c (public_of E old) old = Some (marshal_secret s')"
    and "\<forall>k \<in> set (primary # as). try_open E c k = None"
  shows "open_op E (b64_encode c) primary (as @ old # bs) = Inr (s', True)"
proof -
  have "open_first E c (as @ old # bs) = Some (marshal_secret s' @ [])"
    using open_first_append [of as E c "old # bs"] assms(3,4) by (simp add: try_open_def)
  then have "decrypt E c primary (as @ old # bs) = Some (marshal_secret s' @ [], True)"
    using assms(4) by (simp add: decrypt_def)
  moreover have "validate E s' = None" using seal_op_InrE [OF assms(1)] by (metis validate_euid)
  ultimately show ?thesis using open_op_plain seal_op_clean [OF assms(1,2)] by blast
qed

theorem rotation_opens_old_seals_witness:
  "open_op sample_env sample_blob ''new'' [sample_key] = Inr (sample_secret, True)"
proof -
  obtain c where c: "sample_blob = b64_encode c"
    "seal_anonymous sample_env (marshal_secret sample_secret) (public_of sample_env sample_key) [] = Some c"
    using seal_op_InrE [OF sample_seal] by metis
  have "open_op sample_env (b64_encode c) ''new'' ([] @ sample_key # []) = Inr (sample_secret, True)"
  proof (rule rotation_opens_old_seals [where rnd = None and boxrnd = "[]", OF _ sample_text_clean])
    show "seal_op sample_env sample_secret (public_of sample_env sample_key) None [] = (Inr (b64_encode c), sample_secret)"
      using sample_seal c(1) by simp
    show "open_anonymous sample_env c (public_of sample_env sample_key) sample_key = Some (marshal_secret sample_secret)"
      using sample_box c(2) by blast
    have "prefix (rev sample_key) c" using c(2) by (auto simp: sample_env_def public_of_def)
    then have "\<not> prefix ''wen'' c" by (auto simp: sample_key_def prefix_def)
    then show "\<forall>k \<in> set (''new'' # []). try_open sample_env c k = None"
      by (simp add: try_open_def public_of_def sample_env_def)
  qed
  then show ?thesis using c(1) by simp
qed

text \<open>
  C27. \<open>Seal\<close> leaves the caller's struct alone when it fails, and otherwise changes nothing but the
  EUID, which it sets only when it was empty.
\<close>

theorem seal_touches_only_euid:
  "case seal_op E s pub rnd boxrnd of
     (Inl e, s') \<Rightarrow> s' = s
   | (Inr blob, s') \<Rightarrow> well_sealed E s \<and> (\<exists>i. s' = s\<lparr>euid := i\<rparr> \<and> (if euid s = [] then new_euid rnd = Inr i else i = euid s))"
proof (cases "seal_op E s pub rnd boxrnd")
  case (Pair res s')
  show ?thesis
  proof (cases res)
    case (Inl e)
    then show ?thesis using seal_op_InlD [of E s pub rnd boxrnd e s'] Pair by simp
  next
    case (Inr blob)
    then obtain i where "s' = s\<lparr>euid := i\<rparr>" "validate E s = None" "if euid s = [] then new_euid rnd = Inr i else i = euid s"
      using seal_op_InrE [of E s pub rnd boxrnd blob s'] Pair by metis
    then show ?thesis using Pair Inr by (auto simp: guard_simps)
  qed
qed

end
