(* ===== verification/Guard_Properties.thy ===== *)
theory Guard_Properties
  imports Samples
begin

text \<open>
  The properties of the guards of \<open>internal/proxy\<close>: the ingress allowlist, the parts of the
  sealed header, the rules on host, path and processor, and the egress guard.
\<close>

section \<open>Ingress\<close>

text \<open>
  C31. Every prefix that \<open>ParseAllowedClientCIDRs\<close> returns is valid, has no zone and no host bits,
  and a client is a member exactly when, after unmapping, it has the family of a prefix, no zone,
  and a number in the interval of that prefix.
\<close>

theorem allowlist_is_intervals:
  assumes "parse_cidrs es = Inr ps"
  shows "(\<forall>p \<in> set ps. proper_prefix p) \<and>
    (ip_in_prefixes a ps \<longleftrightarrow>
      (\<exists>p \<in> set ps. \<exists>b. prefix_bits p = Some b \<and> is4 (prefix_addr p) = is4 (unmap a) \<and> addr_zone (unmap a) = [] \<and>
         (let k = bit_len (unmap a) - b; base = addr_num (prefix_addr p) div 2 ^ k * 2 ^ k
          in base \<le> addr_num (unmap a) \<and> addr_num (unmap a) < base + 2 ^ k)))"
proof -
  have proper: "\<forall>p \<in> set ps. proper_prefix p" using parse_cidrs_proper [OF assms] by blast
  have "prefix_contains p (unmap a) \<longleftrightarrow>
      (\<exists>b. prefix_bits p = Some b \<and> is4 (prefix_addr p) = is4 (unmap a) \<and> addr_zone (unmap a) = [] \<and>
         (let k = bit_len (unmap a) - b; base = addr_num (prefix_addr p) div 2 ^ k * 2 ^ k
          in base \<le> addr_num (unmap a) \<and> addr_num (unmap a) < base + 2 ^ k))" if "p \<in> set ps" for p
  proof -
    have "proper_prefix p" using proper that by blast
    then obtain b where b: "prefix_bits p = Some b" by (auto simp: proper_prefix_def)
    show ?thesis using prefix_contains_interval [of p b "unmap a"] proper that b by (simp add: Let_def)
  qed
  then show ?thesis using proper by (simp add: cidrs.check_iff)
qed

theorem allowlist_is_intervals_witness:
  "parse_cidrs [''10.1.2.3/8'', '' '', ''192.0.2.1''] = Inr [Prefix (V4 167772160) (Some 8), Prefix (V4 3221225985) (Some 32)] \<and>
   proper_prefix (Prefix (V4 167772160) (Some 8)) \<and> proper_prefix (Prefix (V4 3221225985) (Some 32))"
proof -
  have "parse_cidrs [''10.1.2.3/8'', '' '', ''192.0.2.1''] = Inr [Prefix (V4 167772160) (Some 8), Prefix (V4 3221225985) (Some 32)]"
    by code_simp
  note p = this
  show ?thesis using allowlist_is_intervals [OF p] p by simp
qed

text \<open>A bare address as an entry admits that address and no other, mapped or not.\<close>

lemma bare_address_admits_itself:
  assumes "parse_addr raw = Some a" "CHR ''/'' \<notin> set raw" "addr_zone a = []" "addr_zone b = []"
  shows "\<exists>p. parse_cidr_or_ip raw = Some p \<and> (ip_in_prefixes b [p] \<longleftrightarrow> unmap b = unmap a)"
  using single_address_prefix [OF assms(1-3)] assms(4) by blast

lemma bare_address_admits_itself_witness:
  "\<exists>p. parse_cidr_or_ip ''::ffff:192.0.2.1'' = Some p \<and>
     (ip_in_prefixes (V4 3221225985) [p] \<longleftrightarrow> unmap (V4 3221225985) = unmap (V6 281473902969345 []))"
  by (rule bare_address_admits_itself) (code_simp, simp_all)

text \<open>
  A CIDR entry written in the IPv4-mapped form is accepted by the parser and can never match,
  because the address that is looked up is always unmapped: the entry is dead.
\<close>

lemma mapped_cidr_is_dead:
  assumes "is4in6 (V6 w [])" "96 \<le> b" "b \<le> 128"
  shows "\<not> ip_in_prefixes a [Prefix (V6 w []) (Some b)]"
  using assms by (rule v6_mapped_prefix_dead)

lemma mapped_cidr_is_dead_witness:
  "parse_cidrs [''::ffff:10.0.0.0/104''] = Inr [Prefix (V6 281470849515520 []) (Some 104)] \<and>
   \<not> ip_in_prefixes (V4 167837953) [Prefix (V6 281470849515520 []) (Some 104)]"
proof
  show "parse_cidrs [''::ffff:10.0.0.0/104''] = Inr [Prefix (V6 281470849515520 []) (Some 104)]" by code_simp
  show "\<not> ip_in_prefixes (V4 167837953) [Prefix (V6 281470849515520 []) (Some 104)]"
    by (rule mapped_cidr_is_dead) (code_simp, simp_all)
qed

text \<open>
  C32. Behind a TLS terminator the client address is decided by the last token of the last
  \<open>X-Forwarded-For\<close> line alone, which is the whole line where it has no comma: earlier lines, earlier
  tokens and the peer address have no influence, and an empty token, also that of an empty line, is an
  error, never a fall back to the peer.
\<close>

theorem xff_rightmost_decides:
  assumes "header_values (req_header r) ''X-Forwarded-For'' = earlier @ [line]"
    and "line = tok \<or> (\<exists>forged. line = forged @ '','' @ tok)" "CHR '','' \<notin> set tok"
  shows "client_ip_from_request r True False =
     (if trim_space tok = [] then Inl XffEmpty else parse_ip_maybe_port (trim_space tok))"
  using assms by (auto simp: client_ip_from_request_def Let_def split_byte_append split_byte_single)

theorem xff_rightmost_decides_witness:
  "client_ip_from_request
     (sample_request\<lparr>req_header := header_set no_headers ''X-Forwarded-For'' ''10.0.0.1, 203.0.113.9''\<rparr>) True False
   = Inr (V4 3405803785)"
proof -
  let ?r = "sample_request\<lparr>req_header := header_set no_headers ''X-Forwarded-For'' ''10.0.0.1, 203.0.113.9''\<rparr>"
  have "client_ip_from_request ?r True False =
     (if trim_space '' 203.0.113.9'' = [] then Inl XffEmpty else parse_ip_maybe_port (trim_space '' 203.0.113.9''))"
  proof (rule xff_rightmost_decides)
    show "header_values (req_header ?r) ''X-Forwarded-For'' = [] @ [''10.0.0.1, 203.0.113.9'']"
      by (simp add: header_simps)
    show "''10.0.0.1, 203.0.113.9'' = '' 203.0.113.9'' \<or> (\<exists>forged. ''10.0.0.1, 203.0.113.9'' = forged @ '','' @ '' 203.0.113.9'')"
      by (intro disjI2 exI [of _ "''10.0.0.1''"]) simp
  qed simp
  also have "\<dots> = Inr (V4 3405803785)" by code_simp
  finally show ?thesis .
qed

section \<open>Bearer and processor\<close>

text \<open>
  Basic credentials yield the password, everything behind the first colon, and a bearer yields
  the token without the white space around it.
\<close>

lemma basic_credentials_yield_password:
  assumes "CHR '':'' \<notin> set user"
  shows "extract_bearer (''Basic '' @ b64_encode (user @ '':'' @ pass)) = Some pass \<and>
         extract_bearer (''Bearer '' @ t) = Some (trim_space t)"
  using cut_byte_fresh [OF assms, of pass] by (simp add: extract_bearer_def)

lemma basic_credentials_yield_password_witness:
  "extract_bearer (''Basic '' @ b64_encode (''x'' @ '':'' @ ''a:b'')) = Some ''a:b'' \<and>
   extract_bearer (''Bearer '' @ '' tok '') = Some (trim_space '' tok '')"
  by (rule basic_credentials_yield_password) simp

text \<open>
  C33. A client override takes effect only in a field that the seal left open and only with a value
  from the seal's list; otherwise format and header name are the sealed ones or the defaults.
\<close>

theorem override_stays_within_seal:
  assumes "resolve_processor ihp ov = Inr (f, h)"
  shows "\<exists>ih. ihp = Some ih \<and>
    (if format ih \<noteq> [] then f = format ih else f = ''Bearer %s'' \<or> f \<in> set (allowed_formats ih)) \<and>
    (if header_name ih \<noteq> [] then h = header_name ih
     else h = ''Authorization'' \<or> h \<in> set (allowed_header_names ih))"
proof -
  obtain ih where "ihp = Some ih"
    "f = default_to ''Bearer %s'' (format ih) \<or> format ih = [] \<and> f \<in> set (allowed_formats ih)"
    "h = default_to ''Authorization'' (header_name ih) \<or> header_name ih = [] \<and> h \<in> set (allowed_header_names ih)"
    using resolve_processor_InrD [OF assms] by metis
  then show ?thesis by (auto simp: default_to_def)
qed

theorem override_stays_within_seal_witness:
  "\<exists>ih. Some sample_inject = Some ih \<and>
    (if format ih \<noteq> [] then ''Token %s'' = format ih
     else ''Token %s'' = ''Bearer %s'' \<or> ''Token %s'' \<in> set (allowed_formats ih)) \<and>
    (if header_name ih \<noteq> [] then ''Authorization'' = header_name ih
     else ''Authorization'' = ''Authorization'' \<or> ''Authorization'' \<in> set (allowed_header_names ih))"
  by (rule override_stays_within_seal [where ov = "Some \<lparr>o_format = ''Token %s'', o_header_name = []\<rparr>"]) code_simp

section \<open>Path and host\<close>

text \<open>
  C21. \<open>refuseDotSegments\<close> accepts a path exactly when at most four rounds of percent decoding reach
  a form without percent signs and no form on the way, or after it, has a dot segment.
\<close>

theorem dot_segments_refused_at_every_depth:
  "refuse_dot_segments path = None \<longleftrightarrow>
     (\<exists>m \<le> max_decodes. \<exists>q. decode_iter m path = Some q \<and> CHR ''%'' \<notin> set q) \<and>
     (\<forall>k q. decode_iter k path = Some q \<longrightarrow> \<not> has_dot_segment q)"
  using decode_rounds_NoneD [of "Suc max_decodes" 0 path path] decode_rounds_NoneI [of _ "Suc max_decodes" path _ 0 path]
  by (auto simp: refuse_dot_segments_def less_Suc_eq_le)

theorem dot_segments_refused_at_every_depth_witness:
  "refuse_dot_segments ''/v1/charges/abc%252F..%252Fadmin'' \<noteq> None"
proof -
  have "decode_iter 2 ''/v1/charges/abc%252F..%252Fadmin'' = Some ''/v1/charges/abc/../admin''"
    "has_dot_segment ''/v1/charges/abc/../admin''" by code_simp+
  then show ?thesis using dot_segments_refused_at_every_depth [of "''/v1/charges/abc%252F..%252Fadmin''"] by blast
qed

text \<open>
  C22. Under a prefix rule an accepted path is an entry itself or continues an entry behind a slash,
  so the rule for \<open>/v1/charges\<close> does not admit \<open>/v1/chargesX\<close>, and no decoding of the path leaves
  the prefix through a dot segment.
\<close>

theorem path_rule_is_segment_wise:
  assumes "validate_path E path s = None" "allowed_path_prefixes s \<noteq> []"
  shows "(\<exists>p \<in> set (allowed_path_prefixes s). path = p \<or>
           (\<exists>rest. path = p @ (if suffix ''/'' p then '''' else ''/'') @ rest)) \<and>
         (\<forall>k q. decode_iter k path = Some q \<longrightarrow> \<not> has_dot_segment q)"
proof -
  have "path_listed (allowed_path_prefixes s) path" "refuse_dot_segments path = None"
    using assms by (auto simp: guard_simps)
  then show ?thesis
    using decode_rounds_NoneD [of "Suc max_decodes" 0 path path]
    by (auto simp: paths.check_iff path_allows_segments refuse_dot_segments_def)
qed

lemma sample_path_ok:
  "validate_path sample_env ''/v1/charges/ch_1'' sample_secret = None" "allowed_path_prefixes sample_secret \<noteq> []"
  by code_simp+

theorem path_rule_is_segment_wise_witness:
  "(\<exists>p \<in> set (allowed_path_prefixes sample_secret). ''/v1/charges/ch_1'' = p \<or>
      (\<exists>rest. ''/v1/charges/ch_1'' = p @ (if suffix ''/'' p then '''' else ''/'') @ rest)) \<and>
   (\<nexists>k q. decode_iter k ''/v1/charges/ch_1'' = Some q \<and> has_dot_segment q)"
  using path_rule_is_segment_wise [of sample_env "''/v1/charges/ch_1''" sample_secret]
  by (meson sample_path_ok)

text \<open>
  C34. With an allowlist of ASCII names, a host is accepted exactly when it is one of them up to
  ASCII case; the port is part of the comparison.
\<close>

theorem host_rule_is_case_insensitive:
  assumes "allowed_hosts s \<noteq> []" "list_all ascii (allowed_hosts s)" "ascii host"
  shows "validate_host E host s = None \<longleftrightarrow> (\<exists>h \<in> set (allowed_hosts s). map lower_byte h = map lower_byte host)"
  using assms by (auto simp: guard_simps hosts.check_iff to_lower_ascii list_all_iff)

theorem host_rule_is_case_insensitive_witness:
  "validate_host sample_env ''API.Stripe.com'' sample_secret = None"
proof -
  have "validate_host sample_env ''API.Stripe.com'' sample_secret = None \<longleftrightarrow>
    (\<exists>h \<in> set (allowed_hosts sample_secret). map lower_byte h = map lower_byte ''API.Stripe.com'')"
    by (rule host_rule_is_case_insensitive) (simp_all add: sample_secret_def)
  also have "\<dots>" by code_simp
  finally show ?thesis by simp
qed

section \<open>Egress\<close>

text \<open>
  C24. An IPv4 address is refused exactly when it lies in one of nine special-purpose blocks, and the
  IPv4-mapped IPv6 form of an address is decided like the address.
\<close>

theorem refused_v4_ranges:
  "(is_private_or_local (V4 w) \<longleftrightarrow> (\<exists>n \<in> set forbidden_v4. ipnet4_contains n w)) \<and>
   is_private_or_local (unmap a) = is_private_or_local a"
  by (simp add: is_private_or_local_v4 nets.check_iff is_private_or_local_unmap)

text \<open>
  C23. With the guard on, a dial that is not refused goes to the first address that the resolver gave
  for the host, at the requested port, and none of the addresses of the host is private or local;
  the host is not one of the proxy's own names in any ASCII case.
\<close>

theorem dial_is_public_and_not_self:
  assumes "guarded_dial E self_names False resolve address = (Inr t, lg)"
  shows "\<exists>host port ip ips. split_host_port address = Inr (host, port) \<and> resolve host = Some (ip # ips) \<and>
     t = DialIp ip port \<and> (\<forall>i \<in> set (ip # ips). \<not> is_private_or_local i) \<and>
     to_lower (uni_lower E) host \<notin> self_names"
proof -
  note d = arg_cong [OF assms, of fst, unfolded fst_conv]
  show ?thesis by (rule guarded_dial_InrD [OF d]) auto
qed

theorem dial_is_public_and_not_self_witness:
  "\<exists>host port ip ips. split_host_port ''api.stripe.com:443'' = Inr (host, port) \<and>
     wd_resolve sample_world host = Some (ip # ips) \<and> DialIp (V4 (ipv4 54 187 174 169)) ''443'' = DialIp ip port \<and>
     (\<forall>i \<in> set (ip # ips). \<not> is_private_or_local i) \<and> to_lower (uni_lower sample_env) host \<notin> {''localhost''}"
  by (rule dial_is_public_and_not_self [where lg = "[] :: cause log_line list"]) code_simp

text \<open>
  C35. For an ASCII upstream host without brackets that the port rule lets through, the transport
  dials the lower-cased host at port 443, whatever port the client wrote. The hypotheses are that
  the IDNA mapping leaves ASCII names alone and that no outbound proxy is configured.
\<close>

theorem dial_port_is_443:
  assumes "reject_non_standard_port (url_host u) = None" "CHR ''['' \<notin> set (url_host u)" "ascii (url_host u)"
    and "\<And>h. ascii h \<Longrightarrow> idna_ascii E h = h" "wd_proxy W (forward_target E u) = None"
  shows "split_host_port (dial_address E W (forward_target E u)) =
           Inr (map lower_byte (strip_port (url_host u)), ''443'')"
  using assms by (rule dial_address_443(2))

theorem dial_port_is_443_witness:
  "split_host_port (dial_address sample_env sample_world (forward_target sample_env (sample_url ''API.stripe.com:443'' ''/''))) =
     Inr (map lower_byte (strip_port (url_host (sample_url ''API.stripe.com:443'' ''/''))), ''443'')"
  by (rule dial_port_is_443) (code_simp, code_simp, simp_all add: sample_url_def sample_env_def sample_world_def)





end
