(* ===== verification/Forward_Properties.thy ===== *)
theory Forward_Properties
  imports Samples
begin

text \<open>
  The properties of the forward handler and its pipeline: when a request is forwarded, what its
  headers become on the way, how the outcome reaches the client and the log, and what the log
  cannot tell.
\<close>

section \<open>When a request is forwarded\<close>

text \<open>
  C1. Whatever the handler hands to a connection is the rewritten form of a request that met the
  whole contract: size, ingress allowlist, upstream URL, at most one sealed header, the port rule,
  and either passthrough where it is enabled and no secret was sent, or an opened, valid secret
  whose authentication, host, path and method rules the request passes.
\<close>

theorem forwarded_only_if_admitted:
  assumes "Exchange t out \<in> set (snd (handle_forward E srv key W w r))"
  shows "\<exists>up p. admitted E srv key r up p \<and>
    out = plan_request E srv r up p"
proof -
  obtain up p where a: "admitted E srv key r up p"
    and x: "Exchange t out \<in> set (snd (snd (plan_forward E srv W w (capped srv r) up p)))"
    using handle_forward_exchange [OF assms] by metis
  then show ?thesis using plan_forward_exchange by blast
qed

theorem forwarded_only_if_admitted_witness:
  "\<exists>up p. admitted sample_env sample_server sample_key sample_request up p \<and>
    sample_outbound = plan_request sample_env sample_server sample_request up p"
  by (rule forwarded_only_if_admitted [OF sample_exchange])

text \<open>
  C2. Conversely, a request that meets the contract is handed to \<open>forwardTo\<close> under its plan, the
  client gets the writer that \<open>forwardTo\<close> leaves, and the last log line is the outcome.
\<close>

theorem admitted_is_forwarded:
  assumes "admitted E srv key r up p"
  shows "\<exists>ce sw tr pre flds. plan_forward E srv W w (capped srv r) up p = (ce, sw, tr) \<and>
    (\<forall>e \<in> set pre. \<exists>l. e = Logged l) \<and>
    handle_forward E srv key W w r =
      (sw_inner sw, pre @ tr @ log_forward_outcome W (plan_event p) ce (sw_status sw) flds)"
  using handle_forward_runs [OF assms, of W w] by (simp add: runs_plan_def)

theorem admitted_is_forwarded_witness:
  "\<exists>ce sw tr pre flds.
    plan_forward sample_env sample_server sample_world sample_writer (capped sample_server sample_request)
      sample_upstream sample_plan = (ce, sw, tr) \<and>
    (\<forall>e \<in> set pre. \<exists>l. e = Logged l) \<and>
    handle_forward sample_env sample_server sample_key sample_world sample_writer sample_request =
      (sw_inner sw, pre @ tr @ log_forward_outcome sample_world (plan_event sample_plan) ce (sw_status sw) flds)"
  by (rule admitted_is_forwarded [OF sample_admitted])

text \<open>
  C3. End to end, with the guard on and no outbound proxy: whatever is sent over a dialed connection
  went to a resolved address of the upstream host that is neither private nor local, as are all
  other addresses of that host, and the host is none of the proxy's own names.
\<close>

theorem dialed_only_public:
  assumes "Exchange (Some t) out \<in> set (snd (handle_forward E srv key W w r))" "\<not> srv_disable_guard srv"
  shows "\<exists>host port ip ips. split_host_port (dial_address E W (req_url out)) = Inr (host, port) \<and>
    wd_resolve W host = Some (ip # ips) \<and> t = DialIp ip port \<and>
    (\<forall>i \<in> set (ip # ips). \<not> is_private_or_local i) \<and> to_lower (uni_lower E) host \<notin> srv_self srv"
proof -
  obtain up p where "Exchange (Some t) out \<in> set (snd (snd (plan_forward E srv W w (capped srv r) up p)))"
    using handle_forward_exchange [OF assms(1)] by metis
  then have "Exchange (Some t) out \<in> set (snd (round_trip E srv W out))"
    using plan_forward_exchange by blast
  then obtain lg :: "cause log_line list" where
    "guarded_dial E (srv_self srv) False (wd_resolve W) (dial_address E W (req_url out)) = (Inr t, lg)"
    using round_trip_exchange [of "Some t" out E srv W out] assms(2) by auto
  note d = arg_cong [OF this, of fst, unfolded fst_conv]
  show ?thesis by (rule guarded_dial_InrD [OF d]) auto
qed

theorem dialed_only_public_witness:
  "\<exists>host port ip ips. split_host_port (dial_address sample_env sample_world (req_url sample_outbound)) = Inr (host, port) \<and>
    wd_resolve sample_world host = Some (ip # ips) \<and> DialIp (V4 (ipv4 54 187 174 169)) ''443'' = DialIp ip port \<and>
    (\<forall>i \<in> set (ip # ips). \<not> is_private_or_local i) \<and>
    to_lower (uni_lower sample_env) host \<notin> srv_self (sample_server\<lparr>srv_transport := None\<rparr>)"
  by (rule dialed_only_public [OF sample_dialed]) (simp add: sample_server_def)

section \<open>Headers on the way\<close>

text \<open>
  C4. The injected header reaches the upstream with exactly one value, the formatted token, whatever
  the client sent: neither a header of the same name nor a \<open>Connection\<close> line that nominates it
  interferes. The name must not be one that the reverse proxy treats itself.
\<close>

theorem credential_reaches_upstream:
  assumes "\<not> any_key rp_hop_headers hn" "\<not> same_key hn ''X-Forwarded-For''"
  shows "header_lookup (req_header (outbound_request E srv r up (Some ih) fmt hn)) hn =
           Some [go_sprintf E fmt (token ih)]"
proof -
  let ?h = "append_xff (req_remote r)
    (keep_te (req_header r) (remove_hop_by_hop (director_headers E srv (Some ih) fmt hn (req_header r))))"
  have "header_lookup ?h hn = Some [go_sprintf E fmt (token ih)]"
    using assms connection_tokens_director [of hn "Some ih" E srv fmt "req_header r"] te_is_hop [of hn]
    by (auto simp: lookup_xff [where j = hn] lookup_keep_te lookup_hop lookup_director)
  moreover from this have "same_key hn ''User-Agent'' \<Longrightarrow> header_lookup ?h ''User-Agent'' \<noteq> None"
    using hdr.lookup_same [of hn "''User-Agent''" ?h] by simp
  ultimately show ?thesis
    by (auto simp: outbound_request_def outbound_headers_def lookup_user_agent)
qed

theorem credential_reaches_upstream_witness:
  "header_lookup (req_header (outbound_request sample_env sample_server sample_request sample_upstream
      (Some sample_inject) ''Bearer %s'' ''Authorization'')) ''Authorization'' =
     Some [go_sprintf sample_env ''Bearer %s'' (token sample_inject)]"
  by (rule credential_reaches_upstream) (simp_all add: rp_hop_headers_def same_key_def)

text \<open>
  C5. With a credential injected under another name, no \<open>Authorization\<close>, \<open>Proxy-Authorization\<close> or
  \<open>Proxy-Authenticate\<close> header of the client reaches the upstream.
\<close>

theorem client_credentials_dropped:
  assumes "any_key auth_headers j" "\<not> same_key j hn" "\<not> any_key rp_hop_headers hn"
  shows "header_lookup (req_header (outbound_request E srv r up (Some ih) fmt hn)) j = None"
proof -
  have j: "\<not> same_key j ''X-Forwarded-For''" "\<not> same_key j ''User-Agent''" "\<not> same_key j ''Te''"
    using assms(1) by (auto simp: auth_headers_def same_key_def)
  then show ?thesis
    using assms
    by (simp add: outbound_request_def outbound_headers_def lookup_user_agent lookup_xff [where j = j]
        lookup_keep_te lookup_hop lookup_director)
qed

theorem client_credentials_dropped_witness:
  "header_lookup (req_header (outbound_request sample_env sample_server sample_request sample_upstream
      (Some sample_inject) ''Bearer %s'' ''X-Api-Key'')) ''Authorization'' = None"
proof (rule client_credentials_dropped)
  have "canonical_key ''X-Api-Key'' = ''X-Api-Key''" by code_simp
  then show "\<not> same_key ''Authorization'' ''X-Api-Key''" "\<not> any_key rp_hop_headers ''X-Api-Key''"
    by (simp_all add: same_key_def rp_hop_headers_def)
  show "any_key auth_headers ''Authorization''" by (simp add: auth_headers_def)
qed

text \<open>
  C6. The control headers of the wire protocol, which hold the sealed blob and the client's bearer,
  never reach the upstream, unless the seal itself uses such a name for its credential.
\<close>

theorem control_headers_stay:
  assumes "any_key [HeaderUpstreamURL, HeaderSealedSecret, HeaderAuthBearer] j"
    and "ihp = None \<or> \<not> same_key j hn"
  shows "header_lookup (req_header (outbound_request E srv r up ihp fmt hn)) j = None"
proof -
  have j: "\<not> same_key j ''X-Forwarded-For''" "\<not> same_key j ''User-Agent''" "\<not> same_key j ''Te''"
    using assms(1) by (auto simp: same_key_def)
  have "stripped srv j" using assms(1) by (auto simp: stripped_def hop_by_hop_headers_def)
  then show ?thesis
    using assms(2) j
    by (auto simp: outbound_request_def outbound_headers_def lookup_user_agent lookup_xff [where j = j]
        lookup_keep_te lookup_hop lookup_director lookup_strip_headers split: option.splits)
qed

theorem control_headers_stay_witness:
  "header_lookup (req_header (outbound_request sample_env sample_server sample_request sample_upstream
      (Some sample_inject) ''Bearer %s'' ''Authorization'')) HeaderSealedSecret = None"
  by (rule control_headers_stay) (simp_all add: same_key_def)

text \<open>
  C37. Everything else is transparent: what a connection gets has the method, the body (a request of
  declared length zero has none) and the path and query of the upstream URL, and every header that no
  rule names and that the client does not nominate as hop-by-hop arrives as the client sent it.
\<close>

theorem other_headers_pass:
  assumes sent: "Exchange t out \<in> set (snd (snd (forward_to E srv W sw r up ihp fmt hn)))"
    and names: "\<not> stripped srv j" "\<not> any_key proxy_owned j" "\<not> any_key (connection_tokens (req_header r)) j"
    and injected: "ihp = None \<or> \<not> any_key rp_hop_headers hn \<and> \<not> same_key j hn \<and> \<not> any_key auth_headers j"
  shows "header_lookup (req_header out) j = header_lookup (req_header r) j \<and>
    req_method out = req_method r \<and> req_length out = req_length r \<and>
    (req_length r \<noteq> 0 \<longrightarrow> req_body out = req_body r \<and> req_body_end out = req_body_end r) \<and>
    url_path (req_url out) = url_path up \<and> url_raw_query (req_url out) = url_raw_query up"
proof -
  have out: "out = outbound_request E srv r up ihp fmt hn"
    using forward_to_exchange [OF sent] by (simp add: rp_outbound_request)
  have "header_lookup (req_header out) j = header_lookup (req_header r) j"
    unfolding out using outbound_transparent [OF names(1,2)] injected by blast
  then show ?thesis unfolding out by (simp add: outbound_request_def forward_target_def)
qed

theorem other_headers_pass_witness:
  "header_lookup (req_header sample_outbound) ''Accept'' = header_lookup (req_header (capped sample_server sample_request)) ''Accept'' \<and>
   req_method sample_outbound = ''POST''"
proof -
  have k: "canonical_key ''Accept'' = ''Accept''" "canonical_key ''Cookie'' = ''Cookie''" by code_simp+
  have t: "srv_transport sample_server = Some (\<lambda>_. ([], Inr sample_response))" by (simp add: sample_server_def)
  have sent: "Exchange None sample_outbound \<in> set (snd (snd (forward_to sample_env sample_server sample_world
      (new_status_writer sample_writer) (capped sample_server sample_request) sample_upstream (Some sample_inject) ''Bearer %s'' ''Authorization'')))"
    unfolding sample_outbound_def by (rule forward_to_sends [OF _ t]) (simp add: sample_target)
  have names: "\<not> stripped sample_server ''Accept''" "\<not> any_key proxy_owned ''Accept''"
    using k by (simp_all add: stripped_def hop_by_hop_headers_def same_key_def sample_server_def proxy_owned_def rp_hop_headers_def)
  have "connection_tokens (req_header (capped sample_server sample_request)) = []"
    by (simp add: connection_tokens_def sample_request_def sample_headers_def header_simps same_key_def)
       (simp add: header_values_def no_headers_def)
  then have "\<not> any_key (connection_tokens (req_header (capped sample_server sample_request))) ''Accept''" by simp
  moreover have "Some sample_inject = None \<or> \<not> any_key rp_hop_headers ''Authorization'' \<and> \<not> same_key ''Accept'' ''Authorization'' \<and> \<not> any_key auth_headers ''Accept''"
    using k by (simp add: rp_hop_headers_def same_key_def auth_headers_def)
  ultimately show ?thesis
    using other_headers_pass [OF sent names] by (simp add: sample_request_def)
qed

text \<open>
  The headers that the client nominates in \<open>Connection\<close> are hop-by-hop as well, but they pass: the
  director deletes \<open>Connection\<close> before the reverse proxy reads it.
\<close>

lemma nominated_header_leaks:
  assumes "any_key (connection_tokens (req_header r)) j" "\<not> stripped srv j" "\<not> any_key proxy_owned j"
    and "ihp = None \<or> \<not> any_key rp_hop_headers hn \<and> \<not> same_key j hn \<and> \<not> any_key auth_headers j"
  shows "header_lookup (req_header (outbound_request E srv r up ihp fmt hn)) j = header_lookup (req_header r) j"
  using outbound_transparent [OF assms(2,3)] assms(4) by blast

text \<open>
  C38. With \<open>--disable-x-forwarded-for\<close> the upstream gets no \<open>X-Forwarded-For\<close> value, neither the
  client's nor the peer address; without it, the peer address is appended to the client's values.
\<close>

theorem x_forwarded_for_rule:
  assumes "split_host_port (req_remote r) = Inr (ip, port)" "ihp = None \<or> \<not> any_key rp_hop_headers hn \<and> \<not> same_key ''X-Forwarded-For'' hn"
    and "\<not> stripped srv ''X-Forwarded-For''"
  shows "header_values (req_header (outbound_request E srv r up ihp fmt hn)) ''X-Forwarded-For'' =
    (if srv_disable_xff srv then []
     else (case header_lookup (req_header r) ''X-Forwarded-For'' of
             None \<Rightarrow> [ip]
           | Some [] \<Rightarrow> []
           | Some prior \<Rightarrow> [join_comma prior @ '', '' @ ip]))"
proof -
  let ?h = "keep_te (req_header r) (remove_hop_by_hop (director_headers E srv ihp fmt hn (req_header r)))"
  have d: "\<not> any_key auth_headers ''X-Forwarded-For''" "\<not> any_key rp_hop_headers ''X-Forwarded-For''"
    "\<not> same_key ''X-Forwarded-For'' ''Te''" "\<not> same_key ''X-Forwarded-For'' ''User-Agent''"
    by (simp_all add: auth_headers_def rp_hop_headers_def same_key_def)
  have "\<not> any_key rp_hop_headers hn \<or> ihp = None" using assms(2) by blast
  then have "header_lookup ?h ''X-Forwarded-For'' =
      (if srv_disable_xff srv then Some [] else header_lookup (req_header r) ''X-Forwarded-For'')"
    using assms(2,3) d connection_tokens_director [of hn ihp E srv fmt "req_header r"]
    by (auto simp: lookup_keep_te lookup_hop lookup_director lookup_strip_headers split: option.splits)
  then show ?thesis
    using assms(1) d
    by (auto simp: outbound_request_def outbound_headers_def header_values_lookup lookup_user_agent append_xff_def
        lookup_raw(1) [of ?h] hdr.put_get split: option.splits list.splits)
qed

theorem x_forwarded_for_rule_witness:
  "header_values (req_header (outbound_request sample_env sample_server sample_request sample_upstream None [] [])) ''X-Forwarded-For'' =
    (if srv_disable_xff sample_server then []
     else (case header_lookup (req_header sample_request) ''X-Forwarded-For'' of
             None \<Rightarrow> [''192.0.2.7'']
           | Some [] \<Rightarrow> []
           | Some prior \<Rightarrow> [join_comma prior @ '', '' @ ''192.0.2.7'']))"
proof (rule x_forwarded_for_rule)
  have "split_host_port ''192.0.2.7:4711'' = Inr (''192.0.2.7'', ''4711'')" by code_simp
  then show "split_host_port (req_remote sample_request) = Inr (''192.0.2.7'', ''4711'')" by (simp add: sample_request_def)
  have "canonical_key ''Cookie'' = ''Cookie''" by code_simp
  then show "\<not> stripped sample_server ''X-Forwarded-For''"
    by (simp add: stripped_def hop_by_hop_headers_def sample_server_def same_key_def)
qed simp

text \<open>
  Two headers where the reverse proxy has the last word: \<open>Te: trailers\<close> comes back although \<open>Te\<close> is
  stripped, and a credential that a seal puts into \<open>Proxy-Authorization\<close> never arrives.
\<close>

lemma te_trailers_come_back:
  assumes "values_contain_token (header_values (req_header r) ''Te'') ''trailers''"
  shows "header_lookup (req_header (outbound_request E srv r up ihp fmt hn)) ''Te'' = Some [''trailers'']"
proof -
  have "\<not> same_key ''Te'' ''X-Forwarded-For''" "\<not> same_key ''Te'' ''User-Agent''" by (simp_all add: same_key_def)
  then show ?thesis
    using assms
    by (simp add: outbound_request_def outbound_headers_def lookup_user_agent lookup_xff [where j = "''Te''"] lookup_keep_te)
qed

lemma hop_credential_is_lost:
  "header_lookup (req_header (outbound_request E srv r up (Some ih) fmt ''Proxy-Authorization'')) ''Proxy-Authorization'' = None \<and>
   validate sample_env (sample_secret\<lparr>inject_header := Some (sample_inject\<lparr>header_name := ''Proxy-Authorization''\<rparr>)\<rparr>) = None"
proof
  have "\<not> same_key ''Proxy-Authorization'' ''Te''" "\<not> same_key ''Proxy-Authorization'' ''X-Forwarded-For''"
    "\<not> same_key ''Proxy-Authorization'' ''User-Agent''" by (simp_all add: same_key_def)
  then show "header_lookup (req_header (outbound_request E srv r up (Some ih) fmt ''Proxy-Authorization'')) ''Proxy-Authorization'' = None"
    using outbound_hop_gone [of "''Proxy-Authorization''"] hop_headers_simps by (simp add: outbound_request_def)
  show "validate sample_env (sample_secret\<lparr>inject_header := Some (sample_inject\<lparr>header_name := ''Proxy-Authorization''\<rparr>)\<rparr>) = None"
    by code_simp
qed

section \<open>The outcome\<close>

text \<open>
  C14. A round trip that fails reaches the client as 403 when the egress guard refused the dial, as 413
  when the body hit its cap, and as 502 otherwise; the same status is kept for the log, and nothing
  counts as a truncated body.
\<close>

theorem upstream_failure_classified:
  assumes "round_trip E srv W (outbound_request E srv r up ihp fmt hn) = (([], Inl err), lg)"
    and "url_host (forward_target E up) \<noteq> []" "w_sent w = None"
  shows "\<exists>sw tr h. forward_to E srv W (new_status_writer w) r up ihp fmt hn = (None, sw, tr) \<and>
    sw_status sw = (case err of TDial e \<Rightarrow> if egress_refused e then 403 else 502 | TMaxBytes n \<Rightarrow> 413 | TOther x \<Rightarrow> 502) \<and>
    w_sent (sw_inner sw) = Some (sw_status sw, h)"
proof -
  have "w_sent (sw_inner (new_status_writer w)) = None" "\<not> sw_written (new_status_writer w)"
    using assms(3) by (simp_all add: new_status_writer_def)
  note st = error_handler_status [OF this, of err]
  then show ?thesis
    using forward_to_error [OF assms(2,1), of "new_status_writer w"]
    by (auto simp: map_option_eq_Some)
qed

theorem upstream_failure_classified_witness:
  "\<exists>sw tr h. forward_to sample_env (sample_server\<lparr>srv_transport := Some (\<lambda>_. ([], Inl (TMaxBytes 100)))\<rparr>) sample_world
      (new_status_writer sample_writer) sample_request sample_upstream None [] [] = (None, sw, tr) \<and>
    sw_status sw = 413 \<and> w_sent (sw_inner sw) = Some (sw_status sw, h)"
proof -
  let ?srv = "sample_server\<lparr>srv_transport := Some (\<lambda>_. ([], Inl (TMaxBytes 100)))\<rparr>"
  have rt: "round_trip sample_env ?srv sample_world q = (([], Inl (TMaxBytes 100)), [Exchange None q])" for q
    by (simp add: round_trip_def)
  have host: "url_host (forward_target sample_env sample_upstream) \<noteq> []" using sample_target by simp
  have w: "w_sent sample_writer = None" by (simp add: sample_writer_def fresh_writer_def)
  show ?thesis
    using upstream_failure_classified [OF rt host w] by (simp only: transport_error.case)
qed

text \<open>
  C15. As long as the upstream sends no informational response, the status of the log line is the status
  that the client got, on every path of \<open>forwardTo\<close>.
\<close>

theorem logged_status_is_sent:
  assumes "plain_exchanges E srv W" "w_sent w = None"
  shows "\<exists>ce sw tr h. forward_to E srv W (new_status_writer w) r up ihp fmt hn = (ce, sw, tr) \<and>
    w_sent (sw_inner sw) = Some (sw_status sw, h)"
proof -
  obtain ce sw tr where f: "forward_to E srv W (new_status_writer w) r up ihp fmt hn = (ce, sw, tr)"
    by (metis prod_cases3)
  have "sw_agrees sw \<and> w_sent (sw_inner sw) \<noteq> None"
    using forward_to_agrees [OF assms(1) sw_agrees_new [OF assms(2)], of r up ihp fmt hn] f by simp
  then show ?thesis using f by (auto simp: sw_agrees_def split: option.splits prod.splits)
qed

theorem logged_status_is_sent_witness:
  "\<exists>ce sw tr h. forward_to sample_env sample_server sample_world (new_status_writer sample_writer) sample_request
      sample_upstream None [] [] = (ce, sw, tr) \<and> w_sent (sw_inner sw) = Some (sw_status sw, h)"
  by (rule logged_status_is_sent)
    (simp_all add: plain_exchanges_def round_trip_def sample_server_def sample_response_def informational_def
      sample_writer_def fresh_writer_def)

text \<open>
  C39. With informational responses in front of the final one, the log reports the first of them: for
  every exchange that begins with one, the client gets the final status and the log line that of the
  first informational response.
\<close>

theorem informational_status_is_logged:
  assumes "round_trip E srv W (outbound_request E srv r up ihp fmt hn) = ((i # infos, Inr resp), lg)"
    and "\<forall>j \<in> set (i # infos). informational (fst j)" "\<not> informational (resp_status resp)" "resp_status resp \<noteq> 101"
    and "url_host (forward_target E up) \<noteq> []" "w_sent w = None"
  shows "\<exists>ce sw tr h. forward_to E srv W (new_status_writer w) r up ihp fmt hn = (ce, sw, tr) \<and>
    sw_status sw = fst i \<and> w_sent (sw_inner sw) = Some (resp_status resp, h)"
proof -
  let ?sw = "foldl relay_info (new_status_writer w) (i # infos)"
  have "w_sent (sw_inner ?sw) = None" "sw_written ?sw" "sw_status ?sw = fst i"
    using relay_infos_status [OF assms(2), of "new_status_writer w"] assms(6)
    by (simp_all add: new_status_writer_def del: foldl_Cons)
  then show ?thesis
    using forward_to_response [OF assms(5,4,1), of "new_status_writer w"] relay_response_status [of ?sw resp] assms(3)
    by (auto simp del: foldl_Cons)
qed

theorem informational_status_is_logged_witness:
  "\<exists>ce sw tr h. forward_to sample_env (sample_server\<lparr>srv_transport := Some (\<lambda>_. ([(103, no_headers)], Inr sample_response))\<rparr>)
      sample_world (new_status_writer sample_writer) sample_request sample_upstream None [] [] = (ce, sw, tr) \<and>
    sw_status sw = 103 \<and> w_sent (sw_inner sw) = Some (200, h)"
proof -
  let ?srv = "sample_server\<lparr>srv_transport := Some (\<lambda>_. ([(103, no_headers)], Inr sample_response))\<rparr>"
  have rt: "round_trip sample_env ?srv sample_world q = (([(103, no_headers)], Inr sample_response), [Exchange None q])" for q
    by (simp add: round_trip_def)
  have h: "\<forall>j \<in> set [(103::nat, no_headers)]. informational (fst j)" "\<not> informational (resp_status sample_response)"
    "resp_status sample_response \<noteq> 101" "url_host (forward_target sample_env sample_upstream) \<noteq> []" "w_sent sample_writer = None"
    using sample_target by (simp_all add: informational_def sample_response_def sample_writer_def fresh_writer_def)
  show ?thesis
    using informational_status_is_logged [OF rt h, of sample_request None "[]" "[]"]
    by (simp only: fst_conv sample_response_status)
qed

text \<open>
  C13. The copy loop is its reference: the client gets exactly the bytes that the body yields up to its
  end or its first error, and \<open>forwardTo\<close> returns that error, so that a cut body, and only one, is
  logged as truncated.
\<close>

theorem truncation_is_reported:
  assumes "w_accepts (sw_inner sw) = None" "\<not> informational (resp_status resp)"
  shows "fst (relay_response resp sw) = map_option CReadError (snd (body_outcome (resp_reads resp))) \<and>
    w_body (sw_inner (snd (relay_response resp sw))) = w_body (sw_inner sw) @ fst (body_outcome (resp_reads resp)) \<and>
    log_forward_outcome W ''proxied'' (fst (relay_response resp sw)) st flds =
      (let tail = flds @ [(''status'', LInt (int st)), (''dur_ms'', LInt (wd_elapsed W))] in
       case snd (body_outcome (resp_reads resp)) of
         None \<Rightarrow> [Logged (LogLine Info ''proxied'' tail)]
       | Some e \<Rightarrow> [Logged (LogLine Warn ''proxied_truncated'' (tail @ [(''error'', LError (CReadError e))]))])"
  using relay_response_outcome [OF assms]
  by (auto simp: log_forward_outcome_def Let_def split: option.split)

theorem truncation_is_reported_witness:
  "w_body (sw_inner (snd (relay_response
      \<lparr>resp_status = 200, resp_header = no_headers, resp_reads = [(''ab'', ReadOk), (''c'', ReadErr ''reset''), (''d'', ReadOk)]\<rparr>
      (new_status_writer sample_writer)))) = ''abc''"
  using truncation_is_reported [where resp = "\<lparr>resp_status = 200, resp_header = no_headers,
      resp_reads = [(''ab'', ReadOk), (''c'', ReadErr ''reset''), (''d'', ReadOk)]\<rparr>" and sw = "new_status_writer sample_writer"]
  by (simp add: new_status_writer_def sample_writer_def fresh_writer_def informational_def)

section \<open>What the log does not show\<close>

text \<open>
  C9. Neither the client nor the log can tell the sealed token: two requests that differ only in the
  sealed header, whose seals open to secrets that differ only in the token, get the same response and
  leave the same log lines, on every path of the handler, as long as the network answers the forwarded
  requests alike. The seals open alike: where one does not open, the other fails with the same error;
  the error for a control character in a token names that character, and the handler logs it.
\<close>

theorem log_hides_the_token:
  assumes "parse_sealed_header x = Inr (blob, ov)" "parse_sealed_header x' = Inr (blob', ov)"
    and "open_op E blob' key (fallback_keys srv) =
      (case open_op E blob key (fallback_keys srv) of
         Inl e \<Rightarrow> Inl e
       | Inr (s, used) \<Rightarrow> Inr (s\<lparr>inject_header := map_option (\<lambda>ih. ih\<lparr>token := t\<rparr>) (inject_header s)\<rparr>, used))"
    and "\<forall>d out out'. Exchange d out \<in> set (snd (handle_forward E srv key W w (with_seal x r))) \<and>
        Exchange d out' \<in> set (snd (handle_forward E srv key W w (with_seal x' r))) \<longrightarrow>
        fst (round_trip E srv W out) = fst (round_trip E srv W out')"
  shows "fst (handle_forward E srv key W w (with_seal x r)) = fst (handle_forward E srv key W w (with_seal x' r)) \<and>
    logged (snd (handle_forward E srv key W w (with_seal x r))) = logged (snd (handle_forward E srv key W w (with_seal x' r)))"
  using handle_forward_alike [OF assms(1,2,3) [folded with_token_def], of W w r] assms(4)
  by (simp add: answered_alike_def same_view_def)

theorem log_hides_the_token_witness:
  "logged (snd (handle_forward sample_env sample_server sample_key sample_world sample_writer (with_seal other_blob sample_request))) =
   logged (snd (handle_forward sample_env sample_server sample_key sample_world sample_writer (with_seal sample_blob sample_request))) \<and>
   token (the (inject_header other_secret)) \<noteq> token (the (inject_header sample_secret))"
proof
  have keys: "fallback_keys sample_server = []" by (simp add: fallback_keys_def sample_server_def)
  have hdr: "parse_sealed_header sample_blob = Inr (sample_blob, None)"
    using sample_sealed_header by (simp add: sample_headers_def header_simps same_key_def)
  have opened: "open_op sample_env other_blob sample_key (fallback_keys sample_server) =
      (case open_op sample_env sample_blob sample_key (fallback_keys sample_server) of
         Inl e \<Rightarrow> Inl e
       | Inr (s, used) \<Rightarrow> Inr (s\<lparr>inject_header := map_option (\<lambda>ih. ih\<lparr>token := ''other''\<rparr>) (inject_header s)\<rparr>, used))"
    using sample_opens other_opens by (simp add: keys other_secret_def)
  have alike: "\<forall>d out out'. Exchange d out \<in> set (snd (handle_forward sample_env sample_server sample_key sample_world sample_writer (with_seal sample_blob sample_request))) \<and>
        Exchange d out' \<in> set (snd (handle_forward sample_env sample_server sample_key sample_world sample_writer (with_seal other_blob sample_request))) \<longrightarrow>
        fst (round_trip sample_env sample_server sample_world out) = fst (round_trip sample_env sample_server sample_world out')"
    by (simp add: round_trip_def sample_server_def)
  show "logged (snd (handle_forward sample_env sample_server sample_key sample_world sample_writer (with_seal other_blob sample_request))) =
   logged (snd (handle_forward sample_env sample_server sample_key sample_world sample_writer (with_seal sample_blob sample_request)))"
    using log_hides_the_token [OF hdr other_sealed_header opened alike] by simp
  show "token (the (inject_header other_secret)) \<noteq> token (the (inject_header sample_secret))"
    by (simp add: other_secret_def sample_secret_def sample_inject_def)
qed

text \<open>
  The exception: where a seal that was made elsewhere holds a token with a control character, the log
  line of the refusal names the character, which is one of the token.
\<close>

lemma control_character_is_logged:
  assumes "parse_sealed_header (header_get (req_header r) HeaderSealedSecret) = Inr (blob, ov)"
    and "length (header_values (req_header r) HeaderSealedSecret) \<le> 1"
    and "open_op E blob key (fallback_keys srv) = Inl (ControlChar label c)"
  shows "handle_sealed E srv key W w r up =
    respond_error W 401 ''seal open failed'' (Some (CSeal (ControlChar label c))) (request_log_fields E r up) w"
  using assms by (simp add: handle_sealed_def fallback_keys_def Let_def)

end
