(* ===== verification/Go_Url.thy ===== *)
theory Go_Url
  imports Go_Http
begin

text \<open>
  \<open>URL.String\<close> of \<open>net/url\<close>: the escaping of the parts that the client prints into the
  \<open>X-Upstream-URL\<close> header.
\<close>

section \<open>Escaping\<close>

datatype url_part = EncodePath | EncodeHost | EncodeUser | EncodeFragment

definition alnum :: "char \<Rightarrow> bool" where
  "alnum c \<longleftrightarrow> is_lower c \<or> is_upper c \<or> is_digit c"

text \<open>\<open>shouldEscape\<close>.\<close>

definition should_escape :: "url_part \<Rightarrow> char \<Rightarrow> bool" where
  "should_escape m c =
     (if alnum c then False
      else if m = EncodeHost \<and> (c \<in> set ''!$&()*+,;=:[]<>'' \<or> byte_val c = 39 \<or> byte_val c = 34) then False
      else if c \<in> set ''-_.~'' then False
      else if c \<in> set ''$&+,/:;=?@'' then
        (case m of
           EncodePath \<Rightarrow> c = CHR ''?''
         | EncodeUser \<Rightarrow> c \<in> set ''@/?:''
         | EncodeFragment \<Rightarrow> False
         | EncodeHost \<Rightarrow> True)
      else if m = EncodeFragment \<and> c \<in> set ''!()*'' then False
      else True)"

text \<open>\<open>"0123456789ABCDEF"[n]\<close>.\<close>

definition upper_hex :: "nat \<Rightarrow> char" where
  "upper_hex n = (if n < 10 then byte_of (48 + n) else byte_of (55 + n))"

definition url_escape :: "url_part \<Rightarrow> string \<Rightarrow> string" where
  "url_escape m s =
     concat (map (\<lambda>c. if should_escape m c
                      then [CHR ''%'', upper_hex (byte_val c div 16), upper_hex (byte_val c mod 16)] else [c]) s)"

text \<open>\<open>validEncoded\<close>.\<close>

definition valid_encoded :: "url_part \<Rightarrow> string \<Rightarrow> bool" where
  "valid_encoded m s \<longleftrightarrow>
     list_all (\<lambda>c. c \<in> set ''!$&()*+,;=:@[]%'' \<or> byte_val c = 39 \<or> \<not> should_escape m c) s"

text \<open>\<open>EscapedPath\<close> and \<open>EscapedFragment\<close>: the original spelling as long as it is one of the value.\<close>

definition spelled_as :: "url_part \<Rightarrow> string \<Rightarrow> string \<Rightarrow> bool" where
  "spelled_as m raw v \<longleftrightarrow> raw \<noteq> [] \<and> valid_encoded m raw \<and> path_unescape raw = Some v"

definition escaped_path :: "url \<Rightarrow> string" where
  "escaped_path u =
     (if spelled_as EncodePath (url_raw_path u) (url_path u) then url_raw_path u
      else if url_path u = ''*'' then ''*'' else url_escape EncodePath (url_path u))"

definition escaped_fragment :: "url \<Rightarrow> string" where
  "escaped_fragment u =
     (if spelled_as EncodeFragment (url_raw_fragment u) (url_fragment u) then url_raw_fragment u
      else url_escape EncodeFragment (url_fragment u))"

definition user_string :: "string \<times> string option \<Rightarrow> string" where
  "user_string ui =
     (case ui of
        (n, None) \<Rightarrow> url_escape EncodeUser n
      | (n, Some p) \<Rightarrow> url_escape EncodeUser n @ '':'' @ url_escape EncodeUser p)"

section \<open>URL.String\<close>

definition url_authority :: "url \<Rightarrow> string" where
  "url_authority u =
     (if url_scheme u = [] \<and> url_host u = [] \<and> url_user u = None then []
      else if url_omit_host u \<and> url_host u = [] \<and> url_user u = None then []
      else (if url_host u \<noteq> [] \<or> url_path u \<noteq> [] \<or> url_user u \<noteq> None then ''//'' else []) @
           (case url_user u of None \<Rightarrow> [] | Some ui \<Rightarrow> user_string ui @ ''@'') @
           url_escape EncodeHost (url_host u))"

definition url_string :: "url \<Rightarrow> string" where
  "url_string u =
     (let scheme = (if url_scheme u = [] then [] else url_scheme u @ '':'');
          body =
            (if url_opaque u \<noteq> [] then scheme @ url_opaque u
             else
               (let buf = scheme @ url_authority u; path = escaped_path u;
                    slash = (if path \<noteq> [] \<and> hd path \<noteq> CHR ''/'' \<and> url_host u \<noteq> [] then ''/'' else []);
                    dot = (if buf @ slash = [] \<and> CHR '':'' \<in> set (takeWhile (\<lambda>c. c \<noteq> CHR ''/'') path)
                           then ''./'' else [])
                in buf @ slash @ dot @ path))
      in body @
         (if url_force_query u \<or> url_raw_query u \<noteq> [] then ''?'' @ url_raw_query u else []) @
         (if url_fragment u \<noteq> [] then ''#'' @ escaped_fragment u else []))"

section \<open>Lemmas\<close>

lemma unhex_upper_hex: "n < 16 \<Longrightarrow> unhex_digit (upper_hex n) = Some n"
proof -
  have "\<forall>m \<in> set [0..<16]. unhex_digit (upper_hex m) = Some m" by code_simp
  then show "n < 16 \<Longrightarrow> unhex_digit (upper_hex n) = Some n" by auto
qed

lemma percent_escaped: "should_escape m (CHR ''%'')"
  by (cases m) (simp_all add: should_escape_def alnum_def is_lower_def is_upper_def is_digit_def)

text \<open>Escaping is undone by decoding, for every part.\<close>

lemma unescape_escape: "path_unescape (url_escape m s) = Some s"
proof (induction s)
  case Nil
  then show ?case by (simp add: url_escape_def)
next
  case (Cons c s)
  have esc: "url_escape m (c # s) =
      (if should_escape m c then [CHR ''%'', upper_hex (byte_val c div 16), upper_hex (byte_val c mod 16)] else [c]) @ url_escape m s"
    by (simp add: url_escape_def)
  have "byte_val c div 16 < 16" using byte_val_less [of c] by (simp add: div_less_iff_less_mult)
  moreover have "byte_of (byte_val c div 16 * 16 + byte_val c mod 16) = c"
    by (simp only: div_mult_mod_eq byte_of_byte_val)
  ultimately show ?case
    using Cons percent_escaped [of m]
    by (cases "should_escape m c")
      (auto simp: esc path_unescape.simps(2) unhex_upper_hex)
qed

end
