(* ===== verification/Client.thy ===== *)
theory Client
  imports Go_Url Server_Laws
begin

text \<open>
  \<open>pkg/client/client.go\<close>: the transport of a client, its options, \<open>NewTransport\<close>, and the
  request that \<open>RoundTrip\<close> hands to the base transport; then what it takes for the proxy to
  forward that request. The base transport is an argument.
\<close>

section \<open>The transport\<close>

text \<open>The fields of \<open>tls.Config\<close> that the program sets.\<close>

record tls_config =
  tls_min_version :: "nat option"
  tls_next_protos :: "string list"
  tls_insecure_skip_verify :: bool

text \<open>The clone of the default transport, of which only the TLS configuration is ever changed.\<close>

record http_transport =
  ht_tls :: "tls_config option"

record transport =
  tr_base :: http_transport
  tr_proxy_url :: url
  tr_sealed_secret :: string
  tr_auth :: string

type_synonym client_option = "transport \<Rightarrow> transport"

definition WithSealedSecret :: "string \<Rightarrow> client_option" where
  "WithSealedSecret blob = (\<lambda>t. t\<lparr>tr_sealed_secret := blob\<rparr>)"

definition WithAuth :: "string \<Rightarrow> client_option" where
  "WithAuth tok = (\<lambda>t. t\<lparr>tr_auth := tok\<rparr>)"

definition WithProxyTLS :: "tls_config \<Rightarrow> client_option" where
  "WithProxyTLS cfg = (\<lambda>t. t\<lparr>tr_base := (tr_base t)\<lparr>ht_tls := Some cfg\<rparr>\<rparr>)"

datatype client_error = BadProxyUrl | BadProxyScheme string

definition new_transport :: "env \<Rightarrow> string \<Rightarrow> client_option list \<Rightarrow> client_error + transport" where
  "new_transport E proxy_url opts =
     (case url_parse E proxy_url of
        None \<Rightarrow> Inl BadProxyUrl
      | Some u \<Rightarrow>
          if url_scheme u \<noteq> ''http'' \<and> url_scheme u \<noteq> ''https'' then Inl (BadProxyScheme (url_scheme u))
          else Inr (foldl (\<lambda>t opt. opt t)
                 \<lparr>tr_base = \<lparr>ht_tls = None\<rparr>, tr_proxy_url = u, tr_sealed_secret = [], tr_auth = []\<rparr> opts))"

section \<open>RoundTrip\<close>

definition forward_url :: "transport \<Rightarrow> url" where
  "forward_url t = (tr_proxy_url t)\<lparr>url_path := ForwardPath, url_raw_query := [], url_fragment := []\<rparr>"

definition client_headers :: "transport \<Rightarrow> string \<Rightarrow> header \<Rightarrow> header" where
  "client_headers t upstream_url h =
     (let h1 = header_set h HeaderUpstreamURL upstream_url;
          h2 = (if tr_sealed_secret t \<noteq> [] then header_set h1 HeaderSealedSecret (tr_sealed_secret t) else h1)
      in if tr_auth t \<noteq> [] then header_set h2 HeaderAuthBearer (''Bearer '' @ tr_auth t) else h2)"

text \<open>The clone that is sent; the request of the caller is untouched.\<close>

definition client_request :: "transport \<Rightarrow> request \<Rightarrow> request" where
  "client_request t req =
     req\<lparr>req_url := forward_url t, req_host := url_host (tr_proxy_url t),
         req_header := client_headers t (url_string (req_url req)) (req_header req)\<rparr>"

definition client_round_trip :: "(http_transport \<Rightarrow> request \<Rightarrow> 'r) \<Rightarrow> transport \<Rightarrow> request \<Rightarrow> 'r" where
  "client_round_trip net t req = net (tr_base t) (client_request t req)"

section \<open>What the proxy reads\<close>

text \<open>
  A request that the base transport delivered: method, path, length and body, and the values of the
  three control headers, are those that were sent. Other headers may have been added on the way.
\<close>

definition control_headers :: "string list" where
  "control_headers = [HeaderUpstreamURL, HeaderSealedSecret, HeaderAuthBearer]"

definition delivered :: "request \<Rightarrow> request \<Rightarrow> bool" where
  "delivered sent got \<longleftrightarrow>
     req_method got = req_method sent \<and> url_path (req_url got) = url_path (req_url sent) \<and>
     req_length got = req_length sent \<and> req_body got = req_body sent \<and>
     list_all (\<lambda>k. header_values (req_header got) k = header_values (req_header sent) k) control_headers"

lemma control_keys [simp]:
  "\<not> same_key HeaderUpstreamURL HeaderSealedSecret" "\<not> same_key HeaderUpstreamURL HeaderAuthBearer"
  "\<not> same_key HeaderSealedSecret HeaderAuthBearer" "\<not> same_key HeaderSealedSecret HeaderUpstreamURL"
  by (simp_all add: same_key_def)

lemma client_header_values:
  "header_values (client_headers t u h) HeaderUpstreamURL = [u]"
  "tr_sealed_secret t \<noteq> [] \<Longrightarrow> header_values (client_headers t u h) HeaderSealedSecret = [tr_sealed_secret t]"
  "tr_auth t \<noteq> [] \<Longrightarrow> header_values (client_headers t u h) HeaderAuthBearer = [''Bearer '' @ tr_auth t]"
  by (auto simp: client_headers_def Let_def header_simps)

lemma delivered_headers:
  assumes "delivered (client_request t req) r"
  shows "header_get (req_header r) HeaderUpstreamURL = url_string (req_url req)"
    and "tr_sealed_secret t \<noteq> [] \<Longrightarrow> header_values (req_header r) HeaderSealedSecret = [tr_sealed_secret t]"
    and "tr_auth t \<noteq> [] \<Longrightarrow> header_get (req_header r) HeaderAuthBearer = ''Bearer '' @ tr_auth t"
  using assms client_header_values
  by (auto simp: delivered_def control_headers_def client_request_def header_get_def)

lemma delivered_path: "delivered (client_request t req) r \<Longrightarrow> url_path (req_url r) = ForwardPath"
  by (simp add: delivered_def client_request_def forward_url_def)

section \<open>From the client to the upstream\<close>

lemma url_string_host: "url_host u \<noteq> [] \<Longrightarrow> url_string u \<noteq> []"
  by (simp add: url_string_def url_authority_def Let_def)

lemma bearer_accepted:
  assumes "header_get (req_header r) HeaderAuthBearer = ''Bearer '' @ tok" "trim_space tok = tok"
    and "bearer_auth s = Some \<lparr>digest = hash_bearer tok\<rparr>"
  shows "check_auth srv r s = None"
  using assms by (simp add: check_auth_def extract_bearer_def verify_bearer_iff hash_bearer_def)

text \<open>The rules of a seal do not depend on the EUID that sealing adds.\<close>

lemma euid_independent [simp]:
  "validate_host E h (s\<lparr>euid := i\<rparr>) = validate_host E h s"
  "validate_path E p (s\<lparr>euid := i\<rparr>) = validate_path E p s"
  "validate_method m (s\<lparr>euid := i\<rparr>) = validate_method m s"
  "check_auth srv r (s\<lparr>euid := i\<rparr>) = check_auth srv r s"
  by (cases s; simp only: validate_host_def validate_path_def validate_method_def check_auth_def secret.simps)+

lemma processor_resolves: "validate E s = None \<Longrightarrow> \<exists>fmt hn. resolve_processor (inject_header s) None = Inr (fmt, hn)"
  by (auto simp: validate_None well_sealed_def resolve_processor_def Let_def)

text \<open>
  A sealed credential, carried by the client transport and delivered to a proxy that holds the
  private key, is admitted with the plan that injects it.
\<close>

lemma client_admitted:
  assumes seal: "seal_op E s (public_of E key) rnd boxrnd = (Inr blob, s')" "text_clean s" "blob \<noteq> []"
    and box: "\<And>m c. seal_anonymous E m (public_of E key) boxrnd = Some c \<Longrightarrow>
                open_anonymous E c (public_of E key) key = Some m"
    and t: "tr_sealed_secret t = blob" "tr_auth t = tok" "tok \<noteq> []" "trim_space tok = tok"
    and bearer: "bearer_auth s = Some \<lparr>digest = hash_bearer tok\<rparr>"
    and up: "url_host (req_url req) \<noteq> []" "url_parse E (url_string (req_url req)) = Some up" "url_host up \<noteq> []"
      "reject_non_standard_port (url_host up) = None"
    and rules: "validate_host E (url_host up) s = None" "validate_path E (url_path up) s = None"
      "validate_method (req_method req) s = None"
    and got: "delivered (client_request t req) r" "ingress_ok srv r"
  obtains fmt hn where "resolve_processor (inject_header s') None = Inr (fmt, hn)"
    "admitted E srv key r up (PlanInject s' fmt hn)"
proof -
  obtain i c where s': "s' = s\<lparr>euid := i\<rparr>" "validate E s = None" "blob = b64_encode c"
    using seal_op_InrE [OF seal(1)] by metis
  have "parse_sealed_header blob = Inr (blob, None)"
    using s'(3) seal(3) parse_plain_blob [of c] b64_encode_Nil_iff [of c] by simp
  moreover have "header_values (req_header r) HeaderSealedSecret = [blob]"
    using delivered_headers(2) [OF got(1)] t(1) seal(3) by simp
  moreover have "open_op E blob key (fallback_keys srv) = Inr (s', False)"
    by (rule open_after_seal [OF seal(1,2) box])
  moreover have "req_method r = req_method req" using got(1) by (simp add: delivered_def client_request_def)
  moreover have "header_get (req_header r) HeaderAuthBearer = ''Bearer '' @ tok"
    using delivered_headers(3) [OF got(1)] t by simp
  then have "check_auth srv r s = None" using bearer_accepted t(4) bearer by blast
  ultimately have p: "secret_allows E srv r up s'" "length (header_values (req_header r) HeaderSealedSecret) = 1"
    "parse_sealed_header (header_get (req_header r) HeaderSealedSecret) = Inr (blob, None)"
    "open_op E blob key (fallback_keys srv) = Inr (s', False)"
    using rules by (simp_all add: secret_allows_def s'(1) header_get_def)
  have "names_upstream E r up"
    using delivered_headers(1) [OF got(1)] up url_string_host by (simp add: names_upstream_def)
  moreover obtain fmt hn where f: "resolve_processor (inject_header s') None = Inr (fmt, hn)"
    using processor_resolves [of E s'] s'(1,2) by (metis validate_euid)
  ultimately have "admitted E srv key r up (PlanInject s' fmt hn)"
    using p up(4) got(2) by (auto simp: admitted_def plan_ok_def)
  then show ?thesis using that f by blast
qed

end
