(* ===== verification/TlsCert.thy ===== *)
theory TlsCert
  imports Egress Go_Ip_Parse
begin

text \<open>
  \<open>internal/proxy/tlscert.go\<close>: the self-signed development certificate, its two files, and the
  check that recognises it. The X.509 and PEM code, the random source and the clock are the
  fields of a record, the file system is the answers it gives; what is written is kept in order.
\<close>

section \<open>Paths\<close>

text \<open>\<open>filepath.Clean\<close> on the components of a path, \<open>filepath.Join\<close> of a directory and a file.\<close>

fun clean_components :: "bool \<Rightarrow> string list \<Rightarrow> string list \<Rightarrow> string list" where
  "clean_components rooted st [] = rev st"
| "clean_components rooted st (c # cs) =
     (if c = [] \<or> c = ''.'' then clean_components rooted st cs
      else if c = ''..'' then
        (case st of
           [] \<Rightarrow> clean_components rooted (if rooted then [] else [c]) cs
         | d # ds \<Rightarrow> clean_components rooted (if d = ''..'' then c # st else ds) cs)
      else clean_components rooted (c # st) cs)"

definition clean_path :: "string \<Rightarrow> string" where
  "clean_path p =
     (let rooted = prefix ''/'' p;
          q = (if rooted then ''/'' else []) @ sep_by ''/'' (clean_components rooted [] (split_byte (CHR ''/'') p))
      in if q = [] then ''.'' else q)"

definition join_path :: "string \<Rightarrow> string \<Rightarrow> string" where
  "join_path dir file = (if dir = [] then clean_path file else clean_path (dir @ ''/'' @ file))"

section \<open>The certificate library\<close>

record cert_template =
  ct_serial :: nat
  ct_common_name :: string
  ct_not_before :: int
  ct_not_after :: int
  ct_digital_signature :: bool
  ct_server_auth :: bool
  ct_basic_constraints_valid :: bool
  ct_dns_names :: "string list"
  ct_ips :: "addr list"

record cert_lib =
  cl_generate :: "(bytes \<times> bytes) option"
    \<comment> \<open>\<open>ed25519.GenerateKey\<close>: public and private key\<close>
  cl_serial :: "nat option"
    \<comment> \<open>\<open>rand.Int\<close> below 2 to the 128\<close>
  cl_now :: int
    \<comment> \<open>\<open>time.Now\<close>, in seconds\<close>
  cl_create :: "cert_template \<Rightarrow> bytes \<Rightarrow> bytes \<Rightarrow> bytes option"
    \<comment> \<open>\<open>x509.CreateCertificate\<close>, self-signed: template, public key, private key\<close>
  cl_pkcs8 :: "bytes \<Rightarrow> bytes option"
    \<comment> \<open>\<open>x509.MarshalPKCS8PrivateKey\<close>\<close>
  cl_pem_encode :: "string \<Rightarrow> bytes \<Rightarrow> bytes"
    \<comment> \<open>\<open>pem.EncodeToMemory\<close>\<close>
  cl_pem_decode :: "bytes \<Rightarrow> (string \<times> bytes) option"
    \<comment> \<open>\<open>pem.Decode\<close>: type and bytes of the first block\<close>
  cl_parse_cn :: "bytes \<Rightarrow> string option"
    \<comment> \<open>\<open>x509.ParseCertificate\<close> and the common name of its subject\<close>

text \<open>The file system: the contents that can be read, what \<open>Stat\<close> finds, and which writes succeed.\<close>

datatype fs_event = MkdirAll string nat | WriteFile string bytes nat

record file_system =
  fs_read :: "string \<Rightarrow> bytes option"
  fs_stat :: "string \<Rightarrow> bool"
  fs_allows :: "fs_event \<Rightarrow> bool"

section \<open>GenerateSelfSignedTLS\<close>

definition DevCertCommonName :: string where
  "DevCertCommonName = ''secret-proxy-dev''"

datatype tls_error =
    DevCertWithoutAllowFlag
  | CertFileMissing string
  | KeyFileMissing string
  | GenerateFailed
  | WriteFailed fs_event

text \<open>\<open>net.ParseIP\<close>: an address without a zone.\<close>

definition parse_ip :: "string \<Rightarrow> addr option" where
  "parse_ip s =
     (case parse_addr s of Some a \<Rightarrow> if addr_zone a = [] then Some a else None | None \<Rightarrow> None)"

text \<open>The loop over the extra names: addresses and DNS names, each in its order.\<close>

fun add_sans :: "string list \<Rightarrow> string list \<times> addr list \<Rightarrow> string list \<times> addr list" where
  "add_sans [] acc = acc"
| "add_sans (s # ss) (dns, ips) =
     (case parse_ip s of
        Some ip \<Rightarrow> add_sans ss (dns, ips @ [ip])
      | None \<Rightarrow> add_sans ss (dns @ [s], ips))"

definition base_sans :: "string list \<times> addr list" where
  "base_sans = ([''localhost''], [V4 (ipv4 127 0 0 1), V6 1 []])"

definition dev_template :: "cert_lib \<Rightarrow> nat \<Rightarrow> string list \<Rightarrow> cert_template" where
  "dev_template L serial extra =
     \<lparr>ct_serial = serial, ct_common_name = DevCertCommonName, ct_not_before = cl_now L - 3600,
      ct_not_after = cl_now L + 90 * 24 * 3600, ct_digital_signature = True, ct_server_auth = True,
      ct_basic_constraints_valid = True, ct_dns_names = fst (add_sans extra base_sans),
      ct_ips = snd (add_sans extra base_sans)\<rparr>"

definition generate_self_signed_tls ::
  "cert_lib \<Rightarrow> file_system \<Rightarrow> string \<Rightarrow> string list \<Rightarrow> (tls_error + string \<times> string) \<times> fs_event list" where
  "generate_self_signed_tls L F out_dir extra =
     (let dir = (if out_dir = [] then ''.'' else out_dir); mk = MkdirAll dir 493 in
      if \<not> fs_allows F mk then (Inl (WriteFailed mk), [])
      else
        (case cl_generate L of
           None \<Rightarrow> (Inl GenerateFailed, [mk])
         | Some (pub, priv) \<Rightarrow>
        (case cl_serial L of
           None \<Rightarrow> (Inl GenerateFailed, [mk])
         | Some serial \<Rightarrow>
        (case cl_create L (dev_template L serial extra) pub priv of
           None \<Rightarrow> (Inl GenerateFailed, [mk])
         | Some der \<Rightarrow>
             (let cert = join_path dir ''cert.pem''; key = join_path dir ''key.pem'';
                  wc = WriteFile cert (cl_pem_encode L ''CERTIFICATE'' der) 420 in
              if \<not> fs_allows F wc then (Inl (WriteFailed wc), [mk])
              else
                (case cl_pkcs8 L priv of
                   None \<Rightarrow> (Inl GenerateFailed, [mk, wc])
                 | Some kder \<Rightarrow>
                     (let wk = WriteFile key (cl_pem_encode L ''PRIVATE KEY'' kder) 384 in
                      if \<not> fs_allows F wk then (Inl (WriteFailed wk), [mk, wc])
                      else (Inr (cert, key), [mk, wc, wk]))))))))"

section \<open>LoadCert and IsDevCert\<close>

definition load_cert :: "file_system \<Rightarrow> string \<Rightarrow> string \<Rightarrow> tls_error + (string \<times> string)" where
  "load_cert F cert key =
     (if \<not> fs_stat F cert then Inl (CertFileMissing cert)
      else if \<not> fs_stat F key then Inl (KeyFileMissing key)
      else Inr (cert, key))"

definition is_dev_cert :: "cert_lib \<Rightarrow> file_system \<Rightarrow> string \<Rightarrow> bool" where
  "is_dev_cert L F path =
     (case fs_read F path of
        None \<Rightarrow> False
      | Some data \<Rightarrow>
          (case cl_pem_decode L data of
             None \<Rightarrow> False
           | Some (typ, der) \<Rightarrow>
               if typ \<noteq> ''CERTIFICATE'' then False
               else (case cl_parse_cn L der of None \<Rightarrow> False | Some cn \<Rightarrow> cn = DevCertCommonName)))"

section \<open>Lemmas\<close>

text \<open>Every extra name ends up in exactly one of the two lists, in the order given.\<close>

lemma add_sans_split:
  "add_sans ss (dns, ips) =
     (dns @ filter (\<lambda>s. parse_ip s = None) ss, ips @ map the (filter (\<lambda>a. a \<noteq> None) (map parse_ip ss)))"
  by (induction ss arbitrary: dns ips) (auto split: option.split)

text \<open>What a successful run wrote, and where.\<close>

lemma generate_self_signed_InrD:
  assumes "generate_self_signed_tls L F out_dir extra = (Inr (cert, key), writes)"
  obtains dir pub priv serial der kder where
    "dir = (if out_dir = [] then ''.'' else out_dir)" "cert = join_path dir ''cert.pem''" "key = join_path dir ''key.pem''"
    "cl_generate L = Some (pub, priv)" "cl_serial L = Some serial"
    "cl_create L (dev_template L serial extra) pub priv = Some der" "cl_pkcs8 L priv = Some kder"
    "writes = [MkdirAll dir 493, WriteFile cert (cl_pem_encode L ''CERTIFICATE'' der) 420,
           WriteFile key (cl_pem_encode L ''PRIVATE KEY'' kder) 384]"
    "list_all (fs_allows F) writes"
  using assms
  by (auto simp: generate_self_signed_tls_def Let_def split: if_splits option.splits)

text \<open>A failed run writes a prefix of that, and no key file.\<close>

lemma generate_self_signed_InlD:
  assumes "generate_self_signed_tls L F out_dir extra = (Inl e, writes)"
  shows "length writes \<le> 2 \<and> list_all (fs_allows F) writes"
  using assms
  by (auto simp: generate_self_signed_tls_def Let_def split: if_splits option.splits)

text \<open>The written certificate is recognised, under the laws of the PEM and X.509 code.\<close>

lemma generated_is_dev:
  assumes gen: "generate_self_signed_tls L F out_dir extra = (Inr (cert, key), writes)"
    and pem: "\<And>typ b. cl_pem_decode L (cl_pem_encode L typ b) = Some (typ, b)"
    and x509: "\<And>tmpl pub priv der. cl_create L tmpl pub priv = Some der \<Longrightarrow> cl_parse_cn L der = Some (ct_common_name tmpl)"
    and disk: "\<And>data perm. WriteFile cert data perm \<in> set writes \<Longrightarrow> fs_read F' cert = Some data"
  shows "is_dev_cert L F' cert"
proof -
  obtain dir pub priv serial der kder where g:
    "cl_create L (dev_template L serial extra) pub priv = Some der"
    "writes = [MkdirAll dir 493, WriteFile cert (cl_pem_encode L ''CERTIFICATE'' der) 420,
           WriteFile key (cl_pem_encode L ''PRIVATE KEY'' kder) 384]"
    using generate_self_signed_InrD [OF gen] by metis
  have "fs_read F' cert = Some (cl_pem_encode L ''CERTIFICATE'' der)" 
    by (rule disk [of _ 420]) (simp add: g(2))
  moreover have "cl_parse_cn L der = Some DevCertCommonName" using x509 [OF g(1)] by (simp add: dev_template_def)
  ultimately show ?thesis by (simp add: is_dev_cert_def pem)
qed

end
