(* ===== verification/Go_Flag.thy ===== *)
theory Go_Flag
  imports Go_Strings
begin

text \<open>
  What the commands use of \<open>flag\<close> and \<open>strconv\<close>: \<open>ParseInt\<close> (64 bits, base 10 or by prefix),
  \<open>ParseBool\<close>, and \<open>FlagSet.Parse\<close> with \<open>ContinueOnError\<close>. The duration parser is an argument;
  what \<open>flag\<close> itself prints is not kept.
\<close>

section \<open>strconv\<close>

text \<open>The value of a digit or letter, in bases up to 36.\<close>

definition digit_value :: "char \<Rightarrow> nat option" where
  "digit_value c =
     (if is_digit c then Some (byte_val c - 48)
      else if is_lower (lower_byte c) then Some (byte_val (lower_byte c) - 87) else None)"

fun parse_digits :: "bool \<Rightarrow> nat \<Rightarrow> nat \<Rightarrow> string \<Rightarrow> nat option" where
  "parse_digits us base acc [] = Some acc"
| "parse_digits us base acc (c # s) =
     (if c = CHR ''_'' \<and> us then parse_digits us base acc s
      else (case digit_value c of
              None \<Rightarrow> None
            | Some d \<Rightarrow> if d < base then parse_digits us base (acc * base + d) s else None))"

text \<open>The base that a prefix selects when the base argument is 0, and the rest.\<close>

definition base_prefix :: "string \<Rightarrow> nat \<times> string" where
  "base_prefix s =
     (case s of
        c # p # d # r \<Rightarrow>
          if c \<noteq> CHR ''0'' then (10, s)
          else if lower_byte p = CHR ''b'' then (2, d # r)
          else if lower_byte p = CHR ''o'' then (8, d # r)
          else if lower_byte p = CHR ''x'' then (16, d # r)
          else (8, tl s)
      | c # r \<Rightarrow> if c = CHR ''0'' then (8, r) else (10, s)
      | [] \<Rightarrow> (10, []))"

text \<open>\<open>underscoreOK\<close>: underscores only between digits, a base prefix counting as a digit.\<close>

fun underscores_separate :: "bool \<Rightarrow> char \<Rightarrow> string \<Rightarrow> bool" where
  "underscores_separate hex prev [] \<longleftrightarrow> prev \<noteq> CHR ''_''"
| "underscores_separate hex prev (c # s) \<longleftrightarrow>
     (if is_digit c \<or> hex \<and> lower_byte c \<in> set ''abcdef'' then underscores_separate hex (CHR ''0'') s
      else if c = CHR ''_'' then prev = CHR ''0'' \<and> underscores_separate hex c s
      else prev \<noteq> CHR ''_'' \<and> underscores_separate hex (CHR ''!'') s)"

definition underscore_ok :: "string \<Rightarrow> bool" where
  "underscore_ok s =
     (case s of
        c # p # r \<Rightarrow>
          if c = CHR ''0'' \<and> lower_byte p \<in> set ''box''
          then underscores_separate (lower_byte p = CHR ''x'') (CHR ''0'') r
          else underscores_separate False (CHR ''^'') s
      | _ \<Rightarrow> underscores_separate False (CHR ''^'') s)"

definition parse_uint :: "bool \<Rightarrow> string \<Rightarrow> nat option" where
  "parse_uint by_prefix s =
     (if s = [] then None
      else if by_prefix then
        (let (base, r) = base_prefix s in
         if CHR ''_'' \<in> set r \<and> \<not> underscore_ok s then None else parse_digits True base 0 r)
      else parse_digits False 10 0 s)"

text \<open>
  \<open>ParseInt\<close>: \<open>None\<close> for a malformed number as for one out of range, which the program reports in
  the same way.
\<close>

definition parse_int64 :: "bool \<Rightarrow> string \<Rightarrow> int option" where
  "parse_int64 by_prefix s =
     (let neg = (s \<noteq> [] \<and> hd s = CHR ''-'');
          r = (if s \<noteq> [] \<and> (hd s = CHR ''-'' \<or> hd s = CHR ''+'') then tl s else s)
      in (case parse_uint by_prefix r of
            None \<Rightarrow> None
          | Some n \<Rightarrow>
              if neg then (if n \<le> 2 ^ 63 then Some (- int n) else None)
              else (if n < 2 ^ 63 then Some (int n) else None)))"

definition parse_bool :: "string \<Rightarrow> bool option" where
  "parse_bool s =
     (if s \<in> {''1'', ''t'', ''T'', ''TRUE'', ''true'', ''True''} then Some True
      else if s \<in> {''0'', ''f'', ''F'', ''FALSE'', ''false'', ''False''} then Some False
      else None)"

section \<open>FlagSet.Parse\<close>

datatype flag_value = VBool bool | VString string | VInt int | VDuration int

type_synonym flag_set = "string \<Rightarrow> flag_value option"

datatype flag_error =
    FlagSyntax string
  | FlagUndefined string
  | FlagHelp
  | FlagNeedsArgument string
  | FlagInvalidValue string string

text \<open>\<open>Value.Set\<close>, by the kind of the flag.\<close>

fun flag_set_value :: "(string \<Rightarrow> int option) \<Rightarrow> flag_value \<Rightarrow> string \<Rightarrow> flag_value option" where
  "flag_set_value dur (VBool _) s = map_option VBool (parse_bool s)"
| "flag_set_value dur (VString _) s = Some (VString s)"
| "flag_set_value dur (VInt _) s = map_option VInt (parse_int64 True s)"
| "flag_set_value dur (VDuration _) s = map_option VDuration (dur s)"

definition is_bool_flag :: "flag_value \<Rightarrow> bool" where
  "is_bool_flag v \<longleftrightarrow> (case v of VBool _ \<Rightarrow> True | _ \<Rightarrow> False)"

text \<open>The name of an argument and the value behind its first equals sign, which is not in front.\<close>

definition split_flag :: "string \<Rightarrow> string \<times> string option" where
  "split_flag n =
     (case cut_byte (CHR ''='') (tl n) of
        None \<Rightarrow> (n, None)
      | Some (a, v) \<Rightarrow> (hd n # a, Some v))"

text \<open>The text that a flag is set to, and the arguments behind it; \<open>None\<close> when it is missing.\<close>

definition flag_text :: "flag_value \<Rightarrow> string option \<Rightarrow> string list \<Rightarrow> (string \<times> string list) option" where
  "flag_text old val args =
     (case val of
        Some v \<Rightarrow> Some (v, args)
      | None \<Rightarrow>
          if is_bool_flag old then Some (''true'', args)
          else (case args of v # rest \<Rightarrow> Some (v, rest) | [] \<Rightarrow> None))"

text \<open>\<open>parseOne\<close>, for an argument that is a flag.\<close>

definition flag_parse_one ::
  "(string \<Rightarrow> int option) \<Rightarrow> flag_set \<Rightarrow> string \<Rightarrow> string list \<Rightarrow> flag_error + (flag_set \<times> string list)" where
  "flag_parse_one dur fs s args =
     (let n = (if s ! 1 = CHR ''-'' then drop 2 s else drop 1 s) in
      if n = [] \<or> hd n = CHR ''-'' \<or> hd n = CHR ''='' then Inl (FlagSyntax s)
      else
        (let (name, val) = split_flag n in
         (case fs name of
            None \<Rightarrow> if name = ''help'' \<or> name = ''h'' then Inl FlagHelp else Inl (FlagUndefined name)
          | Some old \<Rightarrow>
              (case flag_text old val args of
                 None \<Rightarrow> Inl (FlagNeedsArgument name)
               | Some (v, rest) \<Rightarrow>
                   (case flag_set_value dur old v of
                      None \<Rightarrow> Inl (FlagInvalidValue name v)
                    | Some new \<Rightarrow> Inr (fs(name \<mapsto> new), rest))))))"

lemma flag_text_shorter: "flag_text old val args = Some (v, rest) \<Longrightarrow> length rest \<le> length args"
  by (auto simp: flag_text_def split: option.splits if_splits list.splits)

lemma flag_parse_one_InrD:
  assumes "flag_parse_one dur fs s args = Inr (gs, rest)"
  obtains name old new v where "fs name = Some old" "flag_set_value dur old v = Some new" "gs = fs(name \<mapsto> new)"
    "length rest \<le> length args"
  using assms flag_text_shorter
  by (auto simp: flag_parse_one_def Let_def split: if_splits prod.splits option.splits)

lemma flag_parse_one_shorter: "flag_parse_one dur fs s args = Inr (gs, rest) \<Longrightarrow> length rest < Suc (length args)"
  by (metis flag_parse_one_InrD less_Suc_eq_le)

text \<open>An argument that is not a flag, or \<open>--\<close>, ends the flags; what is left is ignored.\<close>

function flag_parse :: "(string \<Rightarrow> int option) \<Rightarrow> flag_set \<Rightarrow> string list \<Rightarrow> flag_error + flag_set" where
  "flag_parse dur fs [] = Inr fs"
| "flag_parse dur fs (s # args) =
     (if length s < 2 \<or> hd s \<noteq> CHR ''-'' \<or> s = ''--'' then Inr fs
      else (case flag_parse_one dur fs s args of
              Inl e \<Rightarrow> Inl e
            | Inr (gs, rest) \<Rightarrow> flag_parse dur gs rest))"
  by pat_completeness auto

termination flag_parse
  by (relation "measure (\<lambda>(_, _, args). length args)") (auto dest: flag_parse_one_shorter)

text \<open>Reading a parsed flag. A declared flag has a value of its kind.\<close>

definition flag_string :: "flag_set \<Rightarrow> string \<Rightarrow> string" where
  "flag_string fs n = (case fs n of Some (VString s) \<Rightarrow> s | _ \<Rightarrow> [])"

definition flag_bool :: "flag_set \<Rightarrow> string \<Rightarrow> bool" where
  "flag_bool fs n = (case fs n of Some (VBool b) \<Rightarrow> b | _ \<Rightarrow> False)"

definition flag_int :: "flag_set \<Rightarrow> string \<Rightarrow> int" where
  "flag_int fs n = (case fs n of Some (VInt i) \<Rightarrow> i | Some (VDuration i) \<Rightarrow> i | _ \<Rightarrow> 0)"

section \<open>Lemmas\<close>

lemma parse_int64_bounds: "parse_int64 p s = Some i \<Longrightarrow> - (2 ^ 63) \<le> i \<and> i < 2 ^ 63"
  by (auto simp: parse_int64_def Let_def split: option.splits if_splits)

text \<open>Parsing keeps the declared flags and the kind of each.\<close>

fun same_kind :: "flag_value \<Rightarrow> flag_value \<Rightarrow> bool" where
  "same_kind (VBool _) (VBool _) \<longleftrightarrow> True"
| "same_kind (VString _) (VString _) \<longleftrightarrow> True"
| "same_kind (VInt _) (VInt _) \<longleftrightarrow> True"
| "same_kind (VDuration _) (VDuration _) \<longleftrightarrow> True"
| "same_kind _ _ \<longleftrightarrow> False"

lemma same_kind_refl [simp]: "same_kind v v"
  by (cases v) auto

lemma same_kind_trans: "same_kind u v \<Longrightarrow> same_kind v w \<Longrightarrow> same_kind u w"
  by (cases u; cases v; cases w) auto

lemma flag_set_value_kind: "flag_set_value dur v s = Some w \<Longrightarrow> same_kind v w"
  by (cases v) auto

definition flags_typed :: "flag_set \<Rightarrow> flag_set \<Rightarrow> bool" where
  "flags_typed fs gs \<longleftrightarrow>
     (\<forall>n. case fs n of None \<Rightarrow> gs n = None | Some v \<Rightarrow> (\<exists>w. gs n = Some w \<and> same_kind v w))"

lemma flags_typedD: "flags_typed fs gs \<Longrightarrow> fs n = Some v \<Longrightarrow> \<exists>w. gs n = Some w \<and> same_kind v w"
  unfolding flags_typed_def by (drule spec [of _ n]) simp

lemma flags_typed_refl [simp]: "flags_typed fs fs"
  by (simp add: flags_typed_def split: option.split)

lemma flags_typed_trans:
  assumes "flags_typed fs gs" "flags_typed gs hs"
  shows "flags_typed fs hs"
  unfolding flags_typed_def
proof
  fix n
  show "case fs n of None \<Rightarrow> hs n = None | Some v \<Rightarrow> \<exists>w. hs n = Some w \<and> same_kind v w"
    using assms [unfolded flags_typed_def, THEN spec, of n] same_kind_trans
    by (cases "fs n"; cases "gs n") auto
qed

lemma flag_set_typed: "fs n = Some v \<Longrightarrow> flag_set_value dur v s = Some w \<Longrightarrow> flags_typed fs (fs(n \<mapsto> w))"
  by (auto simp: flags_typed_def flag_set_value_kind split: option.split)

lemma flag_parse_typed: "flag_parse dur fs args = Inr gs \<Longrightarrow> flags_typed fs gs"
proof (induction dur fs args rule: flag_parse.induct)
  case (2 dur fs s args)
  show ?case
  proof (cases "flag_parse_one dur fs s args")
    case (Inr p)
    obtain hs rest where p: "p = (hs, rest)" by (cases p)
    have "flags_typed fs hs" using flag_parse_one_InrD [OF Inr [unfolded p]] flag_set_typed by metis
    then show ?thesis using 2 Inr p flags_typed_trans by (auto split: if_splits)
  qed (use 2 in \<open>auto split: if_splits\<close>)
qed simp

lemma flags_typed_string: "flags_typed fs gs \<Longrightarrow> fs n = Some (VString s) \<Longrightarrow> gs n = Some (VString (flag_string gs n))"
  using flags_typedD [of fs gs n "VString s"] by (auto simp: flag_string_def elim: same_kind.elims)

lemma flags_typed_bool: "flags_typed fs gs \<Longrightarrow> fs n = Some (VBool b) \<Longrightarrow> gs n = Some (VBool (flag_bool gs n))"
  using flags_typedD [of fs gs n "VBool b"] by (auto simp: flag_bool_def elim: same_kind.elims)

end
