(* ===== verification/Serve_Config.thy ===== *)
theory Serve_Config
  imports Client TlsCert Go_Flag Seal_Envelope
begin

text \<open>
  \<open>cmd/secret-proxy/main.go\<close>, up to the running server: reading the process environment, loading
  keys, the configuration of \<open>serve\<close> with every refusal in the order of the code, and the warnings
  it logs at startup. What a command reads of the outside is one record.
\<close>

section \<open>The process\<close>

text \<open>\<open>Getenv\<close> yields the empty string for a variable that is not set.\<close>

record sys =
  sys_getenv :: "string \<Rightarrow> string"
  sys_fs :: file_system
  sys_hostname :: "string option"
  sys_duration :: "string \<Rightarrow> int option"
    \<comment> \<open>\<open>time.ParseDuration\<close>, in nanoseconds\<close>
  sys_certs :: cert_lib
  sys_random :: "bytes option"
    \<comment> \<open>what the random source yields for a key or an EUID\<close>
  sys_box_random :: bytes
  sys_hop :: "string \<Rightarrow> (nat \<times> string option \<times> bytes option) option"
    \<comment> \<open>one GET request: status, absolute \<open>Location\<close>, body (\<open>None\<close> where it cannot be read)\<close>
  sys_net :: "http_transport \<Rightarrow> request \<Rightarrow> (string \<times> (bytes \<times> read_err) list) option"
    \<comment> \<open>\<open>http.Transport.RoundTrip\<close>: status line and the reads of the body\<close>
  sys_do :: "(request \<Rightarrow> (string \<times> (bytes \<times> read_err) list) option) \<Rightarrow> request \<Rightarrow> (string \<times> (bytes \<times> read_err) list) option"
    \<comment> \<open>\<open>http.Client.Do\<close> over a round tripper\<close>
  sys_stdin :: "bytes option"

datatype cli_error =
    Usage string
  | BadFlags flag_error
  | BadEnv string string
  | KeyError seal_error
  | PreviousKeyFile seal_error
  | PreviousKey seal_error
  | TlsError tls_error
  | BadAllowlist ingress_error
  | SealFailed seal_error
  | OpenFailed seal_error
  | ProcessorUnsupported string
  | KeyUrl
  | KeyUrlNotHttps
  | KeyUrlStatus nat
  | FetchFailed
  | NoPublicKey
  | NoPrivateKey
  | ReadFailed
  | ClientFailed client_error
  | ServerFailed string

section \<open>Environment helpers\<close>

definition env_or :: "sys \<Rightarrow> string \<Rightarrow> string \<Rightarrow> string" where
  "env_or S key fallback = (let v = sys_getenv S key in if v \<noteq> [] then v else fallback)"

definition env_bool :: "env \<Rightarrow> sys \<Rightarrow> string \<Rightarrow> bool" where
  "env_bool E S key =
     (let v = to_lower (uni_lower E) (sys_getenv S key) in v = ''1'' \<or> v = ''true'' \<or> v = ''yes'')"

definition env_int64 :: "sys \<Rightarrow> string \<Rightarrow> int \<Rightarrow> cli_error + int" where
  "env_int64 S key fallback =
     (let v = trim_space (sys_getenv S key) in
      if v = [] then Inr fallback
      else (case parse_int64 False v of None \<Rightarrow> Inl (BadEnv key v) | Some n \<Rightarrow> Inr n))"

definition env_duration :: "sys \<Rightarrow> string \<Rightarrow> int \<Rightarrow> cli_error + int" where
  "env_duration S key fallback =
     (let v = trim_space (sys_getenv S key) in
      if v = [] then Inr fallback
      else (case sys_duration S v of None \<Rightarrow> Inl (BadEnv key v) | Some d \<Rightarrow> Inr d))"

fun keep_parts :: "string list \<Rightarrow> string list" where
  "keep_parts [] = []"
| "keep_parts (p # ps) =
     (let q = trim_space p in if q \<noteq> [] then q # keep_parts ps else keep_parts ps)"

definition split_csv :: "string \<Rightarrow> string list" where
  "split_csv s = (if s = [] then [] else keep_parts (split_byte (CHR '','') s))"

definition default_listen_addr :: "sys \<Rightarrow> string" where
  "default_listen_addr S =
     (if sys_getenv S ''SECRET_PROXY_LISTEN_ADDRESS'' \<noteq> [] then sys_getenv S ''SECRET_PROXY_LISTEN_ADDRESS''
      else if sys_getenv S ''PORT'' \<noteq> [] then '':'' @ sys_getenv S ''PORT''
      else '':8443'')"

definition new_logger :: "env \<Rightarrow> string \<Rightarrow> level" where
  "new_logger E lvl =
     (let l = to_lower (uni_lower E) lvl in
      if l = ''debug'' then Debug else if l = ''warn'' then Warn else if l = ''error'' then Error else Info)"

section \<open>Keys\<close>

definition load_private_key :: "sys \<Rightarrow> string \<Rightarrow> string \<Rightarrow> cli_error + private_key" where
  "load_private_key S file hex =
     (if file \<noteq> [] then map_error KeyError (read_private_key_file (fs_read (sys_fs S)) file)
      else if hex \<noteq> [] then map_error KeyError (parse_private_key hex)
      else Inl NoPrivateKey)"

definition load_previous_private_key :: "sys \<Rightarrow> string \<Rightarrow> string \<Rightarrow> cli_error + private_key option" where
  "load_previous_private_key S file hex =
     (if file \<noteq> [] then
        and_then (map_error PreviousKeyFile (read_private_key_file (fs_read (sys_fs S)) file)) (\<lambda>k. Inr (Some k))
      else if hex \<noteq> [] then
        and_then (map_error PreviousKey (parse_private_key hex)) (\<lambda>k. Inr (Some k))
      else Inr None)"

text \<open>
  \<open>http.Client.Get\<close> without a \<open>CheckRedirect\<close>: it follows redirects, in any scheme, and gives up
  instead of sending an eleventh request.
\<close>

fun http_get :: "nat \<Rightarrow> sys \<Rightarrow> string \<Rightarrow> (nat \<times> bytes option) option" where
  "http_get n S u =
     (case sys_hop S u of
        None \<Rightarrow> None
      | Some (status, location, body) \<Rightarrow>
          if status \<in> {301, 302, 303, 307, 308} \<and> location \<noteq> None
          then (case n of 0 \<Rightarrow> None | Suc m \<Rightarrow> http_get m S (the location))
          else Some (status, body))"

definition max_redirects :: nat where
  "max_redirects = 9"

definition fetch_public_key :: "env \<Rightarrow> sys \<Rightarrow> string \<Rightarrow> cli_error + string" where
  "fetch_public_key E S url_text =
     (case url_parse E url_text of
        None \<Rightarrow> Inl KeyUrl
      | Some u \<Rightarrow>
          if url_scheme u \<noteq> ''https'' then Inl KeyUrlNotHttps
          else (case http_get max_redirects S url_text of
                  None \<Rightarrow> Inl FetchFailed
                | Some (status, body) \<Rightarrow>
                    if status \<noteq> 200 then Inl (KeyUrlStatus status)
                    else (case body of None \<Rightarrow> Inl ReadFailed | Some raw \<Rightarrow> Inr (trim_space raw))))"

definition resolve_public_key :: "env \<Rightarrow> sys \<Rightarrow> string \<Rightarrow> string \<Rightarrow> cli_error + public_key" where
  "resolve_public_key E S hex_flag url_text =
     (let hex = (if hex_flag = [] then sys_getenv S ''SECRET_PROXY_PUBLIC_KEY'' else hex_flag) in
      and_then (if hex = [] \<and> url_text \<noteq> [] then fetch_public_key E S url_text else Inr hex)
        (\<lambda>h. if h = [] then Inl NoPublicKey else map_error KeyError (parse_public_key h)))"

section \<open>The configuration of serve\<close>

definition serve_flags :: "env \<Rightarrow> sys \<Rightarrow> int \<Rightarrow> int \<Rightarrow> int \<Rightarrow> flag_set" where
  "serve_flags E S max_bytes read_timeout idle_timeout = map_of
     [(''private-key-file'', VString (sys_getenv S ''SECRET_PROXY_PRIVATE_KEY_FILE'')),
      (''private-key'', VString (sys_getenv S ''SECRET_PROXY_PRIVATE_KEY'')),
      (''previous-private-key-file'', VString (sys_getenv S ''SECRET_PROXY_PREVIOUS_PRIVATE_KEY_FILE'')),
      (''previous-private-key'', VString (sys_getenv S ''SECRET_PROXY_PREVIOUS_PRIVATE_KEY'')),
      (''tls-cert-file'', VString (sys_getenv S ''SECRET_PROXY_TLS_CERT_FILE'')),
      (''tls-key-file'', VString (sys_getenv S ''SECRET_PROXY_TLS_KEY_FILE'')),
      (''listen-address'', VString (default_listen_addr S)),
      (''log-level'', VString (env_or S ''SECRET_PROXY_LOG_LEVEL'' ''info'')),
      (''allow-no-auth'', VBool (env_bool E S ''SECRET_PROXY_ALLOW_NO_AUTH'')),
      (''allow-passthrough'', VBool (env_bool E S ''SECRET_PROXY_ALLOW_PASSTHROUGH'')),
      (''filtered-headers'', VString (sys_getenv S ''SECRET_PROXY_FILTERED_HEADERS'')),
      (''disable-x-forwarded-for'', VBool (env_bool E S ''SECRET_PROXY_DISABLE_X_FORWARDED_FOR'')),
      (''self-hostnames'', VString (sys_getenv S ''SECRET_PROXY_SELF_HOSTNAMES'')),
      (''trust-tls-terminator'', VBool (env_bool E S ''SECRET_PROXY_TRUST_TLS_TERMINATOR'')),
      (''allowed-client-cidrs'', VString (sys_getenv S ''SECRET_PROXY_ALLOWED_CLIENT_CIDRS'')),
      (''trust-cloudflare-headers'', VBool (env_bool E S ''SECRET_PROXY_TRUST_CLOUDFLARE_HEADERS'')),
      (''max-request-bytes'', VInt max_bytes),
      (''read-timeout'', VDuration read_timeout),
      (''idle-timeout'', VDuration idle_timeout),
      (''allow-dev-cert'', VBool (env_bool E S ''SECRET_PROXY_ALLOW_DEV_CERT''))]"

definition second :: int where
  "second = 1000000000"

text \<open>The flags: the defaults that can fail are read before the arguments are parsed.\<close>

definition parse_serve_flags :: "env \<Rightarrow> sys \<Rightarrow> string list \<Rightarrow> cli_error + flag_set" where
  "parse_serve_flags E S args =
     and_then (env_int64 S ''SECRET_PROXY_MAX_REQUEST_BYTES'' (10 * 1024 * 1024)) (\<lambda>mb.
     and_then (env_duration S ''SECRET_PROXY_READ_TIMEOUT'' (60 * second)) (\<lambda>rt.
     and_then (env_duration S ''SECRET_PROXY_IDLE_TIMEOUT'' (120 * second)) (\<lambda>it.
     map_error BadFlags (flag_parse (sys_duration S) (serve_flags E S mb rt it) args))))"

text \<open>The certificate that is served; nothing behind a TLS terminator.\<close>

definition check_tls :: "sys \<Rightarrow> flag_set \<Rightarrow> cli_error + (string \<times> string) option" where
  "check_tls S fl =
     (if flag_bool fl ''trust-tls-terminator'' then Inr None
      else
        (let cert = flag_string fl ''tls-cert-file''; key = flag_string fl ''tls-key-file'' in
         if cert = [] \<or> key = [] then Inl (Usage ''--tls-cert-file and --tls-key-file are required'')
         else and_then (map_error TlsError (load_cert (sys_fs S) cert key)) (\<lambda>_.
           if is_dev_cert (sys_certs S) (sys_fs S) cert \<and> \<not> flag_bool fl ''allow-dev-cert''
           then Inl (TlsError DevCertWithoutAllowFlag)
           else Inr (Some (cert, key)))))"

definition make_server :: "env \<Rightarrow> sys \<Rightarrow> flag_set \<Rightarrow> private_key \<Rightarrow> private_key option \<Rightarrow> prefix list \<Rightarrow> server" where
  "make_server E S fl priv prev cidrs =
     \<lparr>srv_private = Some priv, srv_previous = prev,
      srv_allow_no_auth = flag_bool fl ''allow-no-auth'', srv_allow_passthrough = flag_bool fl ''allow-passthrough'',
      srv_filtered = split_csv (flag_string fl ''filtered-headers''),
      srv_disable_xff = flag_bool fl ''disable-x-forwarded-for'',
      srv_self = auto_self_hostnames E (sys_hostname S) (split_csv (flag_string fl ''self-hostnames'')),
      srv_cidrs = cidrs, srv_trust_tls = flag_bool fl ''trust-tls-terminator'',
      srv_trust_cf = flag_bool fl ''trust-cloudflare-headers'', srv_max_bytes = flag_int fl ''max-request-bytes'',
      srv_transport = None, srv_disable_guard = False\<rparr>"

text \<open>The fields of \<open>http.Server\<close> that are set; an empty map of next protocols turns HTTP/2 off.\<close>

record http_server =
  hs_addr :: string
  hs_read_header_timeout :: int
  hs_read_timeout :: int
  hs_idle_timeout :: int
  hs_tls :: "tls_config option"
  hs_no_http2 :: bool

definition make_http_server :: "flag_set \<Rightarrow> http_server" where
  "make_http_server fl =
     (let tls = \<not> flag_bool fl ''trust-tls-terminator'' in
      \<lparr>hs_addr = flag_string fl ''listen-address'', hs_read_header_timeout = 10 * second,
       hs_read_timeout = flag_int fl ''read-timeout'', hs_idle_timeout = flag_int fl ''idle-timeout'',
       hs_tls = (if tls then Some \<lparr>tls_min_version = Some 772, tls_next_protos = [''http/1.1''],
                                   tls_insecure_skip_verify = False\<rparr> else None),
       hs_no_http2 = tls\<rparr>)"

definition startup_warnings :: "flag_set \<Rightarrow> prefix list \<Rightarrow> cause log_line list" where
  "startup_warnings fl cidrs =
     (if flag_bool fl ''allow-passthrough'' then
        (if cidrs = [] then
           [LogLine Warn ''startup_passthrough_open''
              [(''allow_passthrough'', LBool True), (''allowed_client_cidrs'', LString ''(empty)''),
               (''reason'', LString ''passthrough+no-ingress-allowlist = generic egress relay; verify this is intentional'')]]
         else
           [LogLine Warn ''startup_passthrough_enabled''
              [(''allow_passthrough'', LBool True), (''allowed_client_cidrs_count'', LInt (int (length cidrs)))]])
      else []) @
     (if flag_bool fl ''allow-no-auth'' then
        [LogLine Warn ''startup_no_auth_enabled''
           [(''allow_no_auth'', LBool True),
            (''reason'', LString ''no_auth seals are accepted; verify this is intentional'')]]
      else [])"

record serving =
  su_server :: server
  su_http :: http_server
  su_cert :: "(string \<times> string) option"
  su_level :: level
  su_warnings :: "cause log_line list"

text \<open>\<open>runServe\<close>, up to the point where the listener is started.\<close>

definition serve_setup :: "env \<Rightarrow> sys \<Rightarrow> string list \<Rightarrow> cli_error + serving" where
  "serve_setup E S args =
     and_then (parse_serve_flags E S args) (\<lambda>fl.
     if flag_bool fl ''trust-cloudflare-headers'' \<and> \<not> flag_bool fl ''trust-tls-terminator''
     then Inl (Usage ''--trust-cloudflare-headers requires --trust-tls-terminator'')
     else
       and_then (load_private_key S (flag_string fl ''private-key-file'') (flag_string fl ''private-key'')) (\<lambda>priv.
       and_then (load_previous_private_key S (flag_string fl ''previous-private-key-file'') (flag_string fl ''previous-private-key'')) (\<lambda>prev.
       and_then (check_tls S fl) (\<lambda>cert.
       and_then (map_error BadAllowlist (parse_cidrs (split_csv (flag_string fl ''allowed-client-cidrs'')))) (\<lambda>cidrs.
       Inr \<lparr>su_server = make_server E S fl priv prev cidrs, su_http = make_http_server fl, su_cert = cert,
            su_level = new_logger E (flag_string fl ''log-level''), su_warnings = startup_warnings fl cidrs\<rparr>)))))"

section \<open>Lemmas\<close>

lemma keep_parts_filter: "keep_parts ps = filter (\<lambda>q. q \<noteq> []) (map trim_space ps)"
  by (induction ps) (auto simp: Let_def)

lemma load_private_key_length: "load_private_key S file hex = Inr k \<Longrightarrow> length k = KeyLen"
  using parse_private_key_length
  by (auto simp: load_private_key_def read_private_key_file_def split: if_splits option.splits)

lemma load_previous_private_key_length: "load_previous_private_key S file hex = Inr (Some k) \<Longrightarrow> length k = KeyLen"
  using parse_private_key_length
  by (auto simp: load_previous_private_key_def read_private_key_file_def and_then_Inr split: if_splits option.splits)

lemma http_get_chain:
  "http_get n S u = Some (st, body) \<Longrightarrow> \<exists>v loc. sys_hop S v = Some (st, loc, body)"
  by (induction n S u rule: http_get.induct) (auto split: option.splits if_splits nat.splits prod.splits)

text \<open>The addresses a fetch goes through: each redirects to the next.\<close>

definition redirects :: "sys \<Rightarrow> string \<Rightarrow> string \<Rightarrow> bool" where
  "redirects S u v \<longleftrightarrow> (\<exists>status body. status \<in> {301, 302, 303, 307, 308} \<and> sys_hop S u = Some (status, Some v, body))"

lemma http_get_ok:
  "http_get n S u = Some (200, body) \<longleftrightarrow>
    (\<exists>k v loc. k \<le> n \<and> (redirects S ^^ k) u v \<and> sys_hop S v = Some (200, loc, body))"
proof (induction n arbitrary: u)
  case 0
  show ?case by (auto split: option.split)
next
  case (Suc n)
  show ?case
  proof (cases "\<exists>v. redirects S u v")
    case True
    then obtain v st b where v: "sys_hop S u = Some (st, Some v, b)" "st \<in> {301, 302, 303, 307, 308}"
      by (auto simp: redirects_def)
    then have only: "redirects S u w \<longleftrightarrow> w = v" for w by (auto simp: redirects_def)
    have "http_get (Suc n) S u = http_get n S v" using v by simp
    moreover have "(\<exists>k w loc. k \<le> Suc n \<and> (redirects S ^^ k) u w \<and> sys_hop S w = Some (200, loc, body)) \<longleftrightarrow>
        (\<exists>k w loc. k \<le> n \<and> (redirects S ^^ k) v w \<and> sys_hop S w = Some (200, loc, body))" (is "?l \<longleftrightarrow> ?r")
    proof
      assume ?l
      then obtain k w loc where k: "k \<le> Suc n" "(redirects S ^^ k) u w" "sys_hop S w = Some (200, loc, body)" by blast
      then obtain m where m: "k = Suc m" using v by (cases k) auto
      then have "(redirects S ^^ m) v w" using k(2) only by (metis relpowp_Suc_D2)
      then show ?r using k(1,3) m by auto
    next
      assume ?r
      then show ?l using only [of v] by (metis Suc_le_mono relpowp_Suc_I2)
    qed
    ultimately show ?thesis using Suc.IH [of v] by simp
  next
    case False
    then have "http_get (Suc n) S u = (case sys_hop S u of None \<Rightarrow> None | Some (st, _, b) \<Rightarrow> Some (st, b))"
      by (auto simp: redirects_def split: option.split)
    moreover have "(redirects S ^^ k) u v \<longleftrightarrow> k = 0 \<and> v = u" for k v
    proof (cases k)
      case (Suc m)
      then show ?thesis using False relpowp_Suc_D2 [of m "redirects S" u v] by (auto simp del: relpowp.simps)
    qed auto
    ultimately show ?thesis by (auto split: option.split)
  qed
qed

text \<open>What a configuration that starts is made of.\<close>

lemma serve_setup_InrD:
  assumes "serve_setup E S args = Inr su"
  obtains fl priv prev cidrs where
    "parse_serve_flags E S args = Inr fl"
    "flag_bool fl ''trust-cloudflare-headers'' \<longrightarrow> flag_bool fl ''trust-tls-terminator''"
    "load_private_key S (flag_string fl ''private-key-file'') (flag_string fl ''private-key'') = Inr priv"
    "load_previous_private_key S (flag_string fl ''previous-private-key-file'') (flag_string fl ''previous-private-key'') = Inr prev"
    "check_tls S fl = Inr (su_cert su)"
    "parse_cidrs (split_csv (flag_string fl ''allowed-client-cidrs'')) = Inr cidrs"
    "su_server su = make_server E S fl priv prev cidrs" "su_http su = make_http_server fl"
    "su_level su = new_logger E (flag_string fl ''log-level'')" "su_warnings su = startup_warnings fl cidrs"
  using assms by (auto simp: serve_setup_def and_then_Inr split: if_splits)

text \<open>The servers that \<open>serve\<close> starts: whole keys, proper prefixes, the guard on, the own names known.\<close>

definition proper_server :: "server \<Rightarrow> bool" where
  "proper_server srv \<longleftrightarrow>
     (\<exists>k. srv_private srv = Some k \<and> length k = KeyLen) \<and>
     (case srv_previous srv of None \<Rightarrow> True | Some k \<Rightarrow> length k = KeyLen) \<and>
     list_all proper_prefix (srv_cidrs srv) \<and> (srv_trust_cf srv \<longrightarrow> srv_trust_tls srv) \<and>
     srv_transport srv = None \<and> \<not> srv_disable_guard srv \<and>
     {''localhost'', ''127.0.0.1'', ''::1''} \<subseteq> srv_self srv"

lemma auto_self_has: "{''localhost'', ''127.0.0.1'', ''::1''} \<subseteq> auto_self_hostnames E hn extra"
  by (auto simp: auto_self_hostnames_def add_self_hostnames_set)

lemma serve_setup_proper:
  assumes "serve_setup E S args = Inr su"
  shows "proper_server (su_server su)"
proof -
  obtain fl priv prev cidrs where *: "flag_bool fl ''trust-cloudflare-headers'' \<longrightarrow> flag_bool fl ''trust-tls-terminator''"
    "length priv = KeyLen"
    "load_previous_private_key S (flag_string fl ''previous-private-key-file'') (flag_string fl ''previous-private-key'') = Inr prev"
    "parse_cidrs (split_csv (flag_string fl ''allowed-client-cidrs'')) = Inr cidrs"
    "su_server su = make_server E S fl priv prev cidrs"
    using serve_setup_InrD [OF assms] load_private_key_length by metis
  then show ?thesis
    using load_previous_private_key_length parse_cidrs_proper [OF *(4)] auto_self_has
    by (auto simp: proper_server_def make_server_def list_all_iff split: option.splits)
qed

text \<open>TLS is off exactly behind a terminator; otherwise both files are there, and no dev certificate.\<close>

lemma check_tls_InrD:
  assumes "check_tls S fl = Inr c"
  shows "if flag_bool fl ''trust-tls-terminator'' then c = None
         else \<exists>cert key. c = Some (cert, key) \<and> fs_stat (sys_fs S) cert \<and> fs_stat (sys_fs S) key \<and>
                (is_dev_cert (sys_certs S) (sys_fs S) cert \<longrightarrow> flag_bool fl ''allow-dev-cert'')"
  using assms
  by (auto simp: check_tls_def load_cert_def and_then_Inr Let_def split: if_splits)

end
