(* ===== verification/Cli.thy ===== *)
theory Cli
  imports Serve_Config
begin

text \<open>
  The commands of \<open>cmd/secret-proxy/main.go\<close> and their dispatch. A command yields an error or
  none, and what it printed in order; \<open>main\<close> turns that into an exit code. Running the server is an
  argument here; its life cycle is modelled in \<open>Lifecycle\<close>.
\<close>

datatype printed = Stdout string | Stderr string | StderrError cli_error

type_synonym command_result = "cli_error option \<times> printed list"

text \<open>The result of a fallible command.\<close>

definition finish :: "cli_error + printed list \<Rightarrow> command_result" where
  "finish r = (case r of Inl e \<Rightarrow> (Some e, []) | Inr out \<Rightarrow> (None, out))"

section \<open>seal\<close>

definition seal_flags :: flag_set where
  "seal_flags = map_of
     [(''token'', VString []), (''auth-bearer'', VString []), (''no-auth'', VBool False),
      (''allow-host'', VString []), (''allow-host-pattern'', VString []),
      (''allow-path-prefix'', VString []), (''allow-path-pattern'', VString []),
      (''allow-method'', VString []), (''processor'', VString ''inject-header''),
      (''format'', VString []), (''header-name'', VString []), (''allowed-format'', VString []),
      (''allowed-header-name'', VString []), (''public-key'', VString []),
      (''public-key-url'', VString []), (''name'', VString []), (''euid'', VString [])]"

definition seal_secret :: "flag_set \<Rightarrow> secret" where
  "seal_secret fl =
     \<lparr>bearer_auth = None, no_auth = None,
      inject_header = Some \<lparr>token = flag_string fl ''token'', format = flag_string fl ''format'',
                            header_name = flag_string fl ''header-name'',
                            allowed_formats = split_csv (flag_string fl ''allowed-format''),
                            allowed_header_names = split_csv (flag_string fl ''allowed-header-name'')\<rparr>,
      allowed_hosts = split_csv (flag_string fl ''allow-host''),
      allowed_host_pattern = flag_string fl ''allow-host-pattern'',
      allowed_path_prefixes = split_csv (flag_string fl ''allow-path-prefix''),
      allowed_path_pattern = flag_string fl ''allow-path-pattern'',
      allowed_methods = split_csv (flag_string fl ''allow-method''),
      name = flag_string fl ''name'', euid = flag_string fl ''euid''\<rparr>"

text \<open>The switch over the two ways to authenticate.\<close>

definition seal_auth :: "flag_set \<Rightarrow> secret \<Rightarrow> cli_error + secret" where
  "seal_auth fl s =
     (if flag_bool fl ''no-auth'' then Inr (s\<lparr>no_auth := Some ()\<rparr>)
      else if flag_string fl ''auth-bearer'' \<noteq> [] then
        Inr (s\<lparr>bearer_auth := Some \<lparr>digest = hash_bearer (flag_string fl ''auth-bearer'')\<rparr>\<rparr>)
      else Inl (Usage ''provide --auth-bearer or --no-auth''))"

definition check_seal_flags :: "flag_set \<Rightarrow> cli_error + unit" where
  "check_seal_flags fl =
     (if flag_string fl ''token'' = [] then Inl (Usage ''--token required'')
      else if flag_string fl ''processor'' \<noteq> ''inject-header'' then
        Inl (ProcessorUnsupported (flag_string fl ''processor''))
      else if flag_string fl ''auth-bearer'' \<noteq> [] \<and> flag_bool fl ''no-auth'' then
        Inl (Usage ''--auth-bearer and --no-auth are mutually exclusive'')
      else Inr ())"

definition seal_report :: "secret \<Rightarrow> string \<Rightarrow> printed list" where
  "seal_report s blob =
     Stderr (''euid: '' @ euid s @ newline) #
     (if name s \<noteq> [] then [Stderr (''name: '' @ name s @ newline)] else []) @
     [Stdout (blob @ newline)]"

text \<open>The call of \<open>Seal\<close>, which fills in the EUID of the struct, and the report on it.\<close>

definition seal_and_report :: "env \<Rightarrow> sys \<Rightarrow> secret \<Rightarrow> public_key \<Rightarrow> seal_error + printed list" where
  "seal_and_report E S s pub =
     (case seal_op E s pub (sys_random S) (sys_box_random S) of
        (Inl e, _) \<Rightarrow> Inl e
      | (Inr blob, s') \<Rightarrow> Inr (seal_report s' blob))"

definition run_seal :: "env \<Rightarrow> sys \<Rightarrow> string list \<Rightarrow> command_result" where
  "run_seal E S args =
     finish (
       and_then (map_error BadFlags (flag_parse (sys_duration S) seal_flags args)) (\<lambda>fl.
       and_then (check_seal_flags fl) (\<lambda>_.
       and_then (resolve_public_key E S (flag_string fl ''public-key'') (flag_string fl ''public-key-url'')) (\<lambda>pub.
       and_then (seal_auth fl (seal_secret fl)) (\<lambda>s.
       map_error SealFailed (seal_and_report E S s pub))))))"

section \<open>unseal\<close>

text \<open>\<open>json.MarshalIndent(v, "", "  ")\<close>: members and elements on lines of their own.\<close>

definition indent_line :: "nat \<Rightarrow> string" where
  "indent_line d = newline @ replicate (2 * d) (CHR '' '')"

fun print_indented :: "nat \<Rightarrow> json \<Rightarrow> string" where
  "print_indented d (JArr vs) =
     (if vs = [] then ''[]''
      else ''['' @ indent_line (Suc d) @ sep_by ('','' @ indent_line (Suc d)) (map (print_indented (Suc d)) vs) @
           indent_line d @ '']'')"
| "print_indented d (JObj ms) =
     (if ms = [] then ''{}''
      else ''{'' @ indent_line (Suc d) @
           sep_by ('','' @ indent_line (Suc d))
             (map (\<lambda>m. print_string (fst m) @ '': '' @ print_indented (Suc d) (snd m)) ms) @
           indent_line d @ ''}'')"
| "print_indented d v = print_json v"

definition unseal_flags :: "sys \<Rightarrow> flag_set" where
  "unseal_flags S = map_of
     [(''token'', VString []),
      (''private-key-file'', VString (sys_getenv S ''SECRET_PROXY_PRIVATE_KEY_FILE'')),
      (''private-key'', VString (sys_getenv S ''SECRET_PROXY_PRIVATE_KEY''))]"

definition unseal_blob :: "sys \<Rightarrow> string \<Rightarrow> cli_error + string" where
  "unseal_blob S tok =
     (if trim_space tok = [] then
        (case sys_stdin S of None \<Rightarrow> Inl ReadFailed | Some raw \<Rightarrow> Inr (trim_space raw))
      else Inr (trim_space tok))"

definition run_unseal :: "env \<Rightarrow> sys \<Rightarrow> string list \<Rightarrow> command_result" where
  "run_unseal E S args =
     finish (
       and_then (map_error BadFlags (flag_parse (sys_duration S) (unseal_flags S) args)) (\<lambda>fl.
       and_then (load_private_key S (flag_string fl ''private-key-file'') (flag_string fl ''private-key'')) (\<lambda>priv.
       and_then (unseal_blob S (flag_string fl ''token'')) (\<lambda>blob.
       and_then (map_error OpenFailed (open_op E blob priv [])) (\<lambda>(s, _).
       Inr [Stdout (print_indented 0 (JObj (secret_members s)) @ newline)])))))"

section \<open>request\<close>

definition request_flags :: flag_set where
  "request_flags = map_of
     [(''proxy-url'', VString ''https://localhost:8443''), (''url'', VString []), (''method'', VString ''GET''),
      (''body'', VString []), (''proxy-insecure'', VBool False)]"

text \<open>
  \<open>http.NewRequest\<close>: the method must be a token, the empty one means GET; an empty port is cut off.
\<close>

definition remove_empty_port :: "string \<Rightarrow> string" where
  "remove_empty_port h = (if suffix '':'' h then butlast h else h)"

definition new_request :: "env \<Rightarrow> string \<Rightarrow> string \<Rightarrow> string \<Rightarrow> request option" where
  "new_request E meth url_text body =
     (let m = (if meth = [] then ''GET'' else meth) in
      if \<not> list_all token_byte m then None
      else (case url_parse E url_text of
              None \<Rightarrow> None
            | Some u0 \<Rightarrow>
                let u = u0\<lparr>url_host := remove_empty_port (url_host u0)\<rparr> in
                Some \<lparr>req_method = m, req_url = u, req_host = url_host u, req_header = no_headers, req_remote = [],
                      req_length = int (length body), req_body = body, req_body_end = BodyEOF\<rparr>))"

text \<open>\<open>io.Copy\<close> of the body to the output: what was read, and whether it ended in an error.\<close>

fun copy_out :: "(bytes \<times> read_err) list \<Rightarrow> bytes \<times> bool" where
  "copy_out [] = ([], False)"
| "copy_out ((p, e) # rs) =
     (case e of
        ReadOk \<Rightarrow> (p @ fst (copy_out rs), snd (copy_out rs))
      | ReadEOF \<Rightarrow> (p, False)
      | ReadErr _ \<Rightarrow> (p, True))"

definition request_options :: "sys \<Rightarrow> flag_set \<Rightarrow> client_option list" where
  "request_options S fl =
     [WithSealedSecret (sys_getenv S ''SEALED_SECRET''), WithAuth (sys_getenv S ''AUTH_TOKEN'')] @
     (if flag_bool fl ''proxy-insecure''
      then [WithProxyTLS \<lparr>tls_min_version = None, tls_next_protos = [], tls_insecure_skip_verify = True\<rparr>] else [])"

definition run_request :: "env \<Rightarrow> sys \<Rightarrow> string list \<Rightarrow> command_result" where
  "run_request E S args =
     (case flag_parse (sys_duration S) request_flags args of
        Inl e \<Rightarrow> (Some (BadFlags e), [])
      | Inr fl \<Rightarrow>
          if flag_string fl ''url'' = [] then (Some (Usage ''--url required''), [])
          else
            (case new_transport E (flag_string fl ''proxy-url'') (request_options S fl) of
               Inl e \<Rightarrow> (Some (ClientFailed e), [])
             | Inr t \<Rightarrow>
            (case new_request E (flag_string fl ''method'') (flag_string fl ''url'') (flag_string fl ''body'') of
               None \<Rightarrow> (Some (Usage ''http.NewRequest''), [])
             | Some req \<Rightarrow>
            (case sys_do S (client_round_trip (sys_net S) t) req of
               None \<Rightarrow> (Some FetchFailed, [])
             | Some (status, reads) \<Rightarrow>
                 (let (body, failed) = copy_out reads
                  in (if failed then Some ReadFailed else None,
                      [Stdout (''status: '' @ status @ newline), Stdout body]))))))"

section \<open>gen-tls-cert, gen-keypair\<close>

definition gen_tls_cert_flags :: flag_set where
  "gen_tls_cert_flags = map_of [(''out-dir'', VString ''.''), (''san'', VString [])]"

text \<open>The files that were written stay, also when the command fails.\<close>

definition run_gen_tls_cert :: "sys \<Rightarrow> string list \<Rightarrow> command_result \<times> fs_event list" where
  "run_gen_tls_cert S args =
     (case flag_parse (sys_duration S) gen_tls_cert_flags args of
        Inl e \<Rightarrow> ((Some (BadFlags e), []), [])
      | Inr fl \<Rightarrow>
          (case generate_self_signed_tls (sys_certs S) (sys_fs S) (flag_string fl ''out-dir'')
                  (split_csv (flag_string fl ''san'')) of
             (Inl e, fs) \<Rightarrow> ((Some (TlsError e), []), fs)
           | (Inr (cert, key), fs) \<Rightarrow>
               ((None, [Stdout (''cert: '' @ cert @ newline), Stdout (''key: '' @ key @ newline)]), fs)))"

definition run_gen_keypair :: "env \<Rightarrow> sys \<Rightarrow> string list \<Rightarrow> command_result" where
  "run_gen_keypair E S args =
     finish (
       and_then (map_error BadFlags (flag_parse (sys_duration S) (\<lambda>_. None) args)) (\<lambda>_.
       and_then (map_error KeyError (generate_keypair E (sys_random S))) (\<lambda>(pub, priv).
       Inr [Stdout (''private: '' @ key_hex priv @ newline @ ''public: '' @ key_hex pub @ newline)])))"

section \<open>main\<close>

definition usage :: printed where
  "usage = Stderr (
     ''usage: secret-proxy <subcommand> [flags]'' @ newline @ newline @
     ''Subcommands:'' @ newline @
     ''  serve         Run the HTTPS forward proxy daemon.'' @ newline @
     ''  seal          Seal a credential against the proxy public key.'' @ newline @
     ''  unseal        Decrypt and pretty-print a sealed secret (debug).'' @ newline @
     ''  request       One-shot test request through the proxy.'' @ newline @
     ''  gen-tls-cert  Generate a self-signed TLS cert + key (dev only).'' @ newline @
     ''  gen-keypair   Generate a Curve25519 keypair and print hex private + public.'' @ newline)"

text \<open>The subcommand, \<open>None\<close> for a name that is none. \<open>serve\<close> runs the server it set up.\<close>

definition dispatch ::
  "env \<Rightarrow> sys \<Rightarrow> (serving \<Rightarrow> cli_error option \<times> printed list) \<Rightarrow> string \<Rightarrow> string list \<Rightarrow> command_result option" where
  "dispatch E S run cmd args =
     (if cmd = ''serve'' then
        Some (case serve_setup E S args of Inl e \<Rightarrow> (Some e, []) | Inr su \<Rightarrow> run su)
      else if cmd = ''seal'' then Some (run_seal E S args)
      else if cmd = ''unseal'' then Some (run_unseal E S args)
      else if cmd = ''request'' then Some (run_request E S args)
      else if cmd = ''gen-tls-cert'' then Some (fst (run_gen_tls_cert S args))
      else if cmd = ''gen-keypair'' then Some (run_gen_keypair E S args)
      else None)"

text \<open>The exit code and the output; \<open>argv\<close> is \<open>os.Args\<close>.\<close>

definition main_run ::
  "env \<Rightarrow> sys \<Rightarrow> (serving \<Rightarrow> cli_error option \<times> printed list) \<Rightarrow> string list \<Rightarrow> nat \<times> printed list" where
  "main_run E S run argv =
     (case argv of
        _ # cmd # args \<Rightarrow>
          if cmd \<in> {''-h'', ''--help'', ''help''} then (0, [usage])
          else (case dispatch E S run cmd args of
                  None \<Rightarrow> (2, [Stderr (go_sprintf E (''unknown subcommand %q'' @ newline) cmd), usage])
                | Some (None, out) \<Rightarrow> (0, out)
                | Some (Some e, out) \<Rightarrow> (1, out @ [StderrError e]))
      | _ \<Rightarrow> (2, [usage]))"

section \<open>Lemmas\<close>

lemma finish_simps [simp]: "finish (Inl e) = (Some e, [])" "finish (Inr out) = (None, out)"
  by (simp_all add: finish_def)

text \<open>What a successful \<open>seal\<close> did.\<close>

lemma run_seal_ok:
  assumes "run_seal E S args = (None, out)"
  obtains fl pub s blob s' where
    "flag_parse (sys_duration S) seal_flags args = Inr fl" "check_seal_flags fl = Inr ()"
    "resolve_public_key E S (flag_string fl ''public-key'') (flag_string fl ''public-key-url'') = Inr pub"
    "seal_auth fl (seal_secret fl) = Inr s"
    "seal_op E s pub (sys_random S) (sys_box_random S) = (Inr blob, s')" "out = seal_report s' blob"
proof -
  have fin: "finish r = (None, out) \<longleftrightarrow> r = Inr out" for r by (cases r) auto
  have rep: "seal_and_report E S s pub = Inr out \<longleftrightarrow>
      (\<exists>blob s'. seal_op E s pub (sys_random S) (sys_box_random S) = (Inr blob, s') \<and> out = seal_report s' blob)" for s pub
    by (auto simp: seal_and_report_def split: prod.split sum.split)
  show ?thesis
    using assms that by (auto simp: run_seal_def fin and_then_Inr rep)
qed

text \<open>The public key that seals is one that the key parser accepts.\<close>

lemma resolve_public_key_InrD:
  assumes "resolve_public_key E S hex url_text = Inr pub"
  obtains h where "parse_public_key h = Inr pub"
    "h = (if hex \<noteq> [] then hex else sys_getenv S ''SECRET_PROXY_PUBLIC_KEY'') \<or>
     hex = [] \<and> sys_getenv S ''SECRET_PROXY_PUBLIC_KEY'' = [] \<and> fetch_public_key E S url_text = Inr h"
  using assms
  by (auto simp: resolve_public_key_def and_then_Inr Let_def split: if_splits)

lemma fetch_public_key_InrD:
  assumes "fetch_public_key E S url_text = Inr h"
  shows "\<exists>u raw. url_parse E url_text = Some u \<and> url_scheme u = ''https'' \<and>
    http_get max_redirects S url_text = Some (200, Some raw) \<and> h = trim_space raw"
  using assms
  by (auto simp: fetch_public_key_def split: option.splits if_splits)

text \<open>The transport of \<open>request\<close> carries what the environment holds, over http or https.\<close>

lemma request_transport:
  assumes "new_transport E u (request_options S fl) = Inr t"
  shows "tr_sealed_secret t = sys_getenv S ''SEALED_SECRET'' \<and> tr_auth t = sys_getenv S ''AUTH_TOKEN'' \<and>
    url_parse E u = Some (tr_proxy_url t) \<and> url_scheme (tr_proxy_url t) \<in> {''http'', ''https''} \<and>
    (ht_tls (tr_base t) = None) = (\<not> flag_bool fl ''proxy-insecure'')"
  using assms
  by (auto simp: new_transport_def request_options_def WithSealedSecret_def WithAuth_def WithProxyTLS_def
      split: option.splits if_splits)

text \<open>The exit code tells success, failure of a command, and misuse apart.\<close>

lemma main_run_code: "fst (main_run E S run argv) \<in> {0, 1, 2}"
  by (auto simp: main_run_def split: list.split option.split prod.split)

end
