(* ===== verification/Lifecycle.thy ===== *)
theory Lifecycle
  imports Cli
begin

text \<open>
  The life cycle of \<open>runServe\<close> in \<open>cmd/secret-proxy/main.go\<close>: the main goroutine that waits for a
  signal or the listener, the listener goroutine with its buffered channel, the shutdown and the
  drain, as a step relation with a clock. A step is one channel operation, one return of \<open>Shutdown\<close>, one
  event from outside, or a tick of the clock while the main goroutine is blocked.
\<close>

section \<open>What the daemon says when it listens and when it stops\<close>

definition listening_line :: "serving \<Rightarrow> cause log_line" where
  "listening_line su =
     LogLine Info ''listening''
       [(''addr'', LString (hs_addr (su_http su))),
        (''tls'', LString (if srv_trust_tls (su_server su) then ''behind-terminator'' else ''1.3'')),
        (''passthrough'', LBool (srv_allow_passthrough (su_server su)))]"

definition shutdown_line :: "cause log_line" where
  "shutdown_line = LogLine Info ''shutting down'' []"

text \<open>The log of a run that was stopped, as far as its level lets it through.\<close>

definition serve_log :: "serving \<Rightarrow> bool \<Rightarrow> cause log_line list" where
  "serve_log su stopped =
     emitted (su_level su) (su_warnings su @ [listening_line su] @ (if stopped then [shutdown_line] else []))"

section \<open>States and steps\<close>

text \<open>What \<open>ListenAndServe\<close> returns: \<open>http.ErrServerClosed\<close>, or a real error.\<close>

datatype listen_result = ServerClosed | ListenFailed string

text \<open>Times are nanoseconds, as a \<open>time.Duration\<close> counts them.\<close>

definition second :: nat where
  "second = 1000000000"

definition shutdown_timeout :: nat where
  "shutdown_timeout = 5 * second"

definition drain_wait :: nat where
  "drain_wait = 5 * second"

datatype place =
    Selecting
  | ShuttingDown nat               \<comment> \<open>in \<open>Shutdown\<close>, with the deadline of its context\<close>
  | Draining "string option" nat   \<comment> \<open>with the error of \<open>Shutdown\<close> and the time the timer fires\<close>
  | Returned "string option"       \<comment> \<open>the error of \<open>runServe\<close>\<close>

record run_state =
  rs_place :: place
  rs_clock :: nat
  rs_signalled :: bool
  rs_signal_time :: nat
  rs_closing :: bool                        \<comment> \<open>\<open>Shutdown\<close> was called\<close>
  rs_idle :: bool                           \<comment> \<open>the last connection is idle, so \<open>Shutdown\<close> has nothing to wait for\<close>
  rs_listener :: "listen_result option"     \<comment> \<open>what the listener goroutine returned, if it did\<close>
  rs_chan :: "listen_result option"         \<comment> \<open>the channel, which buffers one value\<close>
  rs_timed_out :: bool                      \<comment> \<open>the drain ended by its timer\<close>

definition initial :: run_state where
  "initial = \<lparr>rs_place = Selecting, rs_clock = 0, rs_signalled = False, rs_signal_time = 0,
              rs_closing = False, rs_idle = False, rs_listener = None, rs_chan = None, rs_timed_out = False\<rparr>"

definition listen_error :: "listen_result \<Rightarrow> string option \<Rightarrow> string option" where
  "listen_error r otherwise = (case r of ServerClosed \<Rightarrow> otherwise | ListenFailed e \<Rightarrow> Some e)"

text \<open>
  The steps of the main goroutine. \<open>Shutdown\<close> returns when the last connection is idle, with the error
  of closing the listeners if there is one, or at the deadline of its context, with the context's error;
  while neither has come it blocks.
\<close>

inductive main_step :: "run_state \<Rightarrow> run_state \<Rightarrow> bool" where
  select_signal: "rs_place s = Selecting \<Longrightarrow> rs_signalled s \<Longrightarrow>
     main_step s (s\<lparr>rs_place := ShuttingDown (rs_clock s + shutdown_timeout), rs_closing := True\<rparr>)"
| select_listener: "rs_place s = Selecting \<Longrightarrow> rs_chan s = Some r \<Longrightarrow>
     main_step s (s\<lparr>rs_place := Returned (listen_error r None), rs_chan := None\<rparr>)"
| shutdown_idle: "rs_place s = ShuttingDown d \<Longrightarrow> rs_idle s \<Longrightarrow>
     main_step s (s\<lparr>rs_place := Draining err (rs_clock s + drain_wait)\<rparr>)"
| shutdown_deadline: "rs_place s = ShuttingDown d \<Longrightarrow> d \<le> rs_clock s \<Longrightarrow>
     main_step s (s\<lparr>rs_place := Draining (Some ''context deadline exceeded'') (rs_clock s + drain_wait)\<rparr>)"
| drain_listener: "rs_place s = Draining err t \<Longrightarrow> rs_chan s = Some r \<Longrightarrow>
     main_step s (s\<lparr>rs_place := Returned (listen_error r err), rs_chan := None\<rparr>)"
| drain_timeout: "rs_place s = Draining err t \<Longrightarrow> t \<le> rs_clock s \<Longrightarrow>
     main_step s (s\<lparr>rs_place := Returned err, rs_timed_out := True\<rparr>)"

inductive_cases main_stepE: "main_step s s'"

text \<open>
  A step of the program: one of the main goroutine, or an event from outside. The clock goes on only
  while the main goroutine is blocked, in a \<open>select\<close> or in \<open>Shutdown\<close>: its own steps take no time.
\<close>

inductive step :: "run_state \<Rightarrow> run_state \<Rightarrow> bool" where
  main: "main_step s s' \<Longrightarrow> step s s'"
| signal: "\<not> rs_signalled s \<Longrightarrow> step s (s\<lparr>rs_signalled := True, rs_signal_time := rs_clock s\<rparr>)"
| listener_fails: "rs_listener s = None \<Longrightarrow>
     step s (s\<lparr>rs_listener := Some (ListenFailed e), rs_chan := Some (ListenFailed e)\<rparr>)"
| listener_closes: "rs_listener s = None \<Longrightarrow> rs_closing s \<Longrightarrow>
     step s (s\<lparr>rs_listener := Some ServerClosed, rs_chan := Some ServerClosed\<rparr>)"
| connections_idle: "rs_closing s \<Longrightarrow> \<not> rs_idle s \<Longrightarrow> step s (s\<lparr>rs_idle := True\<rparr>)"
| tick: "(\<And>res. rs_place s \<noteq> Returned res) \<Longrightarrow> (\<nexists>s'. main_step s s') \<Longrightarrow> step s (s\<lparr>rs_clock := rs_clock s + 1\<rparr>)"

text \<open>Where the main goroutine is blocked: exactly what it waits for has not come.\<close>

fun blocked :: "place \<Rightarrow> run_state \<Rightarrow> bool" where
  "blocked Selecting s \<longleftrightarrow> \<not> rs_signalled s \<and> rs_chan s = None"
| "blocked (ShuttingDown d) s \<longleftrightarrow> \<not> rs_idle s \<and> rs_clock s < d"
| "blocked (Draining _ t) s \<longleftrightarrow> rs_chan s = None \<and> rs_clock s < t"
| "blocked (Returned _) s \<longleftrightarrow> True"

lemma blocked_iff: "(\<nexists>s'. main_step s s') \<longleftrightarrow> blocked (rs_place s) s"
proof (cases "rs_place s")
  case Selecting
  then show ?thesis
    by (cases "rs_chan s") (auto intro: main_step.intros elim!: main_stepE)
next
  case (ShuttingDown d)
  then show ?thesis
  proof (cases "rs_idle s \<or> d \<le> rs_clock s")
    case True
    then have "\<exists>s'. main_step s s'"
      using shutdown_idle [OF ShuttingDown] shutdown_deadline [OF ShuttingDown] by blast
    then show ?thesis using True ShuttingDown by auto
  qed (use ShuttingDown in \<open>auto elim!: main_stepE\<close>)
next
  case (Draining err t)
  then show ?thesis
  proof (cases "rs_chan s \<noteq> None \<or> t \<le> rs_clock s")
    case True
    then have "\<exists>s'. main_step s s'"
      using drain_listener [OF Draining] drain_timeout [OF Draining] by blast
    then show ?thesis using True Draining by auto
  qed (use Draining in \<open>auto elim!: main_stepE\<close>)
next
  case (Returned res)
  then show ?thesis by (auto elim!: main_stepE)
qed

definition reachable :: "run_state \<Rightarrow> bool" where
  "reachable s \<longleftrightarrow> step\<^sup>*\<^sup>* initial s"

lemma reachable_start: "reachable initial"
  by (simp add: reachable_def)

lemma reachable_more: "reachable s \<Longrightarrow> step s s' \<Longrightarrow> reachable s'"
  by (simp add: reachable_def)

section \<open>The invariant\<close>

fun settled :: "bool \<Rightarrow> listen_result \<Rightarrow> string option \<Rightarrow> bool" where
  "settled closing ServerClosed res \<longleftrightarrow> closing"
| "settled closing (ListenFailed e) res \<longleftrightarrow> res = Some e"

fun place_inv :: "place \<Rightarrow> run_state \<Rightarrow> bool" where
  "place_inv Selecting s \<longleftrightarrow> \<not> rs_closing s \<and> \<not> rs_timed_out s \<and> rs_chan s = rs_listener s"
| "place_inv (ShuttingDown _) s \<longleftrightarrow> rs_closing s \<and> \<not> rs_timed_out s \<and> rs_chan s = rs_listener s"
| "place_inv (Draining _ _) s \<longleftrightarrow> rs_closing s \<and> \<not> rs_timed_out s \<and> rs_chan s = rs_listener s"
| "place_inv (Returned res) s \<longleftrightarrow>
     (if rs_timed_out s then rs_closing s
      else (\<exists>r. rs_listener s = Some r \<and> rs_chan s = None \<and> settled (rs_closing s) r res))"

text \<open>How much time can have passed since the signal.\<close>

definition stop_bound :: nat where
  "stop_bound = shutdown_timeout + drain_wait"

fun time_inv :: "place \<Rightarrow> nat \<Rightarrow> nat \<Rightarrow> bool" where
  "time_inv Selecting since now \<longleftrightarrow> now = since"
| "time_inv (ShuttingDown d) since now \<longleftrightarrow> d = since + shutdown_timeout \<and> now \<le> d"
| "time_inv (Draining _ t) since now \<longleftrightarrow> now \<le> t \<and> t \<le> since + stop_bound"
| "time_inv (Returned _) since now \<longleftrightarrow> now \<le> since + stop_bound"

definition run_inv :: "run_state \<Rightarrow> bool" where
  "run_inv s \<longleftrightarrow>
     (rs_listener s = Some ServerClosed \<longrightarrow> rs_closing s) \<and> (rs_closing s \<longrightarrow> rs_signalled s) \<and>
     place_inv (rs_place s) s \<and> rs_signal_time s \<le> rs_clock s \<and>
     (rs_signalled s \<longrightarrow> time_inv (rs_place s) (rs_signal_time s) (rs_clock s))"

lemma run_inv_initial: "run_inv initial"
  by (simp add: run_inv_def initial_def)

lemma settled_error: "(r = ServerClosed \<longrightarrow> closing) \<Longrightarrow> settled closing r (listen_error r err)"
  by (cases r) (simp_all add: listen_error_def)

lemma place_inv_listens:
  "place_inv p s \<Longrightarrow> rs_listener s = None \<Longrightarrow> place_inv p (s\<lparr>rs_listener := Some r, rs_chan := Some r\<rparr>)"
  by (cases p) (auto split: if_splits)

lemma place_inv_signal: "place_inv p (s\<lparr>rs_signalled := b, rs_signal_time := t\<rparr>) \<longleftrightarrow> place_inv p s"
  by (cases p) auto

lemma place_inv_clock: "place_inv p (s\<lparr>rs_clock := t\<rparr>) \<longleftrightarrow> place_inv p s"
  by (cases p) auto

lemma place_inv_idle: "place_inv p (s\<lparr>rs_idle := b\<rparr>) \<longleftrightarrow> place_inv p s"
  by (cases p) auto

lemma unsignalled_place:
  "run_inv s \<Longrightarrow> \<not> rs_signalled s \<Longrightarrow> rs_place s = Selecting \<or> (\<exists>res. rs_place s = Returned res)"
  by (cases "rs_place s") (auto simp: run_inv_def)

lemma tick_time:
  "blocked p s \<Longrightarrow> rs_signalled s \<Longrightarrow> (\<And>res. p \<noteq> Returned res) \<Longrightarrow> time_inv p since (rs_clock s) \<Longrightarrow>
    time_inv p since (rs_clock s + 1)"
  by (cases p) auto

lemma run_inv_main: "main_step s s' \<Longrightarrow> run_inv s \<Longrightarrow> run_inv s'"
proof (induction rule: main_step.induct)
  case (select_listener s r)
  then have "rs_listener s = Some r" "r \<noteq> ServerClosed" by (auto simp: run_inv_def)
  then show ?case using select_listener settled_error [of r] by (simp add: run_inv_def stop_bound_def)
next
  case (drain_listener s err t r)
  then have "rs_listener s = Some r" by (simp add: run_inv_def)
  then show ?case using drain_listener settled_error [of r] by (auto simp: run_inv_def)
qed (auto simp: run_inv_def stop_bound_def)

lemma run_inv_step: "step s s' \<Longrightarrow> run_inv s \<Longrightarrow> run_inv s'"
proof (induction rule: step.induct)
  case (main s s')
  then show ?case by (rule run_inv_main)
next
  case (signal s)
  then show ?case using unsignalled_place [of s] by (auto simp: run_inv_def place_inv_signal simp del: place_inv.simps)
next
  case (listener_fails s e)
  then show ?case using place_inv_listens by (simp add: run_inv_def)
next
  case (listener_closes s)
  then show ?case using place_inv_listens by (simp add: run_inv_def)
next
  case (connections_idle s)
  then show ?case by (simp add: run_inv_def place_inv_idle)
next
  case (tick s)
  then have "blocked (rs_place s) s" using blocked_iff [of s] by simp
  then show ?case using tick tick_time [of "rs_place s" s "rs_signal_time s"] by (auto simp: run_inv_def place_inv_clock)
qed

section \<open>The specification\<close>

text \<open>What an operator sees of the daemon.\<close>

datatype phase = Serving | Stopping | Exited "string option"

inductive spec_step :: "phase \<Rightarrow> phase \<Rightarrow> bool" where
  crash: "spec_step Serving (Exited (Some e))"
| stop: "spec_step Serving Stopping"
| stopped: "spec_step Stopping (Exited res)"

inductive_simps spec_step_simps [simp]:
  "spec_step Serving p" "spec_step Stopping p" "spec_step (Exited r) p"

definition phase_of :: "run_state \<Rightarrow> phase" where
  "phase_of s =
     (case rs_place s of
        Selecting \<Rightarrow> Serving | ShuttingDown _ \<Rightarrow> Stopping | Draining _ _ \<Rightarrow> Stopping | Returned res \<Rightarrow> Exited res)"

lemma phase_of_main: "main_step s s' \<Longrightarrow> run_inv s \<Longrightarrow> phase_of s' = phase_of s \<or> spec_step (phase_of s) (phase_of s')"
proof (induction rule: main_step.induct)
  case (select_listener s r)
  then have "r \<noteq> ServerClosed" by (auto simp: run_inv_def)
  then show ?case using select_listener by (cases r) (simp_all add: phase_of_def listen_error_def)
qed (simp_all add: phase_of_def)

lemma phase_of_step: "step s s' \<Longrightarrow> run_inv s \<Longrightarrow> phase_of s' = phase_of s \<or> spec_step (phase_of s) (phase_of s')"
  by (induction rule: step.induct) (use phase_of_main in \<open>simp_all add: phase_of_def\<close>)

section \<open>Termination\<close>

text \<open>
  Serving takes as long as it takes. From the moment a signal or a listener result is there, every step
  lowers a rank: the time that is left, the place of the main goroutine, and the events still to come.
\<close>

definition stirred :: "run_state \<Rightarrow> bool" where
  "stirred s \<longleftrightarrow> rs_signalled s \<or> rs_listener s \<noteq> None"

definition place_rank :: "place \<Rightarrow> nat" where
  "place_rank p = (case p of Selecting \<Rightarrow> 3 | ShuttingDown _ \<Rightarrow> 2 | Draining _ _ \<Rightarrow> 1 | Returned _ \<Rightarrow> 0)"

definition time_left :: "run_state \<Rightarrow> nat" where
  "time_left s = (if rs_signalled s then rs_signal_time s + stop_bound - rs_clock s else stop_bound + 1)"

definition run_rank :: "run_state \<Rightarrow> nat" where
  "run_rank s =
     time_left s + place_rank (rs_place s) +
     (if rs_listener s = None then 1 else 0) + (if rs_idle s then 0 else 1)"

lemma stirred_step: "step s s' \<Longrightarrow> stirred s \<Longrightarrow> stirred s'"
  by (induction rule: step.induct) (auto simp: stirred_def elim!: main_stepE)

lemma main_rank: "main_step s s' \<Longrightarrow> run_rank s' < run_rank s"
  by (induction rule: main_step.induct) (simp_all add: run_rank_def place_rank_def time_left_def)

lemma tick_rank:
  assumes "run_inv s" "stirred s" "\<And>res. rs_place s \<noteq> Returned res" "blocked (rs_place s) s"
  shows "run_rank (s\<lparr>rs_clock := rs_clock s + 1\<rparr>) < run_rank s"
proof -
  have sig: "rs_signalled s"
  proof (rule ccontr)
    assume no: "\<not> rs_signalled s"
    then have "rs_place s = Selecting" using unsignalled_place assms(1,3) by blast
    then show False using assms(1,2,4) no by (simp add: run_inv_def stirred_def)
  qed
  then have "rs_clock s < rs_signal_time s + stop_bound"
    using assms(1,3,4) by (cases "rs_place s") (auto simp: run_inv_def stop_bound_def)
  then show ?thesis using sig by (simp add: run_rank_def time_left_def)
qed

lemma step_rank: "step s s' \<Longrightarrow> run_inv s \<Longrightarrow> stirred s \<Longrightarrow> run_rank s' < run_rank s"
proof (induction rule: step.induct)
  case (main s s')
  then show ?case using main_rank by blast
next
  case (tick s)
  then show ?case using tick_rank blocked_iff by blast
qed (simp_all add: run_rank_def time_left_def)

lemma run_rank_start:
  assumes "run_inv s" "stirred s"
  shows "run_rank s \<le> stop_bound + 5"
proof (cases "rs_signalled s")
  case True
  have "place_rank (rs_place s) \<le> 3" by (simp add: place_rank_def split: place.split)
  moreover have "rs_signal_time s \<le> rs_clock s" using assms(1) by (simp add: run_inv_def)
  then have "rs_signal_time s + stop_bound - rs_clock s \<le> stop_bound" by arith
  ultimately show ?thesis using True by (simp add: run_rank_def time_left_def)
next
  case False
  then have "rs_listener s \<noteq> None" "place_rank (rs_place s) \<le> 3"
    using assms(2) by (auto simp: stirred_def place_rank_def split: place.split)
  then show ?thesis using False by (auto simp: run_rank_def time_left_def)
qed

section \<open>The life cycle refines its specification\<close>

interpretation life: refinement initial step run_inv phase_of spec_step
  by unfold_locales (fact run_inv_initial run_inv_step phase_of_step)+

interpretation stopping: bounded_refinement initial step run_inv phase_of spec_step stirred run_rank
  by unfold_locales (fact stirred_step step_rank)+

lemmas reachable_inv = life.reach_good [folded reachable_def]

lemma returned_listener:
  assumes "reachable s" "rs_place s = Returned res" "\<not> rs_timed_out s"
  obtains r where "rs_listener s = Some r" "settled (rs_closing s) r res"
  using reachable_inv [OF assms(1)] assms(2,3) by (auto simp: run_inv_def)

lemma returned_unsignalled:
  assumes "reachable s" "rs_place s = Returned res" "\<not> rs_signalled s"
  shows "\<exists>e. rs_listener s = Some (ListenFailed e) \<and> res = Some e"
proof -
  have inv: "\<not> rs_closing s" "\<not> rs_timed_out s"
    using reachable_inv [OF assms(1)] assms(2,3) by (auto simp: run_inv_def split: if_splits)
  then obtain r where r: "rs_listener s = Some r" "settled False r res"
    using returned_listener [OF assms(1,2)] by (metis (full_types))
  then show ?thesis by (cases r) auto
qed

text \<open>Nothing but the return stops a run: where the main goroutine is blocked, time goes on.\<close>

lemma returned_or_moves: "(\<exists>res. rs_place s = Returned res) \<or> (\<exists>s'. step s s')"
  using main tick by blast

lemma signalled_time:
  assumes "run_inv s" "rs_signalled s"
  shows "rs_clock s \<le> rs_signal_time s + stop_bound"
  using assms by (cases "rs_place s") (auto simp: run_inv_def stop_bound_def)

end
