(* ===== verification/Program_Properties.thy ===== *)
theory Program_Properties
  imports Samples Lifecycle
begin

text \<open>
  The properties of the parts around the proxy core: the client transport end to end, the
  configuration that \<open>serve\<close> accepts, the commands, and the life cycle of the daemon.
\<close>

section \<open>The client, end to end\<close>

text \<open>
  C8. End to end: a credential that was sealed for the proxy, carried by the client transport with the
  bearer it was sealed for and delivered to the proxy, makes the proxy run the plan that injects it,
  when the rules of the seal cover the upstream and the ingress rules let the client in.
\<close>

theorem client_request_is_served:
  assumes seal: "seal_op E s (public_of E key) rnd boxrnd = (Inr blob, s')" "text_clean s" "blob \<noteq> []"
    and box: "\<And>m c. seal_anonymous E m (public_of E key) boxrnd = Some c \<Longrightarrow>
                open_anonymous E c (public_of E key) key = Some m"
    and t: "tr_sealed_secret t = blob" "tr_auth t = tok" "tok \<noteq> []" "trim_space tok = tok"
    and bearer: "bearer_auth s = Some \<lparr>digest = hash_bearer tok\<rparr>"
    and up: "url_host (req_url req) \<noteq> []" "url_parse E (url_string (req_url req)) = Some up" "url_host up \<noteq> []"
      "reject_non_standard_port (url_host up) = None"
    and rules: "validate_host E (url_host up) s = None" "validate_path E (url_path up) s = None"
      "validate_method (req_method req) s = None"
    and got: "delivered (client_request t req) r" "ingress_ok srv r"
  shows "\<exists>fmt hn. admitted E srv key r up (PlanInject s' fmt hn) \<and>
    runs_plan E srv W w (capped srv r) up (PlanInject s' fmt hn) (serve E srv key W w r)"
proof -
  obtain fmt hn where a: "admitted E srv key r up (PlanInject s' fmt hn)"
    using client_admitted [OF seal box t bearer up rules got] by metis
  have "serve E srv key W w r = handle_forward E srv key W w r"
    using delivered_path [OF got(1)] by (simp add: serve_def wire_names Let_def)
  then show ?thesis using a handle_forward_runs [OF a, of W w] by metis
qed

text \<open>A secret for a bearer, a transport that carries it, and the request as it arrives.\<close>

definition bearer_secret :: secret where
  "bearer_secret = sample_secret\<lparr>no_auth := None, bearer_auth := Some \<lparr>digest = hash_bearer ''tok''\<rparr>\<rparr>"

definition bearer_blob :: string where
  "bearer_blob =
     (case fst (seal_op sample_env bearer_secret (public_of sample_env sample_key) None []) of Inl _ \<Rightarrow> [] | Inr b \<Rightarrow> b)"

definition sample_transport :: transport where
  "sample_transport =
     \<lparr>tr_base = \<lparr>ht_tls = None\<rparr>, tr_proxy_url = sample_url ''proxy'' '''', tr_sealed_secret = bearer_blob, tr_auth = ''tok''\<rparr>"

definition client_sample :: request where
  "client_sample =
     \<lparr>req_method = ''POST'', req_url = sample_upstream, req_host = ''api.stripe.com'', req_header = no_headers,
      req_remote = [], req_length = 5, req_body = ''hello'', req_body_end = BodyEOF\<rparr>"

lemma bearer_validates: "validate sample_env bearer_secret = None"
  using sample_validates
  by (simp add: validate_None well_sealed_def bearer_secret_def sample_secret_def hash_bearer_def)

lemma bearer_seal:
  "seal_op sample_env bearer_secret (public_of sample_env sample_key) None [] = (Inr bearer_blob, bearer_secret)"
proof -
  have "seal_anonymous sample_env m p r = Some (p @ m)" for m p r by (simp add: sample_env_def)
  moreover have "bearer_secret\<lparr>euid := euid bearer_secret\<rparr> = bearer_secret" "euid bearer_secret \<noteq> []"
    by (simp_all add: bearer_secret_def sample_secret_def)
  ultimately show ?thesis by (simp add: bearer_blob_def seal_op_def bearer_validates)
qed

lemma bearer_clean: "text_clean bearer_secret"
  using sample_text_clean by (simp add: text_clean_def bearer_secret_def hash_bearer_def ascii_valid_utf8)

lemma bearer_blob_nonempty: "bearer_blob \<noteq> []"
proof -
  have "open_op sample_env bearer_blob sample_key [] = Inr (bearer_secret, False)"
    by (rule open_after_seal [OF bearer_seal bearer_clean sample_box])
  then show ?thesis by (auto simp: open_op_def sample_env_def decrypt_def
      try_open_def public_of_def sample_key_def b64_decode_def split: if_splits)
qed

theorem client_request_is_served_witness:
  "\<exists>fmt hn. admitted sample_env sample_server sample_key (client_request sample_transport client_sample) sample_upstream
      (PlanInject bearer_secret fmt hn) \<and>
    runs_plan sample_env sample_server sample_world sample_writer
      (capped sample_server (client_request sample_transport client_sample)) sample_upstream
      (PlanInject bearer_secret fmt hn)
      (serve sample_env sample_server sample_key sample_world sample_writer (client_request sample_transport client_sample))"
proof (rule client_request_is_served [OF bearer_seal bearer_clean bearer_blob_nonempty sample_box])
  have u: "url_string sample_upstream = ''https://api.stripe.com/v1/charges''"
    by (simp add: sample_upstream_def sample_url_def) code_simp
  show "url_parse sample_env (url_string (req_url client_sample)) = Some sample_upstream"
    using sample_parse by (simp add: client_sample_def u)
  have "validate_host sample_env h (sample_secret\<lparr>no_auth := None, bearer_auth := b\<rparr>) = validate_host sample_env h sample_secret"
    "validate_path sample_env h (sample_secret\<lparr>no_auth := None, bearer_auth := b\<rparr>) = validate_path sample_env h sample_secret"
    "validate_method h (sample_secret\<lparr>no_auth := None, bearer_auth := b\<rparr>) = validate_method h sample_secret" for h b
    by (simp_all add: validate_host_def validate_path_def validate_method_def sample_secret_def)
  then show "validate_host sample_env (url_host sample_upstream) bearer_secret = None"
    "validate_path sample_env (url_path sample_upstream) bearer_secret = None"
    "validate_method (req_method client_sample) bearer_secret = None"
    using sample_allows by (simp_all add: bearer_secret_def secret_allows_def client_sample_def sample_request_def)
  show "delivered (client_request sample_transport client_sample) (client_request sample_transport client_sample)"
    by (simp add: delivered_def control_headers_def)
  show "ingress_ok sample_server (client_request sample_transport client_sample)"
    by (simp add: ingress_ok_def sample_server_def client_request_def client_sample_def)
  show "reject_non_standard_port (url_host sample_upstream) = None"
    using sample_admitted by (simp add: admitted_def)
  show "trim_space ''tok'' = ''tok''" by code_simp
qed (simp_all add: sample_transport_def bearer_secret_def client_sample_def sample_upstream_def sample_url_def)

section \<open>The configuration of serve\<close>

text \<open>
  A process without environment variables, with a certificate library whose certificates are the
  common name, PEM blocks with the length of their type in unary, and one redirect.
\<close>

definition sample_certs :: cert_lib where
  "sample_certs =
     \<lparr>cl_generate = Some (''pub'', ''priv''), cl_serial = Some 7, cl_now = 1000000,
      cl_create = (\<lambda>tmpl pub priv. Some (ct_common_name tmpl)), cl_pkcs8 = (\<lambda>k. Some k),
      cl_pem_encode = (\<lambda>typ b. replicate (length typ) (CHR ''x'') @ '':'' @ typ @ b),
      cl_pem_decode = (\<lambda>d. map_option (\<lambda>(n, r). (take (length n) r, drop (length n) r)) (cut_byte (CHR '':'') d)),
      cl_parse_cn = (\<lambda>der. Some der)\<rparr>"

definition sample_fs :: file_system where
  "sample_fs =
     \<lparr>fs_read = (\<lambda>p. if p = ''d/cert.pem'' then Some ''xxxxxxxxxxx:CERTIFICATEsecret-proxy-dev'' else None),
      fs_stat = (\<lambda>p. p \<in> {''d/cert.pem'', ''d/key.pem''}), fs_allows = (\<lambda>_. True)\<rparr>"

definition sample_sys :: sys where
  "sample_sys =
     \<lparr>sys_getenv = (\<lambda>_. []), sys_fs = sample_fs, sys_hostname = None, sys_duration = (\<lambda>_. None),
      sys_certs = sample_certs, sys_random = None, sys_box_random = [],
      sys_hop = (\<lambda>u. if u = ''https://proxy/public-key'' then Some (302, Some ''http://evil/k'', None)
                    else if u = ''http://evil/k'' then Some (200, None, Some (key_hex sample_key)) else None),
      sys_net = (\<lambda>_ _. None), sys_do = (\<lambda>rt q. rt q), sys_stdin = None\<rparr>"

definition sample_args :: "string list" where
  "sample_args = [''--private-key'', key_hex sample_key, ''--trust-tls-terminator'', ''--allowed-client-cidrs=10.0.0.0/8'']"

text \<open>
  C10. A configuration that \<open>serve\<close> accepts is well formed, whatever the environment and the arguments:
  keys of 32 bytes, proper prefixes, Cloudflare headers trusted only behind a terminator, the egress
  guard on with the own loopback names in it. Hence \<open>Handler\<close> does not panic.
\<close>

theorem serve_setup_well_formed:
  assumes "serve_setup E S args = Inr su"
  shows "proper_server (su_server su) \<and> (\<exists>h. handler E (su_server su) = Some h)"
  using serve_setup_proper [OF assms] by (auto simp: proper_server_def handler_def)

lemma sample_serves: "\<exists>su. serve_setup sample_env sample_sys sample_args = Inr su"
proof -
  have "(case serve_setup sample_env sample_sys sample_args of Inl _ \<Rightarrow> False | Inr _ \<Rightarrow> True)" by code_simp
  then show ?thesis by (auto split: sum.splits)
qed

theorem serve_setup_well_formed_witness:
  "\<exists>su. serve_setup sample_env sample_sys sample_args = Inr su \<and> proper_server (su_server su)"
  using sample_serves serve_setup_well_formed by blast

text \<open>
  C11. A daemon that starts without \<open>--trust-tls-terminator\<close> listens with TLS 1.3 and HTTP/1.1 only, from
  a certificate and a key file that exist, and a development certificate needs \<open>--allow-dev-cert\<close>;
  one that starts with it has no TLS of its own.
\<close>

theorem plaintext_only_behind_terminator:
  assumes "serve_setup E S args = Inr su" "parse_serve_flags E S args = Inr fl"
  shows "if flag_bool fl ''trust-tls-terminator'' then hs_tls (su_http su) = None \<and> su_cert su = None
    else \<exists>cfg cert key. hs_tls (su_http su) = Some cfg \<and> tls_min_version cfg = Some 772 \<and>
      tls_next_protos cfg = [''http/1.1''] \<and> hs_no_http2 (su_http su) \<and> su_cert su = Some (cert, key) \<and>
      fs_stat (sys_fs S) cert \<and> fs_stat (sys_fs S) key \<and>
      \<not> (is_dev_cert (sys_certs S) (sys_fs S) cert \<and> \<not> flag_bool fl ''allow-dev-cert'')"
proof -
  have "check_tls S fl = Inr (su_cert su)" "su_http su = make_http_server fl"
    using serve_setup_InrD [OF assms(1)] assms(2) by (metis sum.inject(2))+
  then show ?thesis
    using check_tls_InrD [of S fl "su_cert su"] by (auto simp: make_http_server_def Let_def split: if_splits)
qed

theorem plaintext_only_behind_terminator_witness:
  "\<exists>su. serve_setup sample_env sample_sys sample_args = Inr su \<and> hs_tls (su_http su) = None"
proof -
  obtain su where su: "serve_setup sample_env sample_sys sample_args = Inr su" using sample_serves by blast
  obtain fl where fl: "parse_serve_flags sample_env sample_sys sample_args = Inr fl"
    using serve_setup_InrD [OF su] by metis
  have "(case parse_serve_flags sample_env sample_sys sample_args of Inl _ \<Rightarrow> False
         | Inr fl \<Rightarrow> flag_bool fl ''trust-tls-terminator'')" by code_simp
  then show ?thesis using plaintext_only_behind_terminator [OF su fl] su fl by auto
qed

text \<open>
  C12. The certificate that \<open>gen-tls-cert\<close> writes is refused by \<open>serve\<close> unless \<open>--allow-dev-cert\<close> is given,
  under the round-trip laws of the PEM and X.509 code: generating and checking agree on the mark.
\<close>

theorem dev_cert_refused:
  assumes gen: "generate_self_signed_tls L F out_dir extra = (Inr (cert, key), writes)"
    and pem: "\<And>typ b. cl_pem_decode L (cl_pem_encode L typ b) = Some (typ, b)"
    and x509: "\<And>tmpl pub priv der. cl_create L tmpl pub priv = Some der \<Longrightarrow> cl_parse_cn L der = Some (ct_common_name tmpl)"
    and disk: "\<And>data perm. WriteFile cert data perm \<in> set writes \<Longrightarrow> fs_read (sys_fs S) cert = Some data" "sys_certs S = L"
    and flags: "parse_serve_flags E S args = Inr fl" "flag_string fl ''tls-cert-file'' = cert"
      "\<not> flag_bool fl ''trust-tls-terminator''" "\<not> flag_bool fl ''allow-dev-cert''"
  shows "\<exists>e. serve_setup E S args = Inl e"
proof (rule ccontr)
  assume "\<nexists>e. serve_setup E S args = Inl e"
  then obtain su where su: "serve_setup E S args = Inr su" by (cases "serve_setup E S args") auto
  have "check_tls S fl = Inr (su_cert su)"
    using serve_setup_InrD [OF su] flags(1) by (metis sum.inject(2))
  moreover have "is_dev_cert L (sys_fs S) cert" by (rule generated_is_dev [OF gen pem x509 disk(1)])
  ultimately show False
    using flags disk(2) by (auto simp: check_tls_def and_then_Inr Let_def split: if_splits)
qed

definition dev_args :: "string list" where
  "dev_args = [''--private-key'', key_hex sample_key, ''-tls-cert-file'', ''d/cert.pem'', ''--tls-key-file=d/key.pem'']"

lemma dev_files:
  "generate_self_signed_tls sample_certs sample_fs ''d'' [''10.0.0.1'', ''proxy.test''] =
     (Inr (''d/cert.pem'', ''d/key.pem''),
      [MkdirAll ''d'' 493, WriteFile ''d/cert.pem'' ''xxxxxxxxxxx:CERTIFICATEsecret-proxy-dev'' 420,
       WriteFile ''d/key.pem'' ''xxxxxxxxxxx:PRIVATE KEYpriv'' 384])"
  by code_simp

theorem dev_cert_refused_witness:
  "\<exists>e. serve_setup sample_env sample_sys dev_args = Inl e"
proof -
  have "(case parse_serve_flags sample_env sample_sys dev_args of Inl _ \<Rightarrow> False
         | Inr fl \<Rightarrow> flag_string fl ''tls-cert-file'' = ''d/cert.pem'' \<and> \<not> flag_bool fl ''trust-tls-terminator'' \<and>
             \<not> flag_bool fl ''allow-dev-cert'')"
    by code_simp
  then obtain fl where fl: "parse_serve_flags sample_env sample_sys dev_args = Inr fl"
    "flag_string fl ''tls-cert-file'' = ''d/cert.pem''" "\<not> flag_bool fl ''trust-tls-terminator''"
    "\<not> flag_bool fl ''allow-dev-cert''"
    by (auto split: sum.splits)
  show ?thesis
  proof (rule dev_cert_refused [OF dev_files _ _ _ _ fl])
    show "cl_pem_decode sample_certs (cl_pem_encode sample_certs ty b) = Some (ty, b)" for ty b
      using cut_byte_fresh [of "CHR '':''" "replicate (length ty) (CHR ''x'')" "ty @ b"]
      by (simp add: sample_certs_def)
    show "cl_create sample_certs tmpl pub priv = Some der \<Longrightarrow> cl_parse_cn sample_certs der = Some (ct_common_name tmpl)"
      for tmpl pub priv der
      by (simp add: sample_certs_def)
    show "fs_read (sys_fs sample_sys) ''d/cert.pem'' = Some data"
      if "WriteFile ''d/cert.pem'' data perm \<in> set [MkdirAll ''d'' 493,
        WriteFile ''d/cert.pem'' ''xxxxxxxxxxx:CERTIFICATEsecret-proxy-dev'' 420,
        WriteFile ''d/key.pem'' ''xxxxxxxxxxx:PRIVATE KEYpriv'' 384]" for data perm
      using that by (auto simp: sample_sys_def sample_fs_def)
    show "sys_certs sample_sys = sample_certs" by (simp add: sample_sys_def)
  qed
qed

section \<open>The commands\<close>

text \<open>
  C19. What \<open>seal\<close> prints, the holder of the private key opens, and finds what the flags say, in every
  field: the credential with its format, header name and their alternatives, the hosts, paths and methods,
  the digest of the bearer or the mark of no authentication, the name, and the EUID of the flag or, where
  that is empty, a fresh one, which is also the one that \<open>seal\<close> reports.
\<close>

theorem seal_command_opens:
  assumes run: "run_seal E S args = (None, out)" "flag_parse (sys_duration S) seal_flags args = Inr fl"
    and key: "resolve_public_key E S (flag_string fl ''public-key'') (flag_string fl ''public-key-url'') = Inr (public_of E priv)"
    and clean: "text_clean (seal_secret fl)"
    and box: "\<And>m c. seal_anonymous E m (public_of E priv) (sys_box_random S) = Some c \<Longrightarrow>
                open_anonymous E c (public_of E priv) priv = Some m"
  shows "\<exists>blob i.
    out = Stderr (''euid: '' @ i @ newline) #
      (if flag_string fl ''name'' \<noteq> [] then [Stderr (''name: '' @ flag_string fl ''name'' @ newline)] else []) @
      [Stdout (blob @ newline)] \<and>
    open_op E blob priv fallback =
      Inr (\<lparr>bearer_auth = (if flag_bool fl ''no-auth'' then None
                            else Some \<lparr>digest = hash_bearer (flag_string fl ''auth-bearer'')\<rparr>),
            no_auth = (if flag_bool fl ''no-auth'' then Some () else None),
            inject_header = Some \<lparr>token = flag_string fl ''token'', format = flag_string fl ''format'',
              header_name = flag_string fl ''header-name'',
              allowed_formats = split_csv (flag_string fl ''allowed-format''),
              allowed_header_names = split_csv (flag_string fl ''allowed-header-name'')\<rparr>,
            allowed_hosts = split_csv (flag_string fl ''allow-host''),
            allowed_host_pattern = flag_string fl ''allow-host-pattern'',
            allowed_path_prefixes = split_csv (flag_string fl ''allow-path-prefix''),
            allowed_path_pattern = flag_string fl ''allow-path-pattern'',
            allowed_methods = split_csv (flag_string fl ''allow-method''),
            name = flag_string fl ''name'', euid = i\<rparr>, False) \<and>
    (if flag_string fl ''euid'' = [] then new_euid (sys_random S) = Inr i else i = flag_string fl ''euid'') \<and>
    flag_string fl ''token'' \<noteq> [] \<and> flag_bool fl ''no-auth'' = (flag_string fl ''auth-bearer'' = [])"
proof -
  obtain s blob s' where s: "check_seal_flags fl = Inr ()" "seal_auth fl (seal_secret fl) = Inr s"
    "seal_op E s (public_of E priv) (sys_random S) (sys_box_random S) = (Inr blob, s')" "out = seal_report s' blob"
    using run_seal_ok [OF run(1)] run(2) key by (metis sum.inject(2))
  have "text_clean s"
    using clean s(2)
    by (auto simp: seal_auth_def text_clean_def seal_secret_def hash_bearer_def ascii_valid_utf8 split: if_splits)
  then have "open_op E blob priv fallback = Inr (s', False)"
    using open_after_seal [OF s(3) _ box] by blast
  moreover obtain i where i: "s' = s\<lparr>euid := i\<rparr>" "if euid s = [] then new_euid (sys_random S) = Inr i else i = euid s"
    using seal_op_InrE [OF s(3)] by metis
  moreover have flags: "flag_string fl ''token'' \<noteq> []" "flag_bool fl ''no-auth'' = (flag_string fl ''auth-bearer'' = [])"
    using s(1,2) by (auto simp: check_seal_flags_def seal_auth_def split: if_splits)
  moreover have "s = (seal_secret fl)
      \<lparr>bearer_auth := if flag_bool fl ''no-auth'' then None
                      else Some \<lparr>digest = hash_bearer (flag_string fl ''auth-bearer'')\<rparr>,
       no_auth := if flag_bool fl ''no-auth'' then Some () else None\<rparr>"
    using s(2) flags(2) by (cases "flag_bool fl ''no-auth''") (auto simp: seal_auth_def seal_secret_def)
  ultimately show ?thesis
    unfolding s(4) by (intro exI [of _ blob] exI [of _ i]) (simp add: seal_secret_def seal_report_def)
qed

definition seal_args :: "string list" where
  "seal_args = [''-token'', ''sk'', ''--no-auth'', ''-allow-host=api.stripe.com, b.test'', ''--public-key'',
     key_hex (public_of sample_env sample_key), ''-euid'', ''e-9'']"

lemma seal_args_run:
  obtains out fl where "run_seal sample_env sample_sys seal_args = (None, out)"
    "flag_parse (sys_duration sample_sys) seal_flags seal_args = Inr fl"
    "resolve_public_key sample_env sample_sys (flag_string fl ''public-key'') (flag_string fl ''public-key-url'') =
       Inr (public_of sample_env sample_key)"
    "text_clean (seal_secret fl)" "flag_string fl ''token'' = ''sk''" "flag_string fl ''allow-host'' = ''api.stripe.com, b.test''"
proof -
  have "fst (run_seal sample_env sample_sys seal_args) = None" by code_simp
  moreover have "(case flag_parse (sys_duration sample_sys) seal_flags seal_args of Inl _ \<Rightarrow> False
      | Inr fl \<Rightarrow> resolve_public_key sample_env sample_sys (flag_string fl ''public-key'') (flag_string fl ''public-key-url'') =
          Inr (public_of sample_env sample_key) \<and> text_clean (seal_secret fl) \<and> flag_string fl ''token'' = ''sk'' \<and>
          flag_string fl ''allow-host'' = ''api.stripe.com, b.test'')"
    by code_simp
  ultimately show ?thesis using that by (auto split: sum.splits) (metis prod.collapse)
qed

theorem seal_command_opens_witness:
  "\<exists>out blob i. run_seal sample_env sample_sys seal_args = (None, out) \<and> last out = Stdout (blob @ newline) \<and>
    hd out = Stderr (''euid: '' @ i @ newline) \<and>
    map_sum (\<lambda>_. ()) (\<lambda>r. (map_option token (inject_header (fst r)), allowed_hosts (fst r), euid (fst r)))
      (open_op sample_env blob sample_key []) = Inr (Some ''sk'', split_csv ''api.stripe.com, b.test'', i)"
proof -
  obtain out fl where r: "run_seal sample_env sample_sys seal_args = (None, out)"
    "flag_parse (sys_duration sample_sys) seal_flags seal_args = Inr fl"
    "resolve_public_key sample_env sample_sys (flag_string fl ''public-key'') (flag_string fl ''public-key-url'') =
       Inr (public_of sample_env sample_key)"
    "text_clean (seal_secret fl)" and fl: "flag_string fl ''token'' = ''sk''" "flag_string fl ''allow-host'' = ''api.stripe.com, b.test''"
    by (rule seal_args_run)
  show ?thesis
  proof (rule exE [OF seal_command_opens [OF r, where fallback = "[]", unfolded fl]], goal_cases)
    case (1 m c)
    then show ?case by (rule sample_box)
  next
    case (2 blob)
    then show ?case
    proof (elim exE conjE, goal_cases)
      case (1 i)
      then show ?case using r(1) by (intro exI [of _ out] exI [of _ blob] exI [of _ i]) simp
    qed
  qed
qed



section \<open>The life cycle\<close>

text \<open>
  C17. The daemon refines its specification: whatever signals, listener results and timers do, what an
  operator sees is serving, then either a crash with an error, or stopping and an exit.
\<close>

theorem serve_refines_phases:
  assumes "reachable s"
  shows "spec_step\<^sup>*\<^sup>* Serving (phase_of s) \<and>
    (\<forall>s'. step s s' \<longrightarrow> phase_of s' = phase_of s \<or> spec_step (phase_of s) (phase_of s'))"
  using life.reach_spec [OF assms [unfolded reachable_def]] phase_of_step [OF _ reachable_inv [OF assms]]
  by (simp add: phase_of_def initial_def)

definition crashed :: run_state where
  "crashed = initial\<lparr>rs_listener := Some (ListenFailed ''bind''), rs_chan := None, rs_place := Returned (Some ''bind'')\<rparr>"

lemma crashed_reachable: "reachable crashed"
proof -
  have "reachable (initial\<lparr>rs_listener := Some (ListenFailed ''bind''), rs_chan := Some (ListenFailed ''bind'')\<rparr>)"
    by (rule reachable_more [OF reachable_start listener_fails]) (simp add: initial_def)
  then show ?thesis
    by (rule reachable_more)
      (use main [OF select_listener [of "initial\<lparr>rs_listener := Some (ListenFailed ''bind''), rs_chan := Some (ListenFailed ''bind'')\<rparr>" "ListenFailed ''bind''"]]
        in \<open>simp add: crashed_def initial_def listen_error_def\<close>)
qed

theorem serve_refines_phases_witness:
  "spec_step\<^sup>*\<^sup>* Serving (Exited (Some ''bind''))"
  using serve_refines_phases [OF crashed_reachable] by (simp add: phase_of_def crashed_def)

text \<open>
  C18. \<open>runServe\<close> returns: once there is a signal or a result of the listener, every run takes at most as
  many steps as the two timeouts of five seconds have ticks, and five more, also when no connection ever
  becomes idle and the listener never answers; a run that cannot go on has returned; and the return is
  at most ten seconds after the signal.
\<close>

theorem serve_terminates:
  assumes "reachable s" "rs_signalled s \<or> rs_listener s \<noteq> None" "(step ^^ n) s s'"
  shows "n \<le> 10 * second + 5 \<and> ((\<exists>res. rs_place s' = Returned res) \<or> (\<exists>s''. step s' s'')) \<and>
    (rs_signalled s' \<longrightarrow> rs_clock s' \<le> rs_signal_time s' + 10 * second)"
proof -
  have ten: "stop_bound = 10 * second" by (simp add: stop_bound_def shutdown_timeout_def drain_wait_def)
  have s: "run_inv s" "stirred s" using reachable_inv [OF assms(1)] assms(2) by (simp_all add: stirred_def)
  have s': "run_inv s'" "n \<le> run_rank s" using stopping.bounded [OF s assms(3)] by simp_all
  show ?thesis
    using s'(2) run_rank_start [OF s] returned_or_moves [of s'] signalled_time [OF s'(1)] unfolding ten by auto
qed

theorem serve_terminates_witness:
  "\<exists>s. (step ^^ 1) (initial\<lparr>rs_signalled := True\<rparr>) s \<and> (\<exists>d. rs_place s = ShuttingDown d) \<and> (\<exists>s'. step s s')"
proof -
  let ?s = "initial\<lparr>rs_signalled := True\<rparr>"
  let ?t = "?s\<lparr>rs_place := ShuttingDown (rs_clock ?s + shutdown_timeout), rs_closing := True\<rparr>"
  have r: "reachable ?s" by (rule reachable_more [OF reachable_start]) (use signal [of initial] in \<open>simp add: initial_def\<close>)
  have one: "(step ^^ 1) ?s ?t"
    unfolding relpowp_1 by (rule main, rule select_signal) (simp_all add: initial_def)
  have "\<exists>s'. step ?t s'" using serve_terminates [OF r _ one] by simp
  then show ?thesis using one by (intro exI [of _ ?t]) simp
qed

text \<open>
  C16. The exit code of \<open>serve\<close> is honest: it is 0 only after a signal, and a listener that failed makes
  it 1, also during the shutdown, unless the drain of five seconds gave up on it.
\<close>

theorem serve_exit_code:
  assumes "reachable s" "rs_place s = Returned res" "serve_setup E S args = Inr su"
    and "main_run E S (\<lambda>_. (map_option ServerFailed res, out)) (prog # ''serve'' # args) = (code, o')"
  shows "(code = 0 \<or> code = 1) \<and> (\<not> rs_signalled s \<longrightarrow> code = 1) \<and>
    (rs_listener s = Some (ListenFailed e) \<and> \<not> rs_timed_out s \<longrightarrow> code = 1 \<and> last o' = StderrError (ServerFailed e))"
proof -
  have m: "main_run E S (\<lambda>_. (map_option ServerFailed res, out)) (prog # ''serve'' # args) =
      (case res of None \<Rightarrow> (0, out) | Some x \<Rightarrow> (1, out @ [StderrError (ServerFailed x)]))"
    using assms(3) by (simp add: main_run_def dispatch_def split: option.split)
  have "res = Some e" if "rs_listener s = Some (ListenFailed e)" "\<not> rs_timed_out s"
    using returned_listener [OF assms(1,2) that(2)] that(1) by auto
  moreover have "\<not> rs_signalled s \<Longrightarrow> \<exists>x. res = Some x" using returned_unsignalled [OF assms(1,2)] by blast
  ultimately show ?thesis using assms(4) m by (auto split: option.splits)
qed

theorem serve_exit_code_witness:
  "fst (main_run sample_env sample_sys (\<lambda>_. (Some (ServerFailed ''bind''), [])) (''secret-proxy'' # ''serve'' # sample_args)) = 1"
proof -
  obtain su where su: "serve_setup sample_env sample_sys sample_args = Inr su" using sample_serves by blast
  have "rs_place crashed = Returned (Some ''bind'')" "\<not> rs_signalled crashed" by (simp_all add: crashed_def initial_def)
  then show ?thesis
    using serve_exit_code [OF crashed_reachable _ su, of "Some ''bind''" "[]" "''secret-proxy''"] by (metis option.map(2) prod.collapse)
qed

end
