(* ===== verification/Spec2Isabelle.thy ===== *)
theory Spec2Isabelle
  imports Seal_Properties Guard_Properties Forward_Properties Program_Properties
begin

text \<open>
  Secret Proxy (\<open>src/\<close>): a forward proxy that keeps vendor credentials away from its clients. A
  client sends \<open>X-Upstream-URL\<close>, \<open>X-Sealed-Secret\<close> and \<open>X-Auth-Bearer\<close> to \<open>/v1/forward\<close>; the proxy
  opens the sealed secret, checks the bearer and the host, path and method rules of the seal, and
  forwards the request over TLS with the credential injected. This library models the program in
  Isabelle/HOL and proves what makes it correct.

  \<^bold>\<open>Parts and theories.\<close>
  \<^item> \<open>internal/seal/seal.go\<close>: \<open>Seal\<close> has the keys, the \<open>Secret\<close> struct, \<open>Validate\<close> with the anchor
    check on parsed patterns, and the bearer digests; \<open>Seal_Envelope\<close> has the JSON text of a secret, the
    EUID, \<open>Seal\<close> (\<open>seal_op\<close>, which returns the changed struct too) and \<open>Open\<close> (\<open>open_op\<close>) with its
    fallback keys.
  \<^item> \<open>internal/proxy/ingress.go\<close>: \<open>Ingress\<close>, the CIDR allowlist on words and the client address.
  \<^item> \<open>internal/proxy/proxy.go\<close>: \<open>Validators\<close> (sealed header, bearer, processor override, port, host, path
    and method rules), \<open>Egress\<close> (reserved ranges, the guarded dial, own host names), \<open>Response_Writer\<close>
    (\<open>statusWriter\<close> over a writer that can fail), \<open>Forward\<close> (\<open>forwardTo\<close>: director, reverse proxy,
    transport, error handler, body tracker, recovered abort), \<open>Server\<close> (\<open>Handler\<close>, \<open>serve\<close>,
    \<open>handleForward\<close> with every early return in order, the log lines). A handler maps a request and a
    writer to the writer afterwards and a trace of log lines and of requests handed to a connection.
  \<^item> \<open>internal/proxy/tlscert.go\<close>: \<open>TlsCert\<close>. \<open>pkg/client/client.go\<close>: \<open>Client\<close>, with the wire constants in
    \<open>Wire\<close>.
  \<^item> \<open>cmd/secret-proxy/main.go\<close>: \<open>Serve_Config\<close> (environment, keys, the configuration of \<open>serve\<close> with its
    refusals), \<open>Cli\<close> (the subcommands and \<open>main\<close>), \<open>Lifecycle\<close> (signal, listener goroutine, shutdown and
    drain as a step relation with a clock).
  \<^item> The Go library as far as the program uses it: \<open>Go_Strings\<close> (runes, trimming, case), \<open>Encodings\<close> (hex,
    base64), \<open>Go_Net\<close> and \<open>Go_Ip_Parse\<close> (host and port, addresses, prefixes), \<open>Go_Http\<close> and \<open>Go_Url\<close>
    (headers, URLs), \<open>Go_Json\<close>, \<open>Go_Json_Parse\<close>, \<open>Go_Json_Roundtrip\<close>, \<open>Go_Regex\<close> (matching of parsed
    patterns), \<open>Go_Fmt\<close>, \<open>Go_Flag\<close>, \<open>Sha256\<close>, \<open>Logging\<close>. \<open>Prelude\<close> has what all of them share.
  \<^item> \<open>Forward_Laws\<close> and \<open>Server_Laws\<close> hold the lemmas on the pipeline and the contract of the handler
    (\<open>admitted\<close>, \<open>plan\<close>), stated apart from its control flow; \<open>outbound_request\<close> there is the closed form of
    what the director and the reverse proxy make of a request, by \<open>rp_outbound_request\<close>. \<open>Samples\<close> holds concrete inputs, and the
    four \<open>_Properties\<close> theories the properties, each with an application to a concrete input where it
    has hypotheses.

  \<^bold>\<open>Interfaces.\<close> \<open>header_store\<close> is what the pipeline uses of a header map, \<open>allowlist\<close> and
  \<open>allowlist_normal\<close> what the validators use of a list of permitted values, \<open>codec\<close> and \<open>clean_codec\<close> what text
  forms promise, \<open>refinement\<close> how a step relation implements a specification and \<open>bounded_refinement\<close> that
  it stops; each is interpreted on the definitions of the model.

  \<^bold>\<open>What is proved.\<close> The handler forwards exactly the admitted requests, in their rewritten form, and
  dials public addresses only; the credential arrives once and nothing of the client's credentials or
  of the control headers does; the log says what was sent, with the exception that is stated, and,
  together with the response, does not depend on the token of a seal that opens, on any path of the handler; opening undoes sealing, also over the command line and key rotation; the
  validators decide their written rules, on every depth of percent encoding and on every IPv4 address;
  configurations that start are well formed and do not serve plaintext or development certificates
  unasked; the daemon refines an abstract life cycle, returns within ten seconds of a signal, also where
  connections never become idle, and exits with an honest code. Some theorems state behaviour that deviates
  from the comments: multi-line patterns, bracketed IPv6 hosts, mapped prefixes, redirected public keys,
  informational statuses; some lemmas, headers that the client nominates in \<open>Connection\<close> and the control
  character of a token that a refusal names in the log.

  \<^bold>\<open>Bounds and fuel.\<close> The JSON parser runs on fuel \<open>2 * length + 2\<close>; a value of n bytes needs less, and
  \<open>json_first_fuel\<close> shows that more fuel does not change the result. \<open>max_decodes\<close> is the constant 4 of
  the code. A client follows nine redirects, as \<open>net/http\<close> does. The other loops are structural, or have a
  termination proof on the length of what is left. The life cycle counts nanoseconds; its steps of the
  main goroutine take no time (a step that is possible is taken before the clock goes on), so that a run
  has at most \<open>10 * second + 5\<close> steps once there is a signal or a result of the listener: the ticks of the
  two timeouts of five seconds, three moves of the main goroutine, the listener's result and the last
  connection becoming idle.

  \<^bold>\<open>Parameters.\<close> Code that is not under \<open>src/\<close> is an argument: the record \<open>env\<close> for curve25519, nacl/box,
  \<open>regexp/syntax.Parse\<close>, \<open>url.Parse\<close> (whose grammar the pinned toolchain patches), Unicode tables, IDNA,
  padded \<open>fmt\<close> verbs and the iteration order of maps; \<open>world\<close> for the resolver, the far side of a
  connection, the proxy setting of the environment and the clock; \<open>cert_lib\<close> and \<open>file_system\<close> for X.509,
  PEM and files; \<open>sys\<close> for the process environment, random bytes, standard input and the HTTP client. What a
  property needs of them is a hypothesis.

  \<^bold>\<open>Not modelled.\<close> The inside of \<open>net/http\<close> beyond what the program observes: trailers, body rules of HEAD
  and of 1xx responses, the check of header fields before a dial, the connection that \<open>MaxBytesReader\<close>
  closes, timeouts, HTTP framing, redirects to relative addresses. The pool of connections of
  \<open>http.Transport\<close>: every exchange dials anew here, where the program may reuse a connection that an
  earlier dial through the guard opened to the same address. The depth limit of \<open>encoding/json\<close>. The text of errors, which are values
  here, and what \<open>flag\<close> itself prints. The text of a dialed address, which stays an address and a port.
  Goroutines of \<open>net/http\<close>: a request is handled on its own, as the handler shares no state that changes.
  Tests, containers, workflows and diagrams are not part of the program.
\<close>

end
